(* ===== verification/Go_Prelude.thy ===== *)
theory Go_Prelude
  imports Main "HOL-Library.Char_ord" "HOL-Library.List_Lexorder"
begin

text \<open>
  The prelude of the development: what the Go language and its standard library
  give every component. Go's \<open>error\<close> values (with their wrapping), a result type
  with the ways a Go call can end (a value, an error, a run-time panic, no end),
  the string functions and the \<open>fmt\<close> verbs the sources use, and the lemma
  collections shared by the component theories.
\<close>

named_theorems go_simps \<open>equations that evaluate the Go-level helpers\<close>

section \<open>Error values\<close>

text \<open>
  A Go error is observed through \<open>Error()\<close>, through the unwrapping walk of
  \<open>errors.Is\<close> and \<open>errors.As\<close>, and through type tests. The constructors keep
  exactly that. \<open>Msg\<close> is \<open>errors.New\<close> and \<open>fmt.Errorf\<close> without \<open>%w\<close>; \<open>Wrap\<close>
  is \<open>fmt.Errorf\<close> with \<open>%w\<close> (full text, wrapped error); \<open>JoinErr\<close> is the value
  of \<open>errors.Join\<close>; \<open>Aggregate\<close> is a value of the interface
  \<open>utilerrors.Aggregate\<close>, given by its two methods \<open>Error()\<close> and \<open>Errors()\<close>;
  \<open>NotExist\<close>, \<open>ApiNotFound\<close>, \<open>ApiInvalid\<close>, \<open>NoKindMatch\<close> and \<open>ReleaseNotFound\<close>
  are the errors the sources recognise by identity, reason or type
  (\<open>os.ErrNotExist\<close>, the Kubernetes status reasons, \<open>meta.NoKindMatchError\<close>,
  \<open>driver.ErrReleaseNotFound\<close>). \<open>Unrecoverable\<close> (pkg/errors) and
  \<open>RequiredResourceNotFound\<close> (the controller) are the program's own error types:
  they embed an error and have no \<open>Unwrap\<close> method, so a walk stops at them.
\<close>

datatype gerror =
    Msg string
  | Wrap string gerror
  | JoinErr "gerror list"
  | Aggregate string "gerror list"
  | NotExist string
  | ApiNotFound string
  | ApiInvalid string
  | NoKindMatch string
  | ReleaseNotFound string
  | Unrecoverable gerror
  | RequiredResourceNotFound gerror

fun join_with :: "string \<Rightarrow> string list \<Rightarrow> string" where
  "join_with sep [] = []"
| "join_with sep [x] = x"
| "join_with sep (x # y # ys) = x @ sep @ join_with sep (y # ys)"

fun Error :: "gerror \<Rightarrow> string" where
  "Error (Msg s) = s"
| "Error (Wrap s e) = s"
| "Error (JoinErr es) = join_with [CHR 0x0A] (map Error es)"
| "Error (Aggregate s es) = s"
| "Error (NotExist s) = s"
| "Error (ApiNotFound s) = s"
| "Error (ApiInvalid s) = s"
| "Error (NoKindMatch s) = s"
| "Error (ReleaseNotFound s) = s"
| "Error (Unrecoverable e) = Error e"
| "Error (RequiredResourceNotFound e) = ''required resource not found: '' @ Error e"

text \<open>\<open>errors.Is\<close> and \<open>errors.As\<close>: the pre-order walk over \<open>Unwrap\<close> (one error for
  \<open>%w\<close>, a list for \<open>errors.Join\<close>).\<close>

fun err_chain :: "gerror \<Rightarrow> gerror list" where
  "err_chain (Wrap s e) = Wrap s e # err_chain e"
| "err_chain (JoinErr es) = JoinErr es # concat (map err_chain es)"
| "err_chain e = [e]"

definition errors_As :: "(gerror \<Rightarrow> bool) \<Rightarrow> gerror \<Rightarrow> gerror option" where
  "errors_As p e = List.find p (err_chain e)"

fun is_aggregate :: "gerror \<Rightarrow> bool" where
  "is_aggregate (Aggregate s es) = True"
| "is_aggregate e = False"

fun is_no_kind_match :: "gerror \<Rightarrow> bool" where
  "is_no_kind_match (NoKindMatch s) = True"
| "is_no_kind_match e = False"

fun is_api_not_found :: "gerror \<Rightarrow> bool" where
  "is_api_not_found (ApiNotFound s) = True"
| "is_api_not_found e = False"

fun is_api_invalid :: "gerror \<Rightarrow> bool" where
  "is_api_invalid (ApiInvalid s) = True"
| "is_api_invalid e = False"

fun is_not_exist :: "gerror \<Rightarrow> bool" where
  "is_not_exist (NotExist s) = True"
| "is_not_exist e = False"

fun is_release_not_found :: "gerror \<Rightarrow> bool" where
  "is_release_not_found (ReleaseNotFound s) = True"
| "is_release_not_found e = False"

text \<open>\<open>apierrors.IsNotFound\<close>, \<open>apierrors.IsInvalid\<close>, \<open>errors.Is(err, os.ErrNotExist)\<close>
  and \<open>errors.Is(err, driver.ErrReleaseNotFound)\<close> all look through wrapping.\<close>

definition IsNotFound :: "gerror \<Rightarrow> bool" where
  "IsNotFound e = (errors_As is_api_not_found e \<noteq> None)"

definition IsInvalid :: "gerror \<Rightarrow> bool" where
  "IsInvalid e = (errors_As is_api_invalid e \<noteq> None)"

definition IsNotExist :: "gerror \<Rightarrow> bool" where
  "IsNotExist e = (errors_As is_not_exist e \<noteq> None)"

definition IsReleaseNotFound :: "gerror \<Rightarrow> bool" where
  "IsReleaseNotFound e = (errors_As is_release_not_found e \<noteq> None)"

lemmas error_tests = IsNotFound_def IsInvalid_def IsNotExist_def IsReleaseNotFound_def errors_As_def
declare error_tests [go_simps]

text \<open>\<open>errors.Join\<close> of non-nil errors: nil when there are none.\<close>

definition errors_Join :: "gerror list \<Rightarrow> gerror option" where
  "errors_Join es = (if es = [] then None else Some (JoinErr es))"

section \<open>Outcomes\<close>

text \<open>
  How a Go call ends: it returns a value and a nil error, it returns an error, it
  panics, or it has not ended within the number of steps it was given (\<open>Diverge\<close>,
  only from the definitions that take such a bound).
\<close>

datatype 'a outcome = Ok 'a | Err gerror | Panic string | Diverge

fun is_ok :: "'a outcome \<Rightarrow> bool" where
  "is_ok (Ok x) = True"
| "is_ok _ = False"

fun is_panic :: "'a outcome \<Rightarrow> bool" where
  "is_panic (Panic s) = True"
| "is_panic _ = False"

fun obind :: "'a outcome \<Rightarrow> ('a \<Rightarrow> 'b outcome) \<Rightarrow> 'b outcome" where
  "obind (Ok x) f = f x"
| "obind (Err e) f = Err e"
| "obind (Panic s) f = Panic s"
| "obind Diverge f = Diverge"

text \<open>Collecting the results of a loop body that may fail: the loop returns at the first failure.\<close>

fun omap :: "('a \<Rightarrow> 'b outcome) \<Rightarrow> 'a list \<Rightarrow> 'b list outcome" where
  "omap f [] = Ok []"
| "omap f (x # xs) = obind (f x) (\<lambda>y. obind (omap f xs) (\<lambda>ys. Ok (y # ys)))"

lemma obind_Ok_iff [simp]: "obind m f = Ok y \<longleftrightarrow> (\<exists>x. m = Ok x \<and> f x = Ok y)"
  by (cases m) auto

lemma obind_Err_iff [simp]: "obind m f = Err e \<longleftrightarrow> m = Err e \<or> (\<exists>x. m = Ok x \<and> f x = Err e)"
  by (cases m) auto

lemma obind_Panic_iff [simp]: "obind m f = Panic s \<longleftrightarrow> m = Panic s \<or> (\<exists>x. m = Ok x \<and> f x = Panic s)"
  by (cases m) auto

lemma obind_Diverge_iff [simp]: "obind m f = Diverge \<longleftrightarrow> m = Diverge \<or> (\<exists>x. m = Ok x \<and> f x = Diverge)"
  by (cases m) auto

lemma omap_Ok_length: "omap f xs = Ok ys \<Longrightarrow> length ys = length xs"
  by (induction xs arbitrary: ys) auto

lemma omap_Ok_iff: "omap f xs = Ok ys \<longleftrightarrow> list_all2 (\<lambda>x y. f x = Ok y) xs ys"
  by (induction xs arbitrary: ys) (auto simp: list_all2_Cons1)

lemma omap_Ok_set: "omap f xs = Ok ys \<Longrightarrow> set ys = {y. \<exists>x \<in> set xs. f x = Ok y}"
  by (induction xs arbitrary: ys) auto

lemma omap_total: "(\<And>x. x \<in> set xs \<Longrightarrow> f x = Ok (g x)) \<Longrightarrow> omap f xs = Ok (map g xs)"
  by (induction xs) auto

text \<open>A loop of checks that returns at the first one that fails.\<close>

fun oall :: "('a \<Rightarrow> unit outcome) \<Rightarrow> 'a list \<Rightarrow> unit outcome" where
  "oall f [] = Ok ()"
| "oall f (x # xs) = obind (f x) (\<lambda>_. oall f xs)"

lemma oall_Ok_iff: "oall f xs = Ok () \<longleftrightarrow> (\<forall>x \<in> set xs. f x = Ok ())"
  by (induction xs) auto

text \<open>
  The result of a call into a library, which does not panic: an error or a value
  (\<open>Inl\<close> the error). \<open>lift_result\<close> makes it an outcome of the calling function.
\<close>

type_synonym 'a result = "gerror + 'a"

fun lift_result :: "'a result \<Rightarrow> 'a outcome" where
  "lift_result (Inl e) = Err e"
| "lift_result (Inr x) = Ok x"

lemma lift_result_iff [simp]:
  "lift_result r = Ok x \<longleftrightarrow> r = Inr x" "lift_result r = Err e \<longleftrightarrow> r = Inl e"
  "lift_result r \<noteq> Panic s" "lift_result r \<noteq> Diverge"
  by (cases r; simp)+

text \<open>When a call is followed by an early return on its error: the two ways it ends well.\<close>

lemma case_result_Ok: "(case r of Inl e \<Rightarrow> Err (f e) | Inr x \<Rightarrow> g x) = Ok y \<longleftrightarrow> (\<exists>x. r = Inr x \<and> g x = Ok y)"
  by (cases r) auto

lemma case_error_Ok: "(case err of None \<Rightarrow> m | Some e \<Rightarrow> Err (f e)) = Ok y \<longleftrightarrow> err = None \<and> m = Ok y"
  by (cases err) auto

lemma case_nil_Ok: "(case v of None \<Rightarrow> Err e | Some x \<Rightarrow> g x) = Ok y \<longleftrightarrow> (\<exists>x. v = Some x \<and> g x = Ok y)"
  by (cases v) auto

lemma case_pair_Ok:
  "(case p of (Inl e, a) \<Rightarrow> Err (f e a) | (Inr x, a) \<Rightarrow> g x a) = Ok y \<longleftrightarrow> (\<exists>x a. p = (Inr x, a) \<and> g x a = Ok y)"
  by (cases p; cases "fst p") auto

lemma if_error_Ok: "(if b then Err e else m) = Ok y \<longleftrightarrow> \<not> b \<and> m = Ok y"
  by auto

lemmas early_return = case_result_Ok case_error_Ok case_nil_Ok case_pair_Ok if_error_Ok

text \<open>A call that also reads and changes the world around the program.\<close>

type_synonym ('w, 'a) M = "'w \<Rightarrow> 'a outcome \<times> 'w"

section \<open>Strings\<close>

definition HasPrefix :: "string \<Rightarrow> string \<Rightarrow> bool" where
  "HasPrefix s p = (take (length p) s = p)"

definition TrimPrefix :: "string \<Rightarrow> string \<Rightarrow> string" where
  "TrimPrefix s p = (if HasPrefix s p then drop (length p) s else s)"

fun Contains :: "string \<Rightarrow> string \<Rightarrow> bool" where
  "Contains [] p = (p = [])"
| "Contains (c # s) p = (HasPrefix (c # s) p \<or> Contains s p)"

fun split_on :: "char \<Rightarrow> string \<Rightarrow> string list" where
  "split_on c [] = [[]]"
| "split_on c (x # xs) =
     (if x = c then [] # split_on c xs
      else (case split_on c xs of [] \<Rightarrow> [[x]] | y # ys \<Rightarrow> (x # y) # ys))"

text \<open>The slice expression \<open>s[:n]\<close> panics when \<open>n\<close> is negative or past the end; so does
  the index expression \<open>s[i]\<close>.\<close>

definition slice_to :: "string \<Rightarrow> int \<Rightarrow> string outcome" where
  "slice_to s n =
     (if 0 \<le> n \<and> n \<le> int (length s) then Ok (take (nat n) s)
      else Panic ''slice bounds out of range'')"

definition index_at :: "string \<Rightarrow> nat \<Rightarrow> char outcome" where
  "index_at s i = (if i < length s then Ok (s ! i) else Panic ''index out of range'')"

lemma HasPrefix_iff: "HasPrefix s p \<longleftrightarrow> (\<exists>t. s = p @ t)"
  by (metis HasPrefix_def append_eq_conv_conj append_take_drop_id)

lemma HasPrefix_append [simp]: "HasPrefix (p @ t) p"
  by (simp add: HasPrefix_def)

lemma TrimPrefix_append [simp]: "TrimPrefix (p @ t) p = t"
  by (simp add: TrimPrefix_def)

lemma Contains_iff: "Contains s p \<longleftrightarrow> (\<exists>u t. s = u @ p @ t)"
proof (induction s)
  case (Cons c s)
  show ?case
  proof
    assume "Contains (c # s) p"
    then consider "HasPrefix (c # s) p" | "\<exists>u t. s = u @ p @ t"
      using Cons by auto
    then show "\<exists>u t. c # s = u @ p @ t"
    proof cases
      case 1
      then show ?thesis by (metis HasPrefix_iff append_Nil)
    next
      case 2
      then show ?thesis by (metis append_Cons)
    qed
  next
    assume "\<exists>u t. c # s = u @ p @ t"
    then obtain u t where "c # s = u @ p @ t" by blast
    then show "Contains (c # s) p"
    proof (cases u)
      case Nil
      with \<open>c # s = u @ p @ t\<close> have "HasPrefix (c # s) p" by (metis HasPrefix_append append_Nil)
      then show ?thesis by simp
    next
      case (Cons a v)
      with \<open>c # s = u @ p @ t\<close> have "s = v @ p @ t" by simp
      with Cons.IH show ?thesis by auto
    qed
  qed
qed auto

lemma split_on_nonempty [simp]: "split_on c s \<noteq> []"
  by (induction s) (auto split: list.splits)

lemma split_on_sep_free: "x \<in> set (split_on c s) \<Longrightarrow> c \<notin> set x"
  by (induction s arbitrary: x) (auto split: list.splits if_splits)

lemma split_on_no_sep: "c \<notin> set s \<Longrightarrow> split_on c s = [s]"
  by (induction s) auto

lemma split_on_append: "c \<notin> set s \<Longrightarrow> split_on c (s @ c # t) = s # split_on c t"
  by (induction s) auto

lemma split_on_join_with:
  "xs \<noteq> [] \<Longrightarrow> (\<And>x. x \<in> set xs \<Longrightarrow> c \<notin> set x) \<Longrightarrow> split_on c (join_with [c] xs) = xs"
  by (induction "[c]" xs rule: join_with.induct) (auto simp: split_on_no_sep split_on_append)

lemma join_with_Cons: "join_with sep (x # xs) = (if xs = [] then x else x @ sep @ join_with sep xs)"
  by (cases xs) auto

subsection \<open>Verbs of package fmt\<close>

text \<open>
  \<open>%d\<close> on a non-negative number, \<open>%v\<close> on a string slice, and \<open>%q\<close>. Strings are byte
  strings; \<open>%q\<close> is given for ASCII, where a character is printed as itself, as one of
  the seven letter escapes, or as two hexadecimal digits.
\<close>

definition digit_char :: "nat \<Rightarrow> char" where
  "digit_char d = (if d < 10 then char_of (48 + d) else char_of (87 + d))"

fun digits_in :: "nat \<Rightarrow> nat \<Rightarrow> string" where
  "digits_in b n = (if b < 2 \<or> n < b then [digit_char n] else digits_in b (n div b) @ [digit_char (n mod b)])"

declare digits_in.simps [simp del]

definition fmt_d :: "nat \<Rightarrow> string" where
  "fmt_d n = digits_in 10 n"

definition fmt_v_strings :: "string list \<Rightarrow> string" where
  "fmt_v_strings xs = ''['' @ join_with '' '' xs @ '']''"

definition quote_char :: "char \<Rightarrow> string" where
  "quote_char c =
     (let n = (of_char c :: nat) in
      if n = 34 \<or> n = 92 then [CHR 0x5C, c]
      else if n = 7 then [CHR 0x5C, CHR ''a'']
      else if n = 8 then [CHR 0x5C, CHR ''b'']
      else if n = 9 then [CHR 0x5C, CHR ''t'']
      else if n = 10 then [CHR 0x5C, CHR ''n'']
      else if n = 11 then [CHR 0x5C, CHR ''v'']
      else if n = 12 then [CHR 0x5C, CHR ''f'']
      else if n = 13 then [CHR 0x5C, CHR ''r'']
      else if n < 32 \<or> 127 \<le> n then [CHR 0x5C, CHR ''x'', digit_char (n div 16), digit_char (n mod 16)]
      else [c])"

definition fmt_q :: "string \<Rightarrow> string" where
  "fmt_q s = [CHR 0x22] @ concat (map quote_char s) @ [CHR 0x22]"

section \<open>Lookups by key\<close>

text \<open>Kubernetes' \<open>sets.Set[string]\<close> is a set of strings; \<open>sets.List\<close> is its sorted list.\<close>

abbreviation sets_List :: "string set \<Rightarrow> string list" where
  "sets_List \<equiv> sorted_list_of_set"

lemma find_Some_iff:
  "List.find p xs = Some x \<Longrightarrow> x \<in> set xs \<and> p x"
  by (induction xs) (auto split: if_splits)

lemma find_append:
  "List.find p (xs @ ys) = (case List.find p xs of None \<Rightarrow> List.find p ys | Some x \<Rightarrow> Some x)"
  by (induction xs) auto

lemma find_none_iff: "List.find p xs = None \<longleftrightarrow> (\<forall>x \<in> set xs. \<not> p x)"
  by (induction xs) auto

end
