(* ===== verification/API_Types.thy ===== *)
theory API_Types
  imports Go_Prelude
begin

text \<open>
  The data of the program: the custom resource of api/v1alpha2 (bundle_types.go,
  bundledeployment_types.go) with its constants, and the shapes of the Kubernetes
  objects the program reads and writes (object metadata, conditions, config maps,
  secrets, generic objects). A Go pointer or a nilable slice is an \<open>option\<close>.
\<close>

section \<open>Kubernetes data\<close>

datatype json = JNull | JBool bool | JNum int | JStr string | JArr "json list" | JObj "(string \<times> json) list"

record GroupVersionKind =
  gvk_Group :: string
  gvk_Version :: string
  gvk_Kind :: string

record OwnerReference =
  or_APIVersion :: string
  or_Kind :: string
  or_Name :: string
  or_UID :: string
  or_Controller :: "bool option"

definition gvk_String :: "GroupVersionKind \<Rightarrow> string" where
  "gvk_String g = gvk_Group g @ ''/'' @ gvk_Version g @ '', Kind='' @ gvk_Kind g"

record ObjectMeta =
  om_Name :: string
  om_Namespace :: string
  om_UID :: string
  om_ResourceVersion :: string
  om_Generation :: int
  om_Labels :: "string \<rightharpoonup> string"
  om_Annotations :: "string \<rightharpoonup> string"
  om_Finalizers :: "string list"
  om_OwnerReferences :: "OwnerReference list"
  om_DeletionTimestamp :: "nat option"

text \<open>A generic object (\<open>client.Object\<close>, \<open>unstructured.Unstructured\<close>): its kind, its
  metadata, its status and the rest of its content.\<close>

record kobject =
  ko_GVK :: GroupVersionKind
  ko_Meta :: ObjectMeta
  ko_Status :: "json option"
  ko_Body :: json

datatype ConditionStatus = ConditionTrue | ConditionFalse | ConditionUnknown

record Condition =
  cond_Type :: string
  cond_Status :: ConditionStatus
  cond_ObservedGeneration :: int
  cond_LastTransitionTime :: nat
  cond_Reason :: string
  cond_Message :: string

record ConfigMap =
  cm_Name :: string
  cm_Namespace :: string
  cm_Immutable :: "bool option"
  cm_Data :: "(string \<times> string) list"
  cm_BinaryData :: "(string \<times> string) list"

record Secret =
  secret_Data :: "string \<rightharpoonup> string"

definition empty_meta :: "string \<Rightarrow> string \<Rightarrow> ObjectMeta" where
  "empty_meta ns name = \<lparr>om_Name = name, om_Namespace = ns, om_UID = [], om_ResourceVersion = [],
     om_Generation = 0, om_Labels = Map.empty, om_Annotations = Map.empty, om_Finalizers = [],
     om_OwnerReferences = [], om_DeletionTimestamp = None\<rparr>"

section \<open>The bundle source\<close>

type_synonym SourceType = string

definition SourceTypeImage :: SourceType where "SourceTypeImage = ''image''"
definition SourceTypeGit :: SourceType where "SourceTypeGit = ''git''"
definition SourceTypeConfigMaps :: SourceType where "SourceTypeConfigMaps = ''configMaps''"
definition SourceTypeHTTP :: SourceType where "SourceTypeHTTP = ''http''"

lemmas source_type_defs = SourceTypeImage_def SourceTypeGit_def SourceTypeConfigMaps_def SourceTypeHTTP_def

record ImageSource =
  img_Ref :: string
  img_ImagePullSecretName :: string
  img_InsecureSkipTLSVerify :: bool
  img_CertificateData :: string

record GitRef =
  ref_Branch :: string
  ref_Tag :: string
  ref_Commit :: string

record Authorization =
  auth_Secret :: string
  auth_InsecureSkipVerify :: bool

record GitSource =
  git_Repository :: string
  git_Directory :: string
  git_Ref :: GitRef
  git_Auth :: Authorization

record ConfigMapSource =
  cms_ConfigMap :: string
  cms_Path :: string

record HTTPSource =
  http_URL :: string
  http_Auth :: Authorization

record BundleSource =
  src_Type :: SourceType
  src_Image :: "ImageSource option"
  src_Git :: "GitSource option"
  src_ConfigMaps :: "ConfigMapSource list option"
  src_HTTP :: "HTTPSource option"

definition config_map_refs :: "BundleSource \<Rightarrow> ConfigMapSource list" where
  "config_map_refs s = (case src_ConfigMaps s of None \<Rightarrow> [] | Some cs \<Rightarrow> cs)"

definition empty_source :: "SourceType \<Rightarrow> BundleSource" where
  "empty_source t = \<lparr>src_Type = t, src_Image = None, src_Git = None, src_ConfigMaps = None, src_HTTP = None\<rparr>"

section \<open>The bundle deployment\<close>

record CRDUpgradeSafetyPreflightConfig =
  crd_Disabled :: bool

record PreflightConfig =
  pf_CRDUpgradeSafety :: "CRDUpgradeSafetyPreflightConfig option"

record BundleDeploymentSpec =
  spec_InstallNamespace :: string
  spec_ProvisionerClassName :: string
  spec_Source :: BundleSource
  spec_Config :: json
  spec_Preflight :: "PreflightConfig option"

record BundleDeploymentStatus =
  st_Conditions :: "Condition list"
  st_ResolvedSource :: "BundleSource option"
  st_ContentURL :: string
  st_ObservedGeneration :: int

record BundleDeployment =
  bd_APIVersion :: string
  bd_Kind :: string
  bd_Meta :: ObjectMeta
  bd_Spec :: BundleDeploymentSpec
  bd_Status :: BundleDeploymentStatus

abbreviation bd_Name :: "BundleDeployment \<Rightarrow> string" where
  "bd_Name bd \<equiv> om_Name (bd_Meta bd)"

abbreviation bd_Source :: "BundleDeployment \<Rightarrow> BundleSource" where
  "bd_Source bd \<equiv> spec_Source (bd_Spec bd)"

definition ProvisionerClassName :: "BundleDeployment \<Rightarrow> string" where
  "ProvisionerClassName b = spec_ProvisionerClassName (bd_Spec b)"

definition BundleDeploymentGVK :: GroupVersionKind where
  "BundleDeploymentGVK = \<lparr>gvk_Group = ''core.rukpak.io'', gvk_Version = ''v1alpha2'', gvk_Kind = ''BundleDeployment''\<rparr>"

definition BundleDeploymentKind :: string where
  "BundleDeploymentKind = gvk_Kind BundleDeploymentGVK"

definition empty_status :: BundleDeploymentStatus where
  "empty_status = \<lparr>st_Conditions = [], st_ResolvedSource = None, st_ContentURL = [], st_ObservedGeneration = 0\<rparr>"

text \<open>A bundle deployment of a given name, provisioner and source, everything else empty.\<close>

definition mk_bd :: "string \<Rightarrow> string \<Rightarrow> BundleSource \<Rightarrow> BundleDeployment" where
  "mk_bd name prov src = \<lparr>bd_APIVersion = ''core.rukpak.io/v1alpha2'', bd_Kind = ''BundleDeployment'',
     bd_Meta = empty_meta [] name,
     bd_Spec = \<lparr>spec_InstallNamespace = ''ns'', spec_ProvisionerClassName = prov, spec_Source = src,
                spec_Config = JNull, spec_Preflight = None\<rparr>,
     bd_Status = empty_status\<rparr>"

section \<open>Condition types and reasons\<close>

definition TypeUnpacked :: string where "TypeUnpacked = ''Unpacked''"
definition TypeHasValidBundle :: string where "TypeHasValidBundle = ''HasValidBundle''"
definition TypeHealthy :: string where "TypeHealthy = ''Healthy''"
definition TypeInstalled :: string where "TypeInstalled = ''Installed''"

definition ReasonUnpackPending :: string where "ReasonUnpackPending = ''UnpackPending''"
definition ReasonUnpacking :: string where "ReasonUnpacking = ''Unpacking''"
definition ReasonUnpackSuccessful :: string where "ReasonUnpackSuccessful = ''UnpackSuccessful''"
definition ReasonUnpackFailed :: string where "ReasonUnpackFailed = ''UnpackFailed''"
definition ReasonProcessingFinalizerFailed :: string where
  "ReasonProcessingFinalizerFailed = ''ProcessingFinalizerFailed''"
definition ReasonBundleLoadFailed :: string where "ReasonBundleLoadFailed = ''BundleLoadFailed''"
definition ReasonCreateDynamicWatchFailed :: string where
  "ReasonCreateDynamicWatchFailed = ''CreateDynamicWatchFailed''"
definition ReasonErrorGettingClient :: string where "ReasonErrorGettingClient = ''ErrorGettingClient''"
definition ReasonErrorGettingReleaseState :: string where
  "ReasonErrorGettingReleaseState = ''ErrorGettingReleaseState''"
definition ReasonHealthy :: string where "ReasonHealthy = ''Healthy''"
definition ReasonInstallationStatusFalse :: string where
  "ReasonInstallationStatusFalse = ''InstallationStatusFalse''"
definition ReasonInstallationSucceeded :: string where
  "ReasonInstallationSucceeded = ''InstallationSucceeded''"
definition ReasonInstallFailed :: string where "ReasonInstallFailed = ''InstallFailed''"
definition ReasonReconcileFailed :: string where "ReasonReconcileFailed = ''ReconcileFailed''"
definition ReasonUnhealthy :: string where "ReasonUnhealthy = ''Unhealthy''"
definition ReasonUpgradeFailed :: string where "ReasonUpgradeFailed = ''UpgradeFailed''"

lemma condition_types_distinct [simp]:
  "TypeUnpacked \<noteq> TypeHasValidBundle" "TypeUnpacked \<noteq> TypeHealthy" "TypeUnpacked \<noteq> TypeInstalled"
  "TypeHasValidBundle \<noteq> TypeUnpacked" "TypeHasValidBundle \<noteq> TypeHealthy" "TypeHasValidBundle \<noteq> TypeInstalled"
  "TypeHealthy \<noteq> TypeUnpacked" "TypeHealthy \<noteq> TypeHasValidBundle" "TypeHealthy \<noteq> TypeInstalled"
  "TypeInstalled \<noteq> TypeUnpacked" "TypeInstalled \<noteq> TypeHasValidBundle" "TypeInstalled \<noteq> TypeHealthy"
  by (simp_all add: TypeUnpacked_def TypeHasValidBundle_def TypeHealthy_def TypeInstalled_def)

lemma source_types_distinct [simp]:
  "SourceTypeImage \<noteq> SourceTypeGit" "SourceTypeImage \<noteq> SourceTypeConfigMaps" "SourceTypeImage \<noteq> SourceTypeHTTP"
  "SourceTypeGit \<noteq> SourceTypeImage" "SourceTypeGit \<noteq> SourceTypeConfigMaps" "SourceTypeGit \<noteq> SourceTypeHTTP"
  "SourceTypeConfigMaps \<noteq> SourceTypeImage" "SourceTypeConfigMaps \<noteq> SourceTypeGit" "SourceTypeConfigMaps \<noteq> SourceTypeHTTP"
  "SourceTypeHTTP \<noteq> SourceTypeImage" "SourceTypeHTTP \<noteq> SourceTypeGit" "SourceTypeHTTP \<noteq> SourceTypeConfigMaps"
  by (simp_all add: source_type_defs)

end
