(* ===== verification/BD_Status.thy ===== *)
theory BD_Status
  imports API_Types
begin

text \<open>
  The status of a bundle deployment: the writers of its conditions
  (internal/controllers/bundledeployment/bundledeployment.go, the functions at the end
  of the file and \<open>setInstalledAndHealthyFalse\<close>) and the comparison of conditions of
  pkg/updater. \<open>meta.SetStatusCondition\<close> is library code and is the parameter \<open>setSC\<close>; what
  is documented of it is the predicate \<open>condition_setter\<close>, and \<open>upsert_condition\<close> is
  a function that satisfies it.
\<close>

section \<open>Reading and setting conditions\<close>

definition FindStatusCondition :: "Condition list \<Rightarrow> string \<Rightarrow> Condition option" where
  "FindStatusCondition cs t = List.find (\<lambda>c. cond_Type c = t) cs"

text \<open>What a client reads of a condition: its status, reason and message.\<close>

type_synonym cond_content = "ConditionStatus \<times> string \<times> string"

definition cond_view :: "Condition list \<Rightarrow> string \<Rightarrow> cond_content option" where
  "cond_view cs t = map_option (\<lambda>c. (cond_Status c, cond_Reason c, cond_Message c)) (FindStatusCondition cs t)"

abbreviation bd_cond :: "BundleDeploymentStatus \<Rightarrow> string \<Rightarrow> cond_content option" where
  "bd_cond st t \<equiv> cond_view (st_Conditions st) t"

type_synonym cond_setter = "Condition list \<Rightarrow> Condition \<Rightarrow> Condition list"

definition condition_setter :: "cond_setter \<Rightarrow> bool" where
  "condition_setter setSC \<longleftrightarrow>
     (\<forall>cs c. cond_view (setSC cs c) (cond_Type c) = Some (cond_Status c, cond_Reason c, cond_Message c)
           \<and> (\<forall>t. t \<noteq> cond_Type c \<longrightarrow> cond_view (setSC cs c) t = cond_view cs t))"

text \<open>The literal the sources write: the other fields of the condition are left zero.\<close>

definition new_condition :: "string \<Rightarrow> ConditionStatus \<Rightarrow> string \<Rightarrow> string \<Rightarrow> Condition" where
  "new_condition t s reason msg = \<lparr>cond_Type = t, cond_Status = s, cond_ObservedGeneration = 0,
     cond_LastTransitionTime = 0, cond_Reason = reason, cond_Message = msg\<rparr>"

fun upsert_condition :: "nat \<Rightarrow> cond_setter" where
  "upsert_condition now [] c = [c\<lparr>cond_LastTransitionTime := now\<rparr>]"
| "upsert_condition now (x # xs) c =
     (if cond_Type x = cond_Type c
      then c\<lparr>cond_LastTransitionTime := if cond_Status x = cond_Status c then cond_LastTransitionTime x else now\<rparr> # xs
      else x # upsert_condition now xs c)"

lemma cond_view_Nil [simp]: "cond_view [] t = None"
  by (simp add: cond_view_def FindStatusCondition_def)

lemma cond_view_Cons [simp]:
  "cond_view (x # xs) t =
     (if cond_Type x = t then Some (cond_Status x, cond_Reason x, cond_Message x) else cond_view xs t)"
  by (simp add: cond_view_def FindStatusCondition_def)

lemma upsert_condition_setter: "condition_setter (upsert_condition now)"
proof -
  have "cond_view (upsert_condition now cs c) (cond_Type c) = Some (cond_Status c, cond_Reason c, cond_Message c)"
    for cs c by (induction cs) auto
  moreover have "cond_view (upsert_condition now cs c) t = cond_view cs t" if "t \<noteq> cond_Type c" for cs c t
    using that by (induction cs) auto
  ultimately show ?thesis by (simp add: condition_setter_def)
qed

text \<open>Updating a condition that is there keeps its place; a second update leaves one condition of the type.\<close>

lemma upsert_condition_types:
  "distinct (map cond_Type cs) \<Longrightarrow> distinct (map cond_Type (upsert_condition now cs c))
     \<and> set (map cond_Type (upsert_condition now cs c)) = insert (cond_Type c) (set (map cond_Type cs))"
  by (induction cs) auto

definition set_cond :: "cond_setter \<Rightarrow> string \<Rightarrow> ConditionStatus \<Rightarrow> string \<Rightarrow> string \<Rightarrow> BundleDeploymentStatus \<Rightarrow> BundleDeploymentStatus" where
  "set_cond setSC t s reason msg st = st\<lparr>st_Conditions := setSC (st_Conditions st) (new_condition t s reason msg)\<rparr>"

lemma set_cond_view:
  "condition_setter setSC \<Longrightarrow>
     bd_cond (set_cond setSC t s r m st) t' = (if t' = t then Some (s, r, m) else bd_cond st t')"
  unfolding condition_setter_def set_cond_def
  by (cases "t' = t") (auto simp: new_condition_def dest!: spec [where x = "st_Conditions st"] spec [where x = "new_condition t s r m"])

lemma set_cond_fields [simp]:
  "st_ResolvedSource (set_cond setSC t s r m st) = st_ResolvedSource st"
  "st_ContentURL (set_cond setSC t s r m st) = st_ContentURL st"
  "st_ObservedGeneration (set_cond setSC t s r m st) = st_ObservedGeneration st"
  by (simp_all add: set_cond_def)

section \<open>The status writers\<close>

text \<open>\<open>updateStatusUnpackFailing\<close> also returns the error it was given.\<close>

definition updateStatusUnpackFailing :: "cond_setter \<Rightarrow> BundleDeploymentStatus \<Rightarrow> gerror \<Rightarrow> BundleDeploymentStatus \<times> gerror" where
  "updateStatusUnpackFailing setSC status err =
     (set_cond setSC TypeUnpacked ConditionFalse ReasonUnpackFailed (Error err)
        (status\<lparr>st_ResolvedSource := None, st_ContentURL := []\<rparr>), err)"

definition updateStatusUnpackPending :: "cond_setter \<Rightarrow> BundleDeploymentStatus \<Rightarrow> string \<Rightarrow> BundleDeploymentStatus" where
  "updateStatusUnpackPending setSC status msg =
     set_cond setSC TypeUnpacked ConditionFalse ReasonUnpackPending msg
       (status\<lparr>st_ResolvedSource := None, st_ContentURL := []\<rparr>)"

definition updateStatusUnpacking :: "cond_setter \<Rightarrow> BundleDeploymentStatus \<Rightarrow> string \<Rightarrow> BundleDeploymentStatus" where
  "updateStatusUnpacking setSC status msg =
     set_cond setSC TypeUnpacked ConditionFalse ReasonUnpacking msg
       (status\<lparr>st_ResolvedSource := None, st_ContentURL := []\<rparr>)"

definition updateStatusUnpacked ::
  "cond_setter \<Rightarrow> BundleDeploymentStatus \<Rightarrow> BundleSource option \<Rightarrow> string \<Rightarrow> string \<Rightarrow> BundleDeploymentStatus" where
  "updateStatusUnpacked setSC status resolved msg contentURL =
     set_cond setSC TypeUnpacked ConditionTrue ReasonUnpackSuccessful msg
       (status\<lparr>st_ResolvedSource := resolved, st_ContentURL := contentURL\<rparr>)"

text \<open>\<open>gate\<close> is the feature gate \<open>BundleDeploymentHealth\<close>.\<close>

definition setInstalledAndHealthyFalse ::
  "cond_setter \<Rightarrow> bool \<Rightarrow> BundleDeploymentStatus \<Rightarrow> string \<Rightarrow> string \<Rightarrow> BundleDeploymentStatus" where
  "setInstalledAndHealthyFalse setSC gate status reason msg =
     (let st = set_cond setSC TypeInstalled ConditionFalse reason msg status in
      if gate
      then set_cond setSC TypeHealthy ConditionFalse ReasonInstallationStatusFalse ''Installed condition is false'' st
      else st)"

lemmas status_writers = updateStatusUnpackFailing_def updateStatusUnpackPending_def updateStatusUnpacking_def
  updateStatusUnpacked_def setInstalledAndHealthyFalse_def

section \<open>Comparing conditions\<close>

definition ConditionsSemanticallyEqual :: "Condition \<Rightarrow> Condition \<Rightarrow> bool" where
  "ConditionsSemanticallyEqual a b \<longleftrightarrow>
     cond_Type a = cond_Type b \<and> cond_Status a = cond_Status b \<and> cond_Reason a = cond_Reason b
     \<and> cond_Message a = cond_Message b \<and> cond_ObservedGeneration a = cond_ObservedGeneration b"

lemma ConditionsSemanticallyEqual_iff:
  "ConditionsSemanticallyEqual a b \<longleftrightarrow> (\<exists>t. a = b\<lparr>cond_LastTransitionTime := t\<rparr>)"
  by (cases a; cases b) (auto simp: ConditionsSemanticallyEqual_def)

text \<open>Setting an already set condition again is invisible to the comparison.\<close>

lemma upsert_condition_same:
  "list_all2 ConditionsSemanticallyEqual (upsert_condition n1 (upsert_condition n2 cs c) c) (upsert_condition n2 cs c)"
  by (induction cs) (auto simp: ConditionsSemanticallyEqual_def intro: list_all2_refl)

end
