(* ===== verification/Healthchecks.thy ===== *)
theory Healthchecks
  imports API_Types "HOL-Library.Sublist"
begin

text \<open>
  The health of the objects of a release (internal/healthchecks/builtin.go) and the filter
  of the events of dependent objects (pkg/helm-operator-plugins/predicate). The cluster's
  read, the conversion to an APIService and kstatus's \<open>Compute\<close> are parameters.
\<close>

section \<open>The health of objects\<close>

record APIServiceCondition =
  ac_Type :: string
  ac_Status :: ConditionStatus
  ac_Message :: string

record APIService =
  as_Object :: kobject
  as_Conditions :: "APIServiceCondition list"

record kstatus =
  ks_Status :: string
  ks_Message :: string

text \<open>
  \<open>hl_Get\<close> reads an object by kind, namespace and name. \<open>hl_FromUnstructured\<close> fills an
  APIService, also when it ends with an error. \<open>hl_Compute\<close> gives a result that may be nil, and an error.
\<close>

record health_libs =
  hl_Get :: "GroupVersionKind \<Rightarrow> string \<Rightarrow> string \<Rightarrow> kobject result"
  hl_FromUnstructured :: "kobject \<Rightarrow> APIService \<times> gerror option"
  hl_Compute :: "kobject \<Rightarrow> kstatus option \<times> gerror option"

definition CurrentStatus :: string where "CurrentStatus = ''Current''"
definition Available :: string where "Available = ''Available''"

definition APIService_GVK :: GroupVersionKind where
  "APIService_GVK = \<lparr>gvk_Group = ''apiregistration.k8s.io'', gvk_Version = ''v1'', gvk_Kind = ''APIService''\<rparr>"

definition toErrKey :: "kobject \<Rightarrow> string" where
  "toErrKey resource =
     (if om_Namespace (ko_Meta resource) \<noteq> []
      then ''('' @ gvk_String (ko_GVK resource) @ '')('' @ om_Namespace (ko_Meta resource) @ ''/'' @ om_Name (ko_Meta resource) @ '')''
      else ''('' @ gvk_String (ko_GVK resource) @ '')('' @ om_Name (ko_Meta resource) @ '')'')"

definition appendResourceError :: "gerror list \<Rightarrow> kobject \<Rightarrow> string \<Rightarrow> gerror list" where
  "appendResourceError gvkErrors resource message = gvkErrors @ [Msg (toErrKey resource @ '': '' @ message)]"

definition check_api_service :: "health_libs \<Rightarrow> gerror list \<Rightarrow> kobject \<Rightarrow> gerror list" where
  "check_api_service L gvkErrors u =
     (case hl_FromUnstructured L u of
        (obj, Some err) \<Rightarrow> appendResourceError gvkErrors (as_Object obj) (Error err)
      | (obj, None) \<Rightarrow>
          (case List.find (\<lambda>c. ac_Type c = Available) (as_Conditions obj) of
             None \<Rightarrow> appendResourceError gvkErrors (as_Object obj) ''Available condition not found''
           | Some isAvailable \<Rightarrow>
               if ac_Status isAvailable = ConditionFalse then appendResourceError gvkErrors (as_Object obj) (ac_Message isAvailable)
               else gvkErrors))"

text \<open>After an error of \<open>Compute\<close> the code goes on and reads the result it got.\<close>

definition check_status :: "health_libs \<Rightarrow> gerror list \<Rightarrow> kobject \<Rightarrow> kobject \<Rightarrow> gerror list outcome" where
  "check_status L gvkErrors object u =
     (case hl_Compute L u of
        (result, err) \<Rightarrow>
          (let gvkErrors = (case err of None \<Rightarrow> gvkErrors | Some e \<Rightarrow> appendResourceError gvkErrors object (Error e)) in
           (case result of
              None \<Rightarrow> Panic ''nil pointer dereference''
            | Some r \<Rightarrow>
                Ok (if ks_Status r \<noteq> CurrentStatus
                    then appendResourceError gvkErrors object (''object '' @ ks_Status r @ '': '' @ ks_Message r)
                    else gvkErrors))))"

definition check_object :: "health_libs \<Rightarrow> gerror list \<Rightarrow> kobject \<Rightarrow> gerror list outcome" where
  "check_object L gvkErrors object =
     (case hl_Get L (ko_GVK object) (om_Namespace (ko_Meta object)) (om_Name (ko_Meta object)) of
        Inl err \<Rightarrow> Ok (appendResourceError gvkErrors object (Error err))
      | Inr u \<Rightarrow>
          if ko_GVK object = APIService_GVK then Ok (check_api_service L gvkErrors u)
          else check_status L gvkErrors object u)"

fun health_loop :: "health_libs \<Rightarrow> gerror list \<Rightarrow> kobject list \<Rightarrow> gerror list outcome" where
  "health_loop L gvkErrors [] = Ok gvkErrors"
| "health_loop L gvkErrors (object # objects) =
     obind (check_object L gvkErrors object) (\<lambda>gvkErrors. health_loop L gvkErrors objects)"

definition AreObjectsHealthy :: "health_libs \<Rightarrow> kobject list \<Rightarrow> unit outcome" where
  "AreObjectsHealthy L objects =
     obind (health_loop L [] objects) (\<lambda>gvkErrors.
       (case errors_Join gvkErrors of None \<Rightarrow> Ok () | Some err \<Rightarrow> Err err))"

section \<open>The filter of dependent events\<close>

text \<open>
  An unstructured object as the filter sees it: the fields beside \<open>metadata\<close>, and the fields of
  \<open>metadata\<close>, if it has any. \<open>SetResourceVersion("")\<close> removes the nested field.
\<close>

record raw_object =
  ro_Fields :: "string \<rightharpoonup> json"
  ro_Metadata :: "(string \<rightharpoonup> json) option"

datatype dependent_event = CreateEvent raw_object | DeleteEvent raw_object | GenericEvent raw_object | UpdateEvent raw_object raw_object

definition strip :: "raw_object \<Rightarrow> raw_object" where
  "strip obj = obj\<lparr>ro_Fields := (ro_Fields obj)(''status'' := None), ro_Metadata := map_option (\<lambda>m. m(''resourceVersion'' := None)) (ro_Metadata obj)\<rparr>"

fun DependentPredicateFuncs :: "dependent_event \<Rightarrow> bool" where
  "DependentPredicateFuncs (CreateEvent o') = False"
| "DependentPredicateFuncs (DeleteEvent o') = True"
| "DependentPredicateFuncs (GenericEvent o') = False"
| "DependentPredicateFuncs (UpdateEvent old new) = (if strip old = strip new then False else True)"

section \<open>What a health check means\<close>

text \<open>The health of one object, without reference to the code's error list.\<close>

definition object_healthy :: "health_libs \<Rightarrow> kobject \<Rightarrow> bool" where
  "object_healthy L object \<longleftrightarrow>
     (\<exists>u. hl_Get L (ko_GVK object) (om_Namespace (ko_Meta object)) (om_Name (ko_Meta object)) = Inr u \<and>
        (if ko_GVK object = APIService_GVK
         then \<exists>obj c. hl_FromUnstructured L u = (obj, None) \<and> List.find (\<lambda>c. ac_Type c = Available) (as_Conditions obj) = Some c
                \<and> ac_Status c \<noteq> ConditionFalse
         else \<exists>r. hl_Compute L u = (Some r, None) \<and> ks_Status r = CurrentStatus))"

text \<open>The object that an error about an object names: the object itself, or the APIService read from the cluster.\<close>

definition reported_object :: "health_libs \<Rightarrow> kobject \<Rightarrow> kobject" where
  "reported_object L object =
     (case hl_Get L (ko_GVK object) (om_Namespace (ko_Meta object)) (om_Name (ko_Meta object)) of
        Inl err \<Rightarrow> object
      | Inr u \<Rightarrow> if ko_GVK object = APIService_GVK then as_Object (fst (hl_FromUnstructured L u)) else object)"

definition names_object :: "kobject \<Rightarrow> gerror \<Rightarrow> bool" where
  "names_object obj e \<longleftrightarrow>
     prefix (''('' @ gvk_Group (ko_GVK obj) @ ''/'' @ gvk_Version (ko_GVK obj) @ '', Kind='' @ gvk_Kind (ko_GVK obj) @ '')('' @
       (if om_Namespace (ko_Meta obj) = [] then [] else om_Namespace (ko_Meta obj) @ ''/'') @ om_Name (ko_Meta obj) @ ''): '') (Error e)"

text \<open>The status library has no result for the object in the cluster.\<close>

definition nil_status :: "health_libs \<Rightarrow> kobject \<Rightarrow> bool" where
  "nil_status L object \<longleftrightarrow>
     ko_GVK object \<noteq> APIService_GVK \<and>
     (\<exists>u. hl_Get L (ko_GVK object) (om_Namespace (ko_Meta object)) (om_Name (ko_Meta object)) = Inr u \<and> fst (hl_Compute L u) = None)"

lemma message_names [simp]: "names_object obj (Msg (toErrKey obj @ '': '' @ message))"
  by (simp add: names_object_def toErrKey_def gvk_String_def)

lemma check_object_extends:
  assumes "check_object L es object = Ok es'"
  shows "\<exists>new. es' = es @ new \<and> (new = [] \<longleftrightarrow> object_healthy L object) \<and> (\<forall>e\<in>set new. names_object (reported_object L object) e)"
  using assms
  by (auto simp: check_object_def check_api_service_def check_status_def object_healthy_def reported_object_def
      appendResourceError_def message_names [simplified] Let_def simp del: append.append_Cons split: sum.splits if_splits prod.splits option.splits)

lemma check_object_nil: "nil_status L object \<Longrightarrow> check_object L es object = Panic ''nil pointer dereference''"
  by (auto simp: nil_status_def check_object_def check_status_def Let_def split: prod.splits)

lemma check_object_ends: "\<not> nil_status L object \<Longrightarrow> \<exists>es'. check_object L es object = Ok es'"
  by (auto simp: nil_status_def check_object_def check_status_def Let_def split: sum.splits prod.splits option.splits)

lemma health_loop_extends:
  assumes "health_loop L es objects = Ok es'"
  shows "\<exists>new. es' = es @ new \<and> (new = [] \<longleftrightarrow> (\<forall>object\<in>set objects. object_healthy L object)) \<and>
           (\<forall>object\<in>set objects. \<not> object_healthy L object \<longrightarrow> (\<exists>e\<in>set new. names_object (reported_object L object) e)) \<and>
           (\<forall>e\<in>set new. \<exists>object\<in>set objects. \<not> object_healthy L object \<and> names_object (reported_object L object) e)"
  using assms
proof (induction objects arbitrary: es)
  case (Cons object objects)
  then obtain es1 where c: "check_object L es object = Ok es1" and r: "health_loop L es1 objects = Ok es'"
    by auto
  obtain n1 where n1: "es1 = es @ n1" "n1 = [] \<longleftrightarrow> object_healthy L object" "\<forall>e\<in>set n1. names_object (reported_object L object) e"
    using check_object_extends [OF c] by blast
  obtain n2 where n2: "es' = es1 @ n2" "n2 = [] \<longleftrightarrow> (\<forall>object\<in>set objects. object_healthy L object)"
    "\<forall>object\<in>set objects. \<not> object_healthy L object \<longrightarrow> (\<exists>e\<in>set n2. names_object (reported_object L object) e)"
    "\<forall>e\<in>set n2. \<exists>object\<in>set objects. \<not> object_healthy L object \<and> names_object (reported_object L object) e"
    using Cons.IH [OF r] by blast
  have "\<exists>e\<in>set n1. names_object (reported_object L object) e" if "\<not> object_healthy L object"
    using that n1 by (cases n1) auto
  then show ?case
    using n1 n2 by (intro exI [of _ "n1 @ n2"]) auto
qed simp

lemma health_loop_nil: "\<exists>object\<in>set objects. nil_status L object \<Longrightarrow> health_loop L es objects = Panic ''nil pointer dereference''"
proof (induction objects arbitrary: es)
  case (Cons object objects)
  show ?case
  proof (cases "nil_status L object")
    case False
    with Cons show ?thesis using check_object_ends [OF False, of es] by auto
  qed (simp add: check_object_nil)
qed simp

lemma health_loop_ends: "\<forall>object\<in>set objects. \<not> nil_status L object \<Longrightarrow> \<exists>es'. health_loop L es objects = Ok es'"
proof (induction objects arbitrary: es)
  case (Cons object objects)
  then show ?case using check_object_ends [of L object es] by fastforce
qed simp

lemma AreObjectsHealthy_Ok:
  "AreObjectsHealthy L objects = Ok () \<longleftrightarrow> health_loop L [] objects = Ok []"
  by (cases "health_loop L [] objects") (auto simp: AreObjectsHealthy_def errors_Join_def)

text \<open>C32. The outcome of a health check. When some object, not an APIService, is in the cluster and the status library has no result for it, the check panics. Otherwise it ends: without error
  when every object is in the cluster and healthy, and else with one joined error that holds, for every unhealthy object and for no other, a message that starts with the group,
  version and kind, the namespace, if there is one, and the name of the object, or, for an APIService that was read, of the APIService it was converted to.\<close>

theorem health_check_complete:
  "if \<exists>object\<in>set objects. nil_status L object then AreObjectsHealthy L objects = Panic ''nil pointer dereference''
   else if \<forall>object\<in>set objects. object_healthy L object then AreObjectsHealthy L objects = Ok ()
   else \<exists>es. AreObjectsHealthy L objects = Err (JoinErr es) \<and>
     (\<forall>object\<in>set objects. \<not> object_healthy L object \<longrightarrow> (\<exists>e\<in>set es. names_object (reported_object L object) e)) \<and>
     (\<forall>e\<in>set es. \<exists>object\<in>set objects. \<not> object_healthy L object \<and> names_object (reported_object L object) e)"
proof (cases "\<exists>object\<in>set objects. nil_status L object")
  case True
  then show ?thesis using health_loop_nil [OF True] by (simp add: AreObjectsHealthy_def)
next
  case False
  then obtain es where es: "health_loop L [] objects = Ok es"
    using health_loop_ends by blast
  then show ?thesis
    using False health_loop_extends [OF es] by (auto simp: AreObjectsHealthy_def errors_Join_def)
qed

definition demo_object :: "string \<Rightarrow> kobject" where
  "demo_object n = \<lparr>ko_GVK = \<lparr>gvk_Group = [], gvk_Version = ''v1'', gvk_Kind = ''Pod''\<rparr>, ko_Meta = empty_meta ''ns'' n, ko_Status = None, ko_Body = JNull\<rparr>"

definition demo_health_libs :: health_libs where
  "demo_health_libs = \<lparr>hl_Get = (\<lambda>_ ns n. if n = ''gone'' then Inl (ApiNotFound ''not found'') else Inr (demo_object n)),
     hl_FromUnstructured = (\<lambda>u. (\<lparr>as_Object = u, as_Conditions = []\<rparr>, None)),
     hl_Compute = (\<lambda>u. (Some \<lparr>ks_Status = CurrentStatus, ks_Message = []\<rparr>, None))\<rparr>"

theorem health_check_complete_witness:
  "AreObjectsHealthy demo_health_libs [demo_object ''a''] = Ok () \<and>
   (\<exists>es. AreObjectsHealthy demo_health_libs [demo_object ''a'', demo_object ''gone''] = Err (JoinErr es) \<and>
      (\<exists>e\<in>set es. prefix ''(/v1, Kind=Pod)(ns/gone): '' (Error e)))"
proof -
  have total: "\<not> nil_status demo_health_libs object" for object
    by (simp add: demo_health_libs_def nil_status_def)
  have named: "names_object (reported_object demo_health_libs (demo_object ''gone'')) e \<longleftrightarrow> prefix ''(/v1, Kind=Pod)(ns/gone): '' (Error e)" for e
    by (simp add: names_object_def reported_object_def demo_health_libs_def demo_object_def empty_meta_def)
  have "object_healthy demo_health_libs (demo_object n) \<longleftrightarrow> n \<noteq> ''gone''" for n
    by (simp add: object_healthy_def demo_health_libs_def demo_object_def empty_meta_def APIService_GVK_def)
  then show ?thesis
    using health_check_complete [of "[demo_object ''a'']" demo_health_libs]
      health_check_complete [of "[demo_object ''a'', demo_object ''gone'']" demo_health_libs]
    by (auto simp: total named)
qed

text \<open>When the status library gives an error and, as it does, no result, the loop dereferences nil.\<close>

lemma compute_error_panics:
  assumes "hl_Get L (ko_GVK object) (om_Namespace (ko_Meta object)) (om_Name (ko_Meta object)) = Inr u"
    and "ko_GVK object \<noteq> APIService_GVK" and "hl_Compute L u = (None, Some err)"
  shows "AreObjectsHealthy L (object # objects) = Panic ''nil pointer dereference''"
  using assms by (simp add: AreObjectsHealthy_def check_object_def check_status_def Let_def)

text \<open>An APIService whose availability is unknown counts as healthy.\<close>

lemma unknown_api_service_healthy:
  assumes "ko_GVK object = APIService_GVK"
    and "hl_Get L (ko_GVK object) (om_Namespace (ko_Meta object)) (om_Name (ko_Meta object)) = Inr u"
    and "hl_FromUnstructured L u = (obj, None)" and "as_Conditions obj = c # cs" and "ac_Type c = Available" and "ac_Status c = ConditionUnknown"
  shows "AreObjectsHealthy L [object] = Ok ()"
  using assms by (simp add: AreObjectsHealthy_def check_object_def check_api_service_def errors_Join_def)

text \<open>An update of a dependent object leads to a reconciliation exactly when a field other than \<open>status\<close> and
  \<open>metadata.resourceVersion\<close> differs (or one of the two objects has no metadata), a deletion always does, a creation and a generic event never do.\<close>

theorem dependent_event_reconciles_iff:
  "DependentPredicateFuncs ev \<longleftrightarrow>
     (case ev of
        CreateEvent _ \<Rightarrow> False | GenericEvent _ \<Rightarrow> False | DeleteEvent _ \<Rightarrow> True
      | UpdateEvent old new \<Rightarrow>
          (\<exists>f. f \<noteq> ''status'' \<and> ro_Fields old f \<noteq> ro_Fields new f) \<or>
          (case (ro_Metadata old, ro_Metadata new) of
             (None, None) \<Rightarrow> False
           | (Some m, Some m') \<Rightarrow> \<exists>f. f \<noteq> ''resourceVersion'' \<and> m f \<noteq> m' f
           | _ \<Rightarrow> True))"
proof -
  have upd: "m(k := None) = m'(k := None) \<longleftrightarrow> (\<forall>f. f \<noteq> k \<longrightarrow> m f = m' f)" for m m' :: "string \<rightharpoonup> json" and k
    by (auto simp: fun_eq_iff)
  show ?thesis
  proof (cases ev)
    case (UpdateEvent old new)
    obtain f1 m1 where old: "old = \<lparr>ro_Fields = f1, ro_Metadata = m1\<rparr>" by (cases old)
    obtain f2 m2 where new: "new = \<lparr>ro_Fields = f2, ro_Metadata = m2\<rparr>" by (cases new)
    show ?thesis
      unfolding UpdateEvent old new by (auto simp: strip_def upd split: option.splits)
  qed simp_all
qed

end
