(* ===== verification/Util.thy ===== *)
theory Util
  imports API_Types
begin

text \<open>
  The helpers of pkg/util: names, hashes and label maps (util.go, hash.go, labels.go,
  defaults.go), the event handlers that map a changed object to the bundle deployments to
  reconcile, \<open>CreateOrRecreate\<close>, and the reading of manifests and certificates. Code of
  Kubernetes libraries the helpers call is a parameter of the definition that calls it.
\<close>

section \<open>Constants\<close>

definition CoreOwnerKindKey :: string where "CoreOwnerKindKey = ''core.rukpak.io/owner-kind''"
definition CoreOwnerNameKey :: string where "CoreOwnerNameKey = ''core.rukpak.io/owner-name''"
definition DefaultSystemNamespace :: string where "DefaultSystemNamespace = ''rukpak-system''"
definition DefaultUnpackImage :: string where "DefaultUnpackImage = ''quay.io/operator-framework/rukpak:main''"

definition maxBundleNameLength :: int where "maxBundleNameLength = 52"
definition maxBundleDeploymentNameLength :: int where "maxBundleDeploymentNameLength = 45"

lemma owner_keys_distinct [simp]: "CoreOwnerKindKey \<noteq> CoreOwnerNameKey" "CoreOwnerNameKey \<noteq> CoreOwnerKindKey"
  by (simp_all add: CoreOwnerKindKey_def CoreOwnerNameKey_def)

section \<open>Names and hashes\<close>

definition GenerateBundleName :: "string \<Rightarrow> string \<Rightarrow> string outcome" where
  "GenerateBundleName bdName hash =
     obind (if int (length bdName) > maxBundleDeploymentNameLength
            then slice_to bdName maxBundleDeploymentNameLength else Ok bdName)
       (\<lambda>bdName.
          obind (if int (length hash) > maxBundleNameLength - int (length bdName) - 1
                 then slice_to hash (maxBundleNameLength - int (length bdName) - 1) else Ok hash)
            (\<lambda>hash. Ok (bdName @ ''-'' @ hash)))"

text \<open>\<open>big.Int.SetBytes\<close> reads the digest as a big-endian number; \<open>Text(36)\<close> prints it.\<close>

definition bytes_number :: "nat list \<Rightarrow> nat" where
  "bytes_number bs = foldl (\<lambda>n b. n * 256 + b) 0 bs"

definition DeepHashObject :: "('a \<Rightarrow> string result) \<Rightarrow> (string \<Rightarrow> nat list) \<Rightarrow> 'a \<Rightarrow> string outcome" where
  "DeepHashObject Encode sha224 obj =
     (case Encode obj of
        Inl err \<Rightarrow> Err (Wrap (''couldn't encode object: '' @ Error err) err)
      | Inr bytes \<Rightarrow> Ok (digits_in 36 (bytes_number (sha224 bytes))))"

text \<open>What the code relies on of SHA-224: 28 bytes.\<close>

definition digest_law :: "(string \<Rightarrow> nat list) \<Rightarrow> bool" where
  "digest_law sha224 \<longleftrightarrow> (\<forall>s. length (sha224 s) = 28 \<and> list_all (\<lambda>b. b < 256) (sha224 s))"

section \<open>Label maps\<close>

definition MergeMaps :: "(string \<rightharpoonup> string) list \<Rightarrow> (string \<rightharpoonup> string)" where
  "MergeMaps maps = foldl (++) Map.empty maps"

text \<open>
  \<open>labels.NewRequirement\<close> with the operator \<open>Equals\<close> (it refuses invalid keys and values); a
  requirement is the test it makes on a label map, a selector the conjunction of its
  requirements. A nil selector is None.
\<close>

type_synonym requirement = "(string \<rightharpoonup> string) \<Rightarrow> bool"
type_synonym new_requirement = "string \<Rightarrow> string \<Rightarrow> requirement result"

definition newLabelSelector :: "new_requirement \<Rightarrow> string \<Rightarrow> string \<Rightarrow> requirement list option" where
  "newLabelSelector NewRequirement name kind =
     (case NewRequirement CoreOwnerKindKey kind of
        Inl err \<Rightarrow> None
      | Inr kindRequirement \<Rightarrow>
          (case NewRequirement CoreOwnerNameKey name of
             Inl err \<Rightarrow> None
           | Inr nameRequirement \<Rightarrow> Some [kindRequirement, nameRequirement]))"

definition NewBundleDeploymentLabelSelector :: "new_requirement \<Rightarrow> BundleDeployment \<Rightarrow> requirement list option" where
  "NewBundleDeploymentLabelSelector NewRequirement bd = newLabelSelector NewRequirement (bd_Name bd) BundleDeploymentKind"

definition requirement_law :: "new_requirement \<Rightarrow> bool" where
  "requirement_law NewRequirement \<longleftrightarrow>
     (\<forall>k v r labels. NewRequirement k v = Inr r \<longrightarrow> r labels = (labels k = Some v))"

section \<open>Event filters and handlers\<close>

record NamespacedName =
  nn_Namespace :: string
  nn_Name :: string

definition BundleDeploymentProvisionerFilter :: "string \<Rightarrow> BundleDeployment \<Rightarrow> bool" where
  "BundleDeploymentProvisionerFilter provisionerClassName b =
     (spec_ProvisionerClassName (bd_Spec b) = provisionerClassName)"

text \<open>
  The loop over the owner references: the first controller reference of the owner's kind,
  unless a reference before it does not parse (\<open>Inl\<close>). \<open>ParseGroupVersion\<close> gives group
  and version.
\<close>

type_synonym parse_gv = "string \<Rightarrow> (string \<times> string) result"

fun find_owner_ref :: "parse_gv \<Rightarrow> GroupVersionKind \<Rightarrow> OwnerReference list \<Rightarrow> NamespacedName option result" where
  "find_owner_ref ParseGroupVersion ownerGVK [] = Inr None"
| "find_owner_ref ParseGroupVersion ownerGVK (ref # refs) =
     (case ParseGroupVersion (or_APIVersion ref) of
        Inl err \<Rightarrow> Inl err
      | Inr (grp, version) \<Rightarrow>
          (if \<lparr>gvk_Group = grp, gvk_Version = version, gvk_Kind = or_Kind ref\<rparr> = ownerGVK
              \<and> or_Controller ref = Some True
           then Inr (Some \<lparr>nn_Namespace = [], nn_Name = or_Name ref\<rparr>)
           else find_owner_ref ParseGroupVersion ownerGVK refs))"

text \<open>
  The handler decodes into the one \<open>owner\<close> object it was given: \<open>Get\<close> takes the object as
  it is and gives its error, if any, and the object afterwards. The handler's result is
  the requests and the object it leaves for the next event.
\<close>

type_synonym bd_decoder = "NamespacedName \<Rightarrow> BundleDeployment \<Rightarrow> gerror option \<times> BundleDeployment"

definition MapOwneeToOwnerProvisionerHandler ::
  "parse_gv \<Rightarrow> GroupVersionKind result \<Rightarrow> (kobject \<Rightarrow> GroupVersionKind result) \<Rightarrow> bd_decoder \<Rightarrow> string
   \<Rightarrow> BundleDeployment \<Rightarrow> kobject \<Rightarrow> NamespacedName list \<times> BundleDeployment" where
  "MapOwneeToOwnerProvisionerHandler ParseGroupVersion ownerGVK GVKForObject Get provisionerClassName owner obj =
     (case ownerGVK of
        Inl err \<Rightarrow> ([], owner)
      | Inr ogvk \<Rightarrow>
          (case GVKForObject obj of
             Inl err \<Rightarrow> ([], owner)
           | Inr owneeGVK \<Rightarrow>
               (case find_owner_ref ParseGroupVersion ogvk (om_OwnerReferences (ko_Meta obj)) of
                  Inl err \<Rightarrow> ([], owner)
                | Inr None \<Rightarrow> ([], owner)
                | Inr (Some key) \<Rightarrow>
                    (case Get key owner of
                       (err, owner') \<Rightarrow>
                         (if (\<exists>e. err = Some e \<and> \<not> IsNotFound e) then ([], owner')
                          else if ProvisionerClassName owner' \<noteq> provisionerClassName then ([], owner')
                          else ([key], owner'))))))"

definition MapConfigMapToBundleDeployment :: "BundleDeployment list result \<Rightarrow> string \<Rightarrow> ConfigMap \<Rightarrow> BundleDeployment list" where
  "MapConfigMapToBundleDeployment List cmNamespace cm =
     (case List of
        Inl err \<Rightarrow> []
      | Inr items \<Rightarrow>
          concat (map (\<lambda>b. concat (map (\<lambda>cmSource.
             if cm_Name cm = cms_ConfigMap cmSource \<and> cm_Namespace cm = cmNamespace then [b] else [])
             (config_map_refs (bd_Source b)))) items))"

definition MapConfigMapToBundleDeploymentHandler ::
  "BundleDeployment list result \<Rightarrow> string \<Rightarrow> string \<Rightarrow> ConfigMap \<Rightarrow> NamespacedName list" where
  "MapConfigMapToBundleDeploymentHandler List configMapNamespace provisionerClassName cm =
     map (\<lambda>b. \<lparr>nn_Namespace = om_Namespace (bd_Meta b), nn_Name = bd_Name b\<rparr>)
       (filter (\<lambda>b. spec_ProvisionerClassName (bd_Spec b) = provisionerClassName)
         (MapConfigMapToBundleDeployment List configMapNamespace cm))"

section \<open>Reading files\<close>

definition PodNamespace :: "(string \<Rightarrow> string result) \<Rightarrow> string" where
  "PodNamespace ReadFile =
     (case ReadFile ''/var/run/secrets/kubernetes.io/serviceaccount/namespace'' of
        Inl err \<Rightarrow> DefaultSystemNamespace
      | Inr namespace \<Rightarrow> namespace)"

text \<open>
  The certificates of a PEM file. \<open>pem_Decode\<close> gives the next block (its type and bytes) and
  the rest; each call consumes input, so the length of the data bounds the loop.
\<close>

fun cert_loop :: "(string \<Rightarrow> ((string \<times> string) \<times> string) option) \<Rightarrow> (string \<Rightarrow> 'c result) \<Rightarrow> nat \<Rightarrow> string \<Rightarrow> 'c list
   \<Rightarrow> 'c list outcome" where
  "cert_loop pem_Decode ParseCertificate 0 data pool = Diverge"
| "cert_loop pem_Decode ParseCertificate (Suc n) data pool =
     (case pem_Decode data of
        None \<Rightarrow> Ok pool
      | Some ((typ, bytes), rest) \<Rightarrow>
          (if typ \<noteq> ''CERTIFICATE'' then cert_loop pem_Decode ParseCertificate n rest pool
           else
             (case ParseCertificate bytes of
                Inl err \<Rightarrow> Err err
              | Inr cert \<Rightarrow> cert_loop pem_Decode ParseCertificate n rest (pool @ [cert]))))"

definition LoadCertPool ::
  "(string \<Rightarrow> ((string \<times> string) \<times> string) option) \<Rightarrow> (string \<Rightarrow> 'c result) \<Rightarrow> (string \<Rightarrow> string result) \<Rightarrow> string
   \<Rightarrow> 'c list outcome" where
  "LoadCertPool pem_Decode ParseCertificate ReadFile certFile =
     (case ReadFile certFile of
        Inl err \<Rightarrow> Err err
      | Inr rootCAPEM \<Rightarrow> cert_loop pem_Decode ParseCertificate (Suc (length rootCAPEM)) rootCAPEM [])"

definition pem_law :: "(string \<Rightarrow> ((string \<times> string) \<times> string) option) \<Rightarrow> bool" where
  "pem_law pem_Decode \<longleftrightarrow> (\<forall>data b rest. pem_Decode data = Some (b, rest) \<longrightarrow> length rest < length data)"

text \<open>
  \<open>ManifestObjects\<close>: the resource builder gives the objects of a stream; \<open>infosToObjects\<close> asserts
  that each is a \<open>client.Object\<close> (None: a runtime object that is not one, where the
  assertion panics).
\<close>

definition infosToObjects :: "kobject option list \<Rightarrow> kobject list outcome" where
  "infosToObjects infos =
     omap (\<lambda>info. case info of Some obj \<Rightarrow> Ok obj | None \<Rightarrow> Panic ''interface conversion'') infos"

type_synonym manifest_builder = "string \<Rightarrow> string \<Rightarrow> (gerror option \<times> kobject option list result)"

definition ManifestObjects :: "manifest_builder \<Rightarrow> string \<Rightarrow> string \<Rightarrow> kobject list outcome" where
  "ManifestObjects builder r name =
     (case builder r name of
        (Some err, _) \<Rightarrow> Err err
      | (None, Inl err) \<Rightarrow> Err err
      | (None, Inr infos) \<Rightarrow> infosToObjects infos)"

section \<open>Creating or recreating an object\<close>

text \<open>
  The client the helper is given, over a world of type \<open>'w\<close>. \<open>Get\<close> decodes into the object
  it is passed; \<open>Create\<close> gives the object as the server returned it.
\<close>

record 'w client =
  cl_Get :: "NamespacedName \<Rightarrow> kobject \<Rightarrow> 'w \<Rightarrow> (gerror option \<times> kobject) \<times> 'w"
  cl_Create :: "kobject \<Rightarrow> 'w \<Rightarrow> kobject result \<times> 'w"
  cl_Delete :: "kobject \<Rightarrow> 'w \<Rightarrow> gerror option \<times> 'w"

datatype OperationResult = OperationResultNone | OperationResultCreated | OperationResultUpdated

definition ObjectKeyFromObject :: "kobject \<Rightarrow> NamespacedName" where
  "ObjectKeyFromObject obj = \<lparr>nn_Namespace = om_Namespace (ko_Meta obj), nn_Name = om_Name (ko_Meta obj)\<rparr>"

definition mutate :: "(kobject \<Rightarrow> kobject result) \<Rightarrow> NamespacedName \<Rightarrow> kobject \<Rightarrow> kobject result" where
  "mutate f key obj =
     (case f obj of
        Inl err \<Rightarrow> Inl err
      | Inr obj' \<Rightarrow>
          (if key \<noteq> ObjectKeyFromObject obj'
           then Inl (Msg ''MutateFn cannot mutate object name and/or object namespace'')
           else Inr obj'))"

text \<open>The condition that is polled: done when the deletion finds no object any more.\<close>

definition delete_gone :: "'w client \<Rightarrow> kobject \<Rightarrow> 'w \<Rightarrow> bool result \<times> 'w" where
  "delete_gone cl obj w =
     (case cl_Delete cl obj w of
        (Some err, w') \<Rightarrow> (if IsNotFound err then (Inr True, w') else (Inl err, w'))
      | (None, w') \<Rightarrow> (Inr False, w'))"

definition reset_identity :: "kobject \<Rightarrow> kobject" where
  "reset_identity obj = obj\<lparr>ko_Meta := (ko_Meta obj)\<lparr>om_UID := [], om_ResourceVersion := [], om_Generation := 0\<rparr>\<rparr>"

type_synonym 'w poller = "('w \<Rightarrow> bool result \<times> 'w) \<Rightarrow> 'w \<Rightarrow> gerror option \<times> 'w"

definition CreateOrRecreate ::
  "'w client \<Rightarrow> 'w poller \<Rightarrow> (kobject \<Rightarrow> kobject \<Rightarrow> bool) \<Rightarrow> kobject \<Rightarrow> (kobject \<Rightarrow> kobject result)
   \<Rightarrow> ('w, OperationResult \<times> kobject) M" where
  "CreateOrRecreate cl poll DeepEqual obj f w =
     (let key = ObjectKeyFromObject obj in
      case cl_Get cl key obj w of
        ((Some err, obj1), w1) \<Rightarrow>
          (if \<not> IsNotFound err then (Err err, w1)
           else
             (case mutate f key obj1 of
                Inl e \<Rightarrow> (Err e, w1)
              | Inr obj2 \<Rightarrow>
                  (case cl_Create cl obj2 w1 of
                     (Inl e, w2) \<Rightarrow> (Err e, w2)
                   | (Inr obj3, w2) \<Rightarrow> (Ok (OperationResultCreated, obj3), w2))))
      | ((None, existing), w1) \<Rightarrow>
          (case mutate f key existing of
             Inl e \<Rightarrow> (Err e, w1)
           | Inr obj2 \<Rightarrow>
               (if DeepEqual existing obj2 then (Ok (OperationResultNone, obj2), w1)
                else
                  (case poll (delete_gone cl obj2) w1 of
                     (Some e, w2) \<Rightarrow> (Err e, w2)
                   | (None, w2) \<Rightarrow>
                       (case cl_Create cl (reset_identity obj2) w2 of
                          (Inl e, w3) \<Rightarrow> (Err e, w3)
                        | (Inr obj3, w3) \<Rightarrow> (Ok (OperationResultUpdated, obj3), w3))))))"

text \<open>
  What the helper relies on. \<open>wait.PollUntilContextCancel\<close> ends without an error only after
  a run of the condition that ended in true. The client, over what is stored: \<open>Get\<close> reads,
  \<open>Create\<close> adds an object with the content it was given (the server sets the rest of the
  metadata), \<open>Delete\<close> answers \<open>NotFound\<close> when the object is gone and changes no other object.
\<close>

inductive poll_run :: "('w \<Rightarrow> bool result \<times> 'w) \<Rightarrow> 'w \<Rightarrow> 'w \<Rightarrow> bool" for cond where
  poll_done: "cond w = (Inr True, w') \<Longrightarrow> poll_run cond w w'"
| poll_more: "cond w = (Inr False, w1) \<Longrightarrow> poll_run cond w1 w' \<Longrightarrow> poll_run cond w w'"

definition poll_law :: "'w poller \<Rightarrow> bool" where
  "poll_law poll \<longleftrightarrow> (\<forall>cond w w'. poll cond w = (None, w') \<longrightarrow> poll_run cond w w')"

definition same_content :: "kobject \<Rightarrow> kobject \<Rightarrow> bool" where
  "same_content a b \<longleftrightarrow> ObjectKeyFromObject a = ObjectKeyFromObject b \<and> ko_GVK a = ko_GVK b \<and> ko_Body a = ko_Body b
     \<and> om_Labels (ko_Meta a) = om_Labels (ko_Meta b) \<and> om_Annotations (ko_Meta a) = om_Annotations (ko_Meta b)
     \<and> om_OwnerReferences (ko_Meta a) = om_OwnerReferences (ko_Meta b)"

type_synonym store = "NamespacedName \<rightharpoonup> kobject"

definition get_law :: "'w client \<Rightarrow> ('w \<Rightarrow> store) \<Rightarrow> bool" where
  "get_law cl stored \<longleftrightarrow>
     (\<forall>key obj w err o' w'. cl_Get cl key obj w = ((err, o'), w') \<longrightarrow>
        stored w' = stored w
        \<and> (case err of None \<Rightarrow> stored w key = Some o'
            | Some e \<Rightarrow> IsNotFound e \<longrightarrow> stored w key = None \<and> o' = obj))"

definition create_law :: "'w client \<Rightarrow> ('w \<Rightarrow> store) \<Rightarrow> bool" where
  "create_law cl stored \<longleftrightarrow>
     (\<forall>obj w o' w'. cl_Create cl obj w = (Inr o', w') \<longrightarrow>
        stored w (ObjectKeyFromObject obj) = None
        \<and> stored w' = (stored w)(ObjectKeyFromObject obj \<mapsto> o') \<and> same_content o' obj)"

definition delete_law :: "'w client \<Rightarrow> ('w \<Rightarrow> store) \<Rightarrow> bool" where
  "delete_law cl stored \<longleftrightarrow>
     (\<forall>obj w err w'. cl_Delete cl obj w = (err, w') \<longrightarrow>
        (\<forall>k. k \<noteq> ObjectKeyFromObject obj \<longrightarrow> stored w' k = stored w k)
        \<and> (\<forall>e. err = Some e \<and> IsNotFound e \<longrightarrow> stored w' = stored w \<and> stored w (ObjectKeyFromObject obj) = None))"

section \<open>Lemmas\<close>

lemma infosToObjects_Ok: "infosToObjects infos = Ok objs \<longleftrightarrow> infos = map Some objs"
proof -
  have "list_all2 (\<lambda>info obj. (case info of Some obj \<Rightarrow> Ok obj | None \<Rightarrow> Panic ''interface conversion'') = Ok obj) infos objs \<longleftrightarrow> infos = map Some objs"
    by (induction infos arbitrary: objs) (auto simp: list_all2_Cons1 Cons_eq_map_conv split: option.splits)
  then show ?thesis by (simp add: infosToObjects_def omap_Ok_iff)
qed

lemma ManifestObjects_Ok: "ManifestObjects builder r name = Ok objs \<longleftrightarrow> builder r name = (None, Inr (map Some objs))"
  by (auto simp: ManifestObjects_def infosToObjects_Ok split: prod.splits option.splits sum.splits)

lemma GenerateBundleName_eq:
  "GenerateBundleName bdName hash = Ok (take 45 bdName @ ''-'' @ take (51 - min 45 (length bdName)) hash)"
proof -
  have "take (51 - length bdName) hash = hash" if "length hash \<le> 51 - length bdName" using that by simp
  then show ?thesis
    by (auto simp: GenerateBundleName_def slice_to_def maxBundleNameLength_def maxBundleDeploymentNameLength_def
        min_def nat_diff_distrib)
qed

lemma MergeMaps_append: "MergeMaps (ms @ [m]) = MergeMaps ms ++ m"
  by (simp add: MergeMaps_def)

lemma mutate_key: "mutate f key obj = Inr obj' \<Longrightarrow> ObjectKeyFromObject obj' = key \<and> f obj = Inr obj'"
  by (auto simp: mutate_def split: sum.splits if_splits)

lemma reset_identity_content: "same_content o' (reset_identity obj) = same_content o' obj"
  "ObjectKeyFromObject (reset_identity obj) = ObjectKeyFromObject obj"
  by (simp_all add: same_content_def reset_identity_def ObjectKeyFromObject_def)

lemma poll_delete_gone:
  assumes "delete_law cl stored" and "poll_run (delete_gone cl obj) w w'"
  shows "stored w' = (stored w)(ObjectKeyFromObject obj := None)"
  using assms(2)
proof (induction rule: poll_run.induct)
  case (poll_done w w')
  then obtain e where "cl_Delete cl obj w = (Some e, w')" "IsNotFound e"
    by (auto simp: delete_gone_def split: prod.splits option.splits if_splits)
  with assms(1) have "stored w' = stored w" "stored w (ObjectKeyFromObject obj) = None"
    unfolding delete_law_def by blast+
  then show ?case by auto
next
  case (poll_more w w1 w')
  then have "cl_Delete cl obj w = (None, w1)"
    by (auto simp: delete_gone_def split: prod.splits option.splits if_splits)
  with assms(1) have "\<forall>k. k \<noteq> ObjectKeyFromObject obj \<longrightarrow> stored w1 k = stored w k"
    unfolding delete_law_def by blast
  with poll_more.IH show ?case by auto
qed

text \<open>Numbers and their digits in base 36.\<close>

lemma bytes_number_snoc: "bytes_number (bs @ [b]) = bytes_number bs * 256 + b"
  by (simp add: bytes_number_def)

lemma bytes_number_less: "list_all (\<lambda>b. b < 256) bs \<Longrightarrow> bytes_number bs < 256 ^ length bs"
proof (induction bs rule: rev_induct)
  case (snoc b bs)
  then have "bytes_number bs + 1 \<le> 256 ^ length bs" "b < 256" by auto
  then have "(bytes_number bs + 1) * 256 \<le> 256 ^ length bs * 256" by (intro mult_right_mono) auto
  with \<open>b < 256\<close> show ?case by (simp add: bytes_number_snoc)
qed (simp add: bytes_number_def)

lemma bytes_number_inject:
  "length xs = length ys \<Longrightarrow> list_all (\<lambda>b. b < 256) xs \<Longrightarrow> list_all (\<lambda>b. b < 256) ys
   \<Longrightarrow> bytes_number xs = bytes_number ys \<Longrightarrow> xs = ys"
proof (induction xs arbitrary: ys rule: rev_induct)
  case (snoc x xs)
  then obtain zs z where ys: "ys = zs @ [z]" by (cases ys rule: rev_cases) auto
  with snoc.prems have lt: "x < 256" "z < 256" by auto
  from snoc.prems(4) ys have eq: "bytes_number xs * 256 + x = bytes_number zs * 256 + z"
    by (simp add: bytes_number_snoc)
  have dm: "(m * 256 + r) div 256 = m \<and> (m * 256 + r) mod 256 = r" if "r < 256" for m r :: nat
    using that by simp
  from eq dm [OF lt(1), of "bytes_number xs"] dm [OF lt(2), of "bytes_number zs"]
  have "x = z" and "bytes_number xs = bytes_number zs" by metis+
  then show ?case using snoc.IH [of zs] snoc.prems ys by simp
qed simp

lemma digits_in_length: "2 \<le> b \<Longrightarrow> n < b ^ k \<Longrightarrow> 0 < k \<Longrightarrow> length (digits_in b n) \<le> k"
proof (induction b n arbitrary: k rule: digits_in.induct)
  case (1 b n)
  show ?case
  proof (cases "n < b")
    case True
    with 1 show ?thesis by (subst digits_in.simps) simp
  next
    case False
    with 1(3,4) have "k \<noteq> 0" "k \<noteq> 1" by auto
    then obtain j where k: "k = Suc j" "0 < j" by (cases k) auto
    with 1(2,3) have "n div b < b ^ j" by (simp add: less_mult_imp_div_less mult.commute)
    with 1(1) [of j] False 1(2) k show ?thesis by (subst digits_in.simps) simp
  qed
qed

definition base36_char :: "char \<Rightarrow> bool" where
  "base36_char c \<longleftrightarrow> c \<in> set ''0123456789abcdefghijklmnopqrstuvwxyz''"

lemma digit_char_base36: "d < 36 \<Longrightarrow> base36_char (digit_char d)"
proof -
  have "\<forall>d \<in> {..<36}. base36_char (digit_char d)" by code_simp
  then show "d < 36 \<Longrightarrow> base36_char (digit_char d)" by simp
qed

lemma of_digit_char: "d < 36 \<Longrightarrow> (of_char (digit_char d) :: nat) = (if d < 10 then 48 + d else 87 + d)"
  by (simp add: digit_char_def)

lemma digit_char_inject: "d < 36 \<Longrightarrow> e < 36 \<Longrightarrow> digit_char d = digit_char e \<Longrightarrow> d = e"
proof -
  assume "d < 36" "e < 36" "digit_char d = digit_char e"
  with of_digit_char [of d] of_digit_char [of e]
  have "(if d < 10 then 48 + d else 87 + d) = (if e < 10 then 48 + e else 87 + e)" by metis
  then show "d = e" by (auto split: if_splits)
qed

lemma digits_in_36_chars: "c \<in> set (digits_in 36 n) \<Longrightarrow> base36_char c"
proof (induction "36 :: nat" n rule: digits_in.induct)
  case (1 n)
  show ?case
  proof (cases "n < 36")
    case True
    with 1(2) digit_char_base36 show ?thesis by (subst (asm) digits_in.simps) simp
  next
    case False
    with 1(2) have "c \<in> set (digits_in 36 (n div 36)) \<or> c = digit_char (n mod 36)"
      by (subst (asm) digits_in.simps) auto
    with 1(1) False digit_char_base36 [of "n mod 36"] show ?thesis by auto
  qed
qed

lemma digits_in_36_inject: "digits_in 36 m = digits_in 36 n \<Longrightarrow> m = n"
proof (induction "36 :: nat" m arbitrary: n rule: digits_in.induct)
  case (1 m)
  have len: "length (digits_in 36 k) = 1 \<longleftrightarrow> k < 36" for k
    by (subst digits_in.simps) (use digits_in.simps [of 36 "k div 36"] in auto)
  show ?case
  proof (cases "m < 36")
    case True
    with 1(2) len [of m] len [of n] have "n < 36" by simp
    with True 1(2) show ?thesis
      by (subst (asm) (1 2) digits_in.simps) (simp add: digit_char_inject)
  next
    case False
    with 1(2) len [of m] len [of n] have n: "\<not> n < 36" by simp
    from 1(2) False n have "digits_in 36 (m div 36) = digits_in 36 (n div 36)" "digit_char (m mod 36) = digit_char (n mod 36)"
      by (subst (asm) (1 2) digits_in.simps, simp)+
    with 1(1) False digit_char_inject [of "m mod 36" "n mod 36"] have "m div 36 = n div 36" "m mod 36 = n mod 36" by auto
    then show ?thesis by (metis div_mult_mod_eq)
  qed
qed

lemma cert_loop_ends:
  assumes "pem_law pem_Decode"
  shows "length data < n \<Longrightarrow> cert_loop pem_Decode ParseCertificate n data pool \<noteq> Diverge"
proof (induction n arbitrary: data pool)
  case (Suc n)
  show ?case
  proof (cases "pem_Decode data")
    case (Some x)
    then obtain ty bytes rest where x: "pem_Decode data = Some ((ty, bytes), rest)" by (cases x) auto
    with assms have "length rest < length data" unfolding pem_law_def by blast
    with Suc.prems have "length rest < n" by simp
    with Suc.IH x show ?thesis by (auto split: sum.splits)
  qed simp
qed simp

lemma cert_loop_pool:
  "cert_loop pem_Decode ParseCertificate n data pool = Ok certs
   \<Longrightarrow> \<exists>new. certs = pool @ new \<and> (\<forall>c \<in> set new. \<exists>bytes. ParseCertificate bytes = Inr c)"
  by (induction n arbitrary: data pool) (fastforce split: option.splits sum.splits if_splits)+

section \<open>Properties\<close>

text \<open>\<open>CreateOrRecreate\<close>: it reports \<open>Created\<close> only when the object was absent, \<open>None\<close> only when the
  mutation changed nothing and nothing is written, \<open>Updated\<close> only when the object was there
  and the mutation changed it; in the two writing cases the mutated content is stored
  under the key, and no other object is touched.\<close>

theorem CreateOrRecreate_stores_mutation:
  assumes "poll_law poll" and "get_law cl stored" and "create_law cl stored" and "delete_law cl stored"
    and "CreateOrRecreate cl poll DeepEqual obj f w = (Ok (res, new), w')"
  shows "case stored w (ObjectKeyFromObject obj) of
           None \<Rightarrow> res = OperationResultCreated \<and> (\<exists>o2. f obj = Inr o2 \<and> same_content new o2)
                   \<and> stored w' = (stored w)(ObjectKeyFromObject obj \<mapsto> new)
         | Some old \<Rightarrow>
             (\<exists>o2. f old = Inr o2 \<and>
               (if DeepEqual old o2 then res = OperationResultNone \<and> stored w' = stored w
                else res = OperationResultUpdated \<and> same_content new o2
                     \<and> stored w' = (stored w)(ObjectKeyFromObject obj \<mapsto> new)))"
proof -
  let ?key = "ObjectKeyFromObject obj"
  obtain err o1 w1 where get: "cl_Get cl ?key obj w = ((err, o1), w1)" by (metis surj_pair)
  with assms(2) have st1: "stored w1 = stored w"
    and rd: "case err of None \<Rightarrow> stored w ?key = Some o1 | Some e \<Rightarrow> IsNotFound e \<longrightarrow> stored w ?key = None \<and> o1 = obj"
    unfolding get_law_def by blast+
  show ?thesis
  proof (cases err)
    case (Some e)
    with get assms(5) obtain o2 where nf: "IsNotFound e" and m: "mutate f ?key o1 = Inr o2"
      and c: "cl_Create cl o2 w1 = (Inr new, w')" and res: "res = OperationResultCreated"
      by (auto simp: CreateOrRecreate_def Let_def split: if_splits sum.splits prod.splits)
    from assms(3) c have "stored w' = (stored w1)(ObjectKeyFromObject o2 \<mapsto> new)" "same_content new o2"
      unfolding create_law_def by blast+
    with mutate_key [OF m] Some nf rd res st1 show ?thesis by auto
  next
    case None
    with get assms(5) obtain o2 where m: "mutate f ?key o1 = Inr o2"
      by (auto simp: CreateOrRecreate_def Let_def split: sum.splits)
    note k = mutate_key [OF m]
    show ?thesis
    proof (cases "DeepEqual o1 o2")
      case True
      with None get m assms(5) k rd st1 show ?thesis by (auto simp: CreateOrRecreate_def Let_def)
    next
      case False
      with None get m assms(5) obtain w2 where p: "poll (delete_gone cl o2) w1 = (None, w2)"
        and c: "cl_Create cl (reset_identity o2) w2 = (Inr new, w')" and res: "res = OperationResultUpdated"
        by (auto simp: CreateOrRecreate_def Let_def split: if_splits sum.splits prod.splits option.splits)
      from assms(1) p have "poll_run (delete_gone cl o2) w1 w2" unfolding poll_law_def by blast
      with poll_delete_gone [OF assms(4)] have st2: "stored w2 = (stored w1)(ObjectKeyFromObject o2 := None)" by blast
      from assms(3) c have "stored w' = (stored w2)(ObjectKeyFromObject (reset_identity o2) \<mapsto> new)"
        "same_content new (reset_identity o2)" unfolding create_law_def by blast+
      with k st2 st1 rd None False res show ?thesis by (simp add: reset_identity_content)
    qed
  qed
qed

text \<open>A server that keeps its objects in a list, and a poller that tries twice.\<close>

definition demo_client :: "store client" where
  "demo_client =
     \<lparr>cl_Get = (\<lambda>key obj w. case w key of None \<Rightarrow> ((Some (ApiNotFound ''not found''), obj), w) | Some x \<Rightarrow> ((None, x), w)),
      cl_Create = (\<lambda>obj w. if w (ObjectKeyFromObject obj) = None then (Inr obj, w(ObjectKeyFromObject obj \<mapsto> obj))
                           else (Inl (Msg ''already exists''), w)),
      cl_Delete = (\<lambda>obj w. if w (ObjectKeyFromObject obj) = None then (Some (ApiNotFound ''not found''), w)
                           else (None, w(ObjectKeyFromObject obj := None)))\<rparr>"

definition demo_poller :: "'w poller" where
  "demo_poller cond w =
     (case cond w of
        (Inl e, w1) \<Rightarrow> (Some e, w1)
      | (Inr True, w1) \<Rightarrow> (None, w1)
      | (Inr False, w1) \<Rightarrow>
          (case cond w1 of
             (Inl e, w2) \<Rightarrow> (Some e, w2)
           | (Inr True, w2) \<Rightarrow> (None, w2)
           | (Inr False, w2) \<Rightarrow> (Some (Msg ''context deadline exceeded''), w2)))"

lemma demo_poller_law: "poll_law demo_poller"
  unfolding poll_law_def demo_poller_def
  by (auto split: prod.splits sum.splits bool.splits intro: poll_run.intros)

lemma demo_client_laws: "get_law demo_client id" "create_law demo_client id" "delete_law demo_client id"
  by (auto simp: get_law_def create_law_def delete_law_def demo_client_def same_content_def go_simps
      split: option.splits if_splits)

definition demo_pod :: "json \<Rightarrow> kobject" where
  "demo_pod body = \<lparr>ko_GVK = \<lparr>gvk_Group = [], gvk_Version = ''v1'', gvk_Kind = ''Pod''\<rparr>,
     ko_Meta = empty_meta ''ns'' ''p'', ko_Status = None, ko_Body = body\<rparr>"

lemma demo_pod_key [simp]: "ObjectKeyFromObject (demo_pod b) = \<lparr>nn_Namespace = ''ns'', nn_Name = ''p''\<rparr>"
  by (simp add: ObjectKeyFromObject_def demo_pod_def empty_meta_def)

theorem CreateOrRecreate_stores_mutation_witness:
  "CreateOrRecreate demo_client demo_poller (=) (demo_pod JNull) (\<lambda>o1. Inr (demo_pod (JNum 2)))
     [\<lparr>nn_Namespace = ''ns'', nn_Name = ''p''\<rparr> \<mapsto> demo_pod (JNum 1)]
   = (Ok (OperationResultUpdated, demo_pod (JNum 2)), [\<lparr>nn_Namespace = ''ns'', nn_Name = ''p''\<rparr> \<mapsto> demo_pod (JNum 2)])
   \<and> same_content (demo_pod (JNum 2)) (demo_pod (JNum 2))"
proof -
  let ?w = "[\<lparr>nn_Namespace = ''ns'', nn_Name = ''p''\<rparr> \<mapsto> demo_pod (JNum 1)]"
  have ne: "demo_pod (JNum 1) \<noteq> demo_pod (JNum 2)" "reset_identity (demo_pod (JNum 2)) = demo_pod (JNum 2)"
    by (simp_all add: demo_pod_def reset_identity_def empty_meta_def)
  then have run: "CreateOrRecreate demo_client demo_poller (=) (demo_pod JNull) (\<lambda>o1. Inr (demo_pod (JNum 2))) ?w
      = (Ok (OperationResultUpdated, demo_pod (JNum 2)), [\<lparr>nn_Namespace = ''ns'', nn_Name = ''p''\<rparr> \<mapsto> demo_pod (JNum 2)])"
    by (simp add: CreateOrRecreate_def demo_client_def mutate_def demo_poller_def delete_gone_def go_simps)
  from CreateOrRecreate_stores_mutation [OF demo_poller_law demo_client_laws this] ne run show ?thesis
    by simp
qed

text \<open>\<open>DeepHashObject\<close> gives a string of at most 44 characters of base 36, so it fits a label value
  or the end of a name, and two objects get the same string exactly when the digests of
  their encodings are the same.\<close>

theorem DeepHashObject_label_safe:
  assumes "digest_law sha224" and "Encode a = Inr x" and "Encode b = Inr y"
  shows "\<exists>h k. DeepHashObject Encode sha224 a = Ok h \<and> DeepHashObject Encode sha224 b = Ok k
           \<and> length h \<le> 44 \<and> list_all base36_char h \<and> (h = k \<longleftrightarrow> sha224 x = sha224 y)"
proof -
  have dig: "length (sha224 s) = 28" "list_all (\<lambda>b. b < 256) (sha224 s)" for s
    using assms(1) unfolding digest_law_def by auto
  have "bytes_number (sha224 x) < 256 ^ 28" using bytes_number_less [OF dig(2)] dig(1) by metis
  also have "(256 :: nat) ^ 28 \<le> 36 ^ 44" by simp
  finally have "length (digits_in 36 (bytes_number (sha224 x))) \<le> 44" by (intro digits_in_length) auto
  moreover have "list_all base36_char (digits_in 36 (bytes_number (sha224 x)))"
    using digits_in_36_chars by (auto simp: list_all_iff)
  moreover have "digits_in 36 (bytes_number (sha224 x)) = digits_in 36 (bytes_number (sha224 y)) \<longleftrightarrow> sha224 x = sha224 y"
    using digits_in_36_inject bytes_number_inject dig by metis
  ultimately show ?thesis using assms(2,3) by (simp add: DeepHashObject_def)
qed

theorem DeepHashObject_label_safe_witness:
  "\<exists>h k. DeepHashObject Inr (\<lambda>s. replicate 28 (length s mod 256)) ''a'' = Ok h
     \<and> DeepHashObject Inr (\<lambda>s. replicate 28 (length s mod 256)) ''bc'' = Ok k
     \<and> length h \<le> 44 \<and> list_all base36_char h \<and> h \<noteq> k"
proof -
  have "digest_law (\<lambda>s. replicate 28 (length s mod 256))" by (simp add: digest_law_def list_all_iff)
  from DeepHashObject_label_safe [OF this, of Inr "''a''" "''a''" "''bc''" "''bc''"] show ?thesis by auto
qed

text \<open>\<open>GenerateBundleName\<close> never fails and gives at most 52 characters; the name starts with the
  (first 45 characters of the) name of the bundle deployment, and keeps at least six characters
  of a hash that has them.\<close>

theorem GenerateBundleName_fits:
  "\<exists>name. GenerateBundleName bdName hash = Ok name \<and> int (length name) \<le> maxBundleNameLength
     \<and> HasPrefix name (take 45 bdName @ ''-'') \<and> HasPrefix name (take 45 bdName @ ''-'' @ take 6 hash)"
proof -
  have "6 + (45 - min 45 (length bdName)) = 51 - min 45 (length bdName)" by (simp add: min_def)
  with take_add [of 6 "45 - min 45 (length bdName)" hash]
  have hash: "take (51 - min 45 (length bdName)) hash = take 6 hash @ take (45 - min 45 (length bdName)) (drop 6 hash)"
    by simp
  have "HasPrefix (take 45 bdName @ ''-'' @ take 6 hash @ t) (take 45 bdName @ ''-'')"
    "HasPrefix (take 45 bdName @ ''-'' @ take 6 hash @ t) (take 45 bdName @ ''-'' @ take 6 hash)" for t
    by (auto simp: HasPrefix_iff)
  then show ?thesis
    by (auto simp: GenerateBundleName_eq maxBundleNameLength_def hash)
qed

text \<open>An event for a config map enqueues exactly the bundle deployments of the provisioner that
  refer to it by name, when it is in the system namespace.\<close>

lemma config_map_requests:
  "set (MapConfigMapToBundleDeploymentHandler (Inr items) ns prov cm)
   = {\<lparr>nn_Namespace = om_Namespace (bd_Meta b), nn_Name = bd_Name b\<rparr> | b.
        b \<in> set items \<and> spec_ProvisionerClassName (bd_Spec b) = prov \<and> cm_Namespace cm = ns
        \<and> cm_Name cm \<in> cms_ConfigMap ` set (config_map_refs (bd_Source b))}"
  by (auto simp: MapConfigMapToBundleDeploymentHandler_def MapConfigMapToBundleDeployment_def split: if_splits)

lemma find_owner_ref_Some:
  "find_owner_ref PGV g refs = Inr (Some key) \<Longrightarrow>
     \<exists>ref \<in> set refs. or_Controller ref = Some True \<and> PGV (or_APIVersion ref) = Inr (gvk_Group g, gvk_Version g)
        \<and> or_Kind ref = gvk_Kind g \<and> key = \<lparr>nn_Namespace = [], nn_Name = or_Name ref\<rparr>"
  by (induction refs) (auto split: sum.splits if_splits)

text \<open>An event for an owned object enqueues at most one request, for a bundle deployment that is the
  controller of the object by kind, group and version and that, as last read, is of the
  provisioner's class.\<close>

theorem ownee_event_enqueues_controller:
  assumes "MapOwneeToOwnerProvisionerHandler PGV (Inr g) GVKForObject Get prov owner obj = (reqs, owner')"
  shows "reqs = [] \<or>
     (\<exists>ref \<in> set (om_OwnerReferences (ko_Meta obj)).
        or_Controller ref = Some True \<and> PGV (or_APIVersion ref) = Inr (gvk_Group g, gvk_Version g)
        \<and> or_Kind ref = gvk_Kind g \<and> reqs = [\<lparr>nn_Namespace = [], nn_Name = or_Name ref\<rparr>]
        \<and> ProvisionerClassName owner' = prov
        \<and> (\<exists>err. Get \<lparr>nn_Namespace = [], nn_Name = or_Name ref\<rparr> owner = (err, owner')
                \<and> (err = None \<or> (\<exists>e. err = Some e \<and> IsNotFound e))))"
proof (cases "reqs = []")
  case False
  with assms obtain key err where "find_owner_ref PGV g (om_OwnerReferences (ko_Meta obj)) = Inr (Some key)"
    and "Get key owner = (err, owner')" and "reqs = [key]" and "ProvisionerClassName owner' = prov"
    and "\<forall>e. err = Some e \<longrightarrow> IsNotFound e"
    unfolding MapOwneeToOwnerProvisionerHandler_def
    by (auto split: sum.splits option.splits prod.splits if_splits)
  moreover from this(5) have "err = None \<or> (\<exists>e. err = Some e \<and> IsNotFound e)" by (cases err) auto
  ultimately show ?thesis using find_owner_ref_Some by blast
qed simp

definition demo_ownee :: kobject where
  "demo_ownee = (demo_pod JNull)\<lparr>ko_Meta := (empty_meta ''ns'' ''p'')\<lparr>om_OwnerReferences :=
     [\<lparr>or_APIVersion = ''core.rukpak.io/v1alpha2'', or_Kind = ''BundleDeployment'', or_Name = ''b'', or_UID = [],
       or_Controller = Some True\<rparr>]\<rparr>\<rparr>"

theorem ownee_event_enqueues_controller_witness:
  "\<exists>owner'. MapOwneeToOwnerProvisionerHandler (\<lambda>_. Inr (''core.rukpak.io'', ''v1alpha2'')) (Inr BundleDeploymentGVK)
     (\<lambda>x. Inr (ko_GVK x)) (\<lambda>key _. (None, mk_bd (nn_Name key) ''plain'' (empty_source SourceTypeHTTP))) ''plain''
     (mk_bd [] [] (empty_source [])) demo_ownee = ([\<lparr>nn_Namespace = [], nn_Name = ''b''\<rparr>], owner')
   \<and> ProvisionerClassName owner' = ''plain''"
proof -
  let ?Get = "\<lambda>key (_ :: BundleDeployment). (None :: gerror option, mk_bd (nn_Name key) ''plain'' (empty_source SourceTypeHTTP))"
  have run: "MapOwneeToOwnerProvisionerHandler (\<lambda>_. Inr (''core.rukpak.io'', ''v1alpha2'')) (Inr BundleDeploymentGVK)
     (\<lambda>x. Inr (ko_GVK x)) ?Get ''plain'' (mk_bd [] [] (empty_source [])) demo_ownee
     = ([\<lparr>nn_Namespace = [], nn_Name = ''b''\<rparr>], mk_bd ''b'' ''plain'' (empty_source SourceTypeHTTP))"
    by (simp add: MapOwneeToOwnerProvisionerHandler_def demo_ownee_def BundleDeploymentGVK_def
        ProvisionerClassName_def mk_bd_def empty_meta_def)
  from ownee_event_enqueues_controller [OF this] run show ?thesis by (intro exI [of _ "mk_bd ''b'' ''plain'' (empty_source SourceTypeHTTP)"]) blast
qed

text \<open>Reading a certificate file ends, and a pool it gives holds only certificates that parsed.\<close>

theorem LoadCertPool_ends:
  assumes "pem_law pem_Decode"
  shows "LoadCertPool pem_Decode ParseCertificate ReadFile certFile \<noteq> Diverge
         \<and> (\<forall>pool. LoadCertPool pem_Decode ParseCertificate ReadFile certFile = Ok pool
              \<longrightarrow> (\<forall>c \<in> set pool. \<exists>bytes. ParseCertificate bytes = Inr c))"
proof (cases "ReadFile certFile")
  case (Inr data)
  have "cert_loop pem_Decode ParseCertificate (Suc (length data)) data [] = Ok pool
          \<Longrightarrow> \<forall>c \<in> set pool. \<exists>bytes. ParseCertificate bytes = Inr c" for pool
    by (drule cert_loop_pool) simp
  with Inr cert_loop_ends [OF assms, of data "Suc (length data)"] show ?thesis
    by (simp add: LoadCertPool_def del: cert_loop.simps)
qed (simp add: LoadCertPool_def)

theorem LoadCertPool_ends_witness:
  "LoadCertPool (\<lambda>d. case d of [] \<Rightarrow> None | c # r \<Rightarrow> Some ((''CERTIFICATE'', [c]), r)) Inr (\<lambda>_. Inr ''xy'') ''ca.pem''
   = Ok [''x'', ''y'']
   \<and> LoadCertPool (\<lambda>d. case d of [] \<Rightarrow> None | c # r \<Rightarrow> Some ((''CERTIFICATE'', [c]), r)) Inr (\<lambda>_. Inr ''xy'') ''ca.pem'' \<noteq> Diverge"
proof -
  have "pem_law (\<lambda>d. case d of [] \<Rightarrow> None | c # r \<Rightarrow> Some ((''CERTIFICATE'', [c]), r))"
    by (auto simp: pem_law_def split: list.splits)
  from LoadCertPool_ends [OF this, of Inr "\<lambda>_. Inr ''xy''" "''ca.pem''"] show ?thesis
    by (simp add: LoadCertPool_def numeral_eq_Suc)
qed

text \<open>
  The objects of a deployment carry the labels its selector asks for: what
  \<open>NewBundleDeploymentLabelSelector\<close> selects is exactly what has both owner labels.
\<close>

lemma selector_selects_owned:
  assumes "requirement_law NR" and "NewBundleDeploymentLabelSelector NR bd = Some rs"
  shows "list_all (\<lambda>r. r labels) rs
         \<longleftrightarrow> labels CoreOwnerKindKey = Some BundleDeploymentKind \<and> labels CoreOwnerNameKey = Some (bd_Name bd)"
  using assms
  by (auto simp: requirement_law_def NewBundleDeploymentLabelSelector_def newLabelSelector_def split: sum.splits)

end
