(* ===== verification/CRD_Validation.thy ===== *)
theory CRD_Validation
  imports Util
begin

text \<open>
  The safety checks on custom resource definitions: the check of an update against what is
  stored in the cluster (internal/crd/crd.go), the admission handler that makes it
  (cmd/crdvalidator/handlers/crd.go), and the preflight check of a release upgrade
  (pkg/preflights/crdupgradesafety). The cluster's reads, the schema validators and the
  conversions between API versions are parameters.
\<close>

section \<open>Data\<close>

text \<open>\<open>'s\<close> is the type of schemas. A version without a schema has none.\<close>

record 's CRDVersion =
  cv_Name :: string
  cv_Served :: bool
  cv_Schema :: "'s option"

record 's CRD =
  crd_Name :: string
  crd_Annotations :: "string \<rightharpoonup> string"
  crd_Group :: string
  crd_ListKind :: string
  crd_Versions :: "'s CRDVersion list"
  crd_Conversion :: "string option"
  crd_StoredVersions :: "string list"

definition NoneConverter :: string where "NoneConverter = ''None''"

text \<open>
  The cluster and the libraries: reading a definition, converting a definition and a version to
  the internal API (their errors), listing objects, making a validator for a schema (its
  error), and validating an object.
\<close>

record 's crd_libs =
  xl_Get :: "string \<Rightarrow> 's CRD result"
  xl_ConvertCRD :: "'s CRD \<Rightarrow> gerror option"
  xl_ConvertVersion :: "'s CRDVersion \<Rightarrow> gerror option"
  xl_List :: "GroupVersionKind \<Rightarrow> kobject list result"
  xl_NewValidator :: "'s \<Rightarrow> gerror option"
  xl_ValidateCR :: "'s \<Rightarrow> kobject \<Rightarrow> gerror option"

section \<open>The check of an update\<close>

definition validate_cr :: "'s crd_libs \<Rightarrow> 's CRDVersion \<Rightarrow> kobject \<Rightarrow> unit outcome" where
  "validate_cr X newVersion cr =
     (case cv_Schema newVersion of
        None \<Rightarrow> Panic ''nil pointer dereference''
      | Some sch \<Rightarrow>
          (case xl_NewValidator X sch of
             Some err \<Rightarrow> Err (Msg (''error creating validator for the schema of version '' @ fmt_q (cv_Name newVersion) @ '': '' @ Error err))
           | None \<Rightarrow>
               (case xl_ValidateCR X sch cr of
                  Some err \<Rightarrow> Err (Msg (''existing custom object '' @ om_Namespace (ko_Meta cr) @ ''/'' @ om_Name (ko_Meta cr)
                                       @ '' failed validation for new schema version '' @ cv_Name newVersion @ '': '' @ Error err))
                | None \<Rightarrow> Ok ())))"

definition validateExistingCRs :: "'s crd_libs \<Rightarrow> GroupVersionKind \<Rightarrow> 's CRDVersion \<Rightarrow> unit outcome" where
  "validateExistingCRs X listGVK newVersion =
     (case xl_ConvertVersion X newVersion of
        Some err \<Rightarrow> Err err
      | None \<Rightarrow>
          (case xl_List X listGVK of
             Inl err \<Rightarrow> Err (Msg (''error listing objects for '' @ gvk_String listGVK @ '': '' @ Error err))
           | Inr items \<Rightarrow> oall (validate_cr X newVersion) items))"

text \<open>The map of a definition's versions by name; of equal names the last counts.\<close>

definition versions_map :: "'s CRD \<Rightarrow> (string \<rightharpoonup> 's CRDVersion)" where
  "versions_map crd = map_of (rev (map (\<lambda>v. (cv_Name v, v)) (crd_Versions crd)))"

definition version_names :: "'s CRD \<Rightarrow> string set" where
  "version_names crd = set (map cv_Name (crd_Versions crd))"

definition check_changed :: "'s crd_libs \<Rightarrow> 's CRD \<Rightarrow> 's CRD \<Rightarrow> string \<Rightarrow> unit outcome" where
  "check_changed X oldCRD newCRD v =
     (if cv_Served (the (versions_map oldCRD v))
      then validateExistingCRs X \<lparr>gvk_Group = crd_Group oldCRD, gvk_Version = v, gvk_Kind = crd_ListKind oldCRD\<rparr> (the (versions_map newCRD v))
      else Ok ())"

definition check_added :: "'s crd_libs \<Rightarrow> 's CRD \<Rightarrow> 's CRD \<Rightarrow> string \<times> string \<Rightarrow> unit outcome" where
  "check_added X oldCRD newCRD av =
     (case av of (va, vs) \<Rightarrow>
        (let oldV = the (versions_map oldCRD vs) in
         if cv_Served oldV
         then validateExistingCRs X \<lparr>gvk_Group = crd_Group oldCRD, gvk_Version = cv_Name oldV, gvk_Kind = crd_ListKind oldCRD\<rparr>
                (the (versions_map newCRD va))
         else Ok ()))"

definition validateCRDCompatibility :: "'s crd_libs \<Rightarrow> 's CRD \<Rightarrow> 's CRD \<Rightarrow> unit outcome" where
  "validateCRDCompatibility X oldCRD newCRD =
     (let oldNames = version_names oldCRD; newNames = version_names newCRD;
          invalidRemovedVersions = set (crd_StoredVersions oldCRD) \<inter> (oldNames - newNames);
          similarVersions = oldNames \<inter> newNames;
          diffVersions = {v \<in> similarVersions. cv_Schema (the (versions_map oldCRD v)) \<noteq> cv_Schema (the (versions_map newCRD v))};
          addedVersions = newNames - oldNames
      in if invalidRemovedVersions \<noteq> {}
         then Err (Msg (''cannot remove stored versions '' @ fmt_v_strings (sets_List invalidRemovedVersions)))
         else
           (case xl_ConvertCRD X newCRD of
              Some err \<Rightarrow> Err err
            | None \<Rightarrow>
                obind (oall (check_changed X oldCRD newCRD) (sets_List diffVersions)) (\<lambda>_.
                  if addedVersions \<noteq> {} \<and> (crd_Conversion newCRD = None \<or> crd_Conversion newCRD = Some NoneConverter)
                  then oall (check_added X oldCRD newCRD)
                         (concat (map (\<lambda>va. map (Pair va) (sets_List similarVersions)) (sets_List addedVersions)))
                  else Ok ())))"

text \<open>\<open>getStoredVersions\<close> gives two sets made by \<open>sets.New\<close>, which are never nil: the nil tests of the caller never
  succeed. The loop over the set stops at some missing version, in the order of the map.\<close>

definition getStoredVersions :: "'s CRD \<Rightarrow> 's CRD \<Rightarrow> string set \<times> string set" where
  "getStoredVersions oldCRD newCRD = (set (crd_StoredVersions oldCRD), version_names newCRD)"

definition safeStorageVersionUpgrade :: "(string set \<Rightarrow> string list) \<Rightarrow> 's CRD \<Rightarrow> 's CRD \<Rightarrow> bool \<times> gerror option" where
  "safeStorageVersionUpgrade iter existingCRD newCRD =
     (case getStoredVersions existingCRD newCRD of
        (existingStatusVersions, newSpecVersions) \<Rightarrow>
          (case List.find (\<lambda>name. name \<notin> newSpecVersions) (iter existingStatusVersions) of
             Some name \<Rightarrow>
               (False, Some (Msg (''new CRD removes version '' @ name @ '' that is listed as a stored version on the existing CRD'')))
           | None \<Rightarrow> (True, None)))"

definition Validate :: "'s crd_libs \<Rightarrow> (string set \<Rightarrow> string list) \<Rightarrow> 's CRD \<Rightarrow> unit outcome" where
  "Validate X iter newCrd =
     (case xl_Get X (crd_Name newCrd) of
        Inl err \<Rightarrow> if IsNotFound err then Ok () else Err err
      | Inr oldCRD \<Rightarrow>
          (case validateCRDCompatibility X oldCRD newCrd of
             Err err \<Rightarrow> Err (Msg (''error validating existing CRs against new CRD''@ [CHR 0x27] @''s schema for '' @ fmt_q (crd_Name newCrd) @ '': '' @ Error err))
           | Panic p \<Rightarrow> Panic p
           | Diverge \<Rightarrow> Diverge
           | Ok _ \<Rightarrow>
               (case safeStorageVersionUpgrade iter oldCRD newCrd of
                  (safe, err) \<Rightarrow>
                    (let text = (case err of None \<Rightarrow> ''<nil>'' | Some e \<Rightarrow> Error e) in
                     if \<not> safe then Err (Msg (''risk of data loss updating '' @ fmt_q (crd_Name newCrd) @ '': '' @ text))
                     else if err \<noteq> None
                     then Err (Msg (''checking CRD for potential data loss updating '' @ fmt_q (crd_Name newCrd) @ '': '' @ text))
                     else Ok ()))))"

section \<open>The admission handler\<close>

definition ValidationKey :: string where "ValidationKey = ''core.rukpak.io/safe-crd-upgrade-validation''"
definition Disabled :: string where "Disabled = ''false''"

datatype admission_response = Allowed | Denied string | Errored nat gerror

definition disabled :: "'s CRD \<Rightarrow> bool" where
  "disabled crd \<longleftrightarrow> (case crd_Annotations crd ValidationKey of None \<Rightarrow> [] | Some v \<Rightarrow> v) = Disabled"

definition CrdValidator_Handle ::
  "('req \<Rightarrow> 's CRD result) \<Rightarrow> 's crd_libs \<Rightarrow> (string set \<Rightarrow> string list) \<Rightarrow> string \<Rightarrow> string \<Rightarrow> 'req \<Rightarrow> admission_response outcome" where
  "CrdValidator_Handle Decode X iter reqName operation req =
     (case Decode req of
        Inl err \<Rightarrow> Ok (Errored 400 (Msg (''failed to decode CRD '' @ fmt_q reqName @ '': '' @ Error err)))
      | Inr incomingCrd \<Rightarrow>
          if disabled incomingCrd then Ok Allowed
          else
            (case Validate X iter incomingCrd of
               Ok _ \<Rightarrow> Ok Allowed
             | Err err \<Rightarrow>
                 Ok (Denied (''failed to validate safety of '' @ operation @ '' for CRD '' @ fmt_q reqName
                       @ '' (NOTE: to disable this validation, set the '' @ fmt_q ValidationKey @ '' annotation to '' @ fmt_q Disabled @ ''): '' @ Error err))
             | Panic p \<Rightarrow> Panic p
             | Diverge \<Rightarrow> Diverge))"

section \<open>The preflight check of a release\<close>

text \<open>
  The validator is configured by the list of its validations (kapp's, by name); \<open>run\<close> is kapp's evaluation of a
  list on an old and a new definition.
\<close>

datatype kapp_validation = ValidationFunc string | ChangeValidator "string list"

type_synonym kapp_validator = "kapp_validation list"

record Preflight =
  pf_validator :: kapp_validator

definition WithValidator :: "kapp_validator \<Rightarrow> Preflight \<Rightarrow> Preflight" where
  "WithValidator v p = p\<lparr>pf_validator := v\<rparr>"

definition NewPreflight :: "(Preflight \<Rightarrow> Preflight) list \<Rightarrow> Preflight" where
  "NewPreflight opts =
     foldl (\<lambda>p f. f p)
       \<lparr>pf_validator =
          [ValidationFunc ''NoScopeChange'', ValidationFunc ''NoStoredVersionRemoved'', ValidationFunc ''NoExistingFieldRemoved'',
           ChangeValidator [''EnumChangeValidation'', ''RequiredFieldChangeValidation'', ''MaximumChangeValidation'',
             ''MaximumItemsChangeValidation'', ''MaximumLengthChangeValidation'', ''MaximumPropertiesChangeValidation'',
             ''MinimumChangeValidation'', ''MinimumItemsChangeValidation'', ''MinimumLengthChangeValidation'',
             ''MinimumPropertiesChangeValidation'', ''DefaultValueChangeValidation'']]\<rparr> opts"

text \<open>A Helm release: its name, its manifest and the status of its last deployment.\<close>

record release =
  rel_Name :: string
  rel_Manifest :: string
  rel_Status :: string

record 's preflight_libs =
  pl_builder :: manifest_builder
  pl_ToUnstructured :: "kobject \<Rightarrow> json result"
  pl_FromUnstructured :: "json \<Rightarrow> 's CRD result"
  pl_GetCRD :: "string \<Rightarrow> 's CRD result"
  pl_run :: "kapp_validator \<Rightarrow> 's CRD \<Rightarrow> 's CRD \<Rightarrow> gerror option"

definition CRD_GVK :: GroupVersionKind where
  "CRD_GVK = \<lparr>gvk_Group = ''apiextensions.k8s.io'', gvk_Version = ''v1'', gvk_Kind = ''CustomResourceDefinition''\<rparr>"

definition Preflight_Install :: "Preflight \<Rightarrow> release option \<Rightarrow> unit outcome" where
  "Preflight_Install p rel = Ok ()"

text \<open>One object: an error that ends the loop, or the list of validation errors it adds.\<close>

definition preflight_object :: "'s preflight_libs \<Rightarrow> Preflight \<Rightarrow> kobject \<Rightarrow> gerror list outcome" where
  "preflight_object P p obj =
     (if ko_GVK obj \<noteq> CRD_GVK then Ok []
      else
        (case pl_ToUnstructured P obj of
           Inl err \<Rightarrow> Err (Wrap (''converting object '' @ fmt_q (om_Name (ko_Meta obj)) @ '' to unstructured: '' @ Error err) err)
         | Inr uMap \<Rightarrow>
             (case pl_FromUnstructured P uMap of
                Inl err \<Rightarrow> Err (Wrap (''converting unstructured to CRD object: '' @ Error err) err)
              | Inr newCrd \<Rightarrow>
                  (case pl_GetCRD P (crd_Name newCrd) of
                     Inl err \<Rightarrow> Err (Wrap (''getting existing resource for CRD '' @ fmt_q (crd_Name newCrd) @ '': '' @ Error err) err)
                   | Inr oldCrd \<Rightarrow>
                       (case pl_run P (pf_validator p) oldCrd newCrd of
                          None \<Rightarrow> Ok []
                        | Some err \<Rightarrow> Ok [Wrap (''validating upgrade for CRD '' @ fmt_q (crd_Name newCrd) @ '' failed: '' @ Error err) err])))))"

definition Preflight_Upgrade :: "'s preflight_libs \<Rightarrow> Preflight \<Rightarrow> release option \<Rightarrow> unit outcome" where
  "Preflight_Upgrade P p rel =
     (case rel of
        None \<Rightarrow> Ok ()
      | Some rel \<Rightarrow>
          (case ManifestObjects (pl_builder P) (rel_Manifest rel) (rel_Name rel @ ''-release-manifest'') of
             Err err \<Rightarrow> Err (Wrap (''parsing release '' @ fmt_q (rel_Name rel) @ '' objects: '' @ Error err) err)
           | Panic q \<Rightarrow> Panic q
           | Diverge \<Rightarrow> Diverge
           | Ok relObjects \<Rightarrow>
               obind (omap (preflight_object P p) relObjects) (\<lambda>ess.
                 (case errors_Join (concat ess) of None \<Rightarrow> Ok () | Some e \<Rightarrow> Err e))))"

section \<open>What a passing check means\<close>

text \<open>All objects listed under a kind are accepted by the schema of a version.\<close>

definition listed_objects_valid :: "'s crd_libs \<Rightarrow> GroupVersionKind \<Rightarrow> 's CRDVersion \<Rightarrow> bool" where
  "listed_objects_valid X g v \<longleftrightarrow>
     xl_ConvertVersion X v = None \<and>
     (\<exists>items. xl_List X g = Inr items \<and>
        (\<forall>cr\<in>set items. \<exists>sch. cv_Schema v = Some sch \<and> xl_NewValidator X sch = None \<and> xl_ValidateCR X sch cr = None))"

text \<open>The contract of an update of a definition, without the order of the code's checks.\<close>

definition served_in :: "'s CRD \<Rightarrow> string \<Rightarrow> bool" where
  "served_in crd v \<longleftrightarrow> (\<exists>ver. versions_map crd v = Some ver \<and> cv_Served ver)"

definition list_kind :: "'s CRD \<Rightarrow> string \<Rightarrow> GroupVersionKind" where
  "list_kind crd v = \<lparr>gvk_Group = crd_Group crd, gvk_Version = v, gvk_Kind = crd_ListKind crd\<rparr>"

definition no_conversion :: "'s CRD \<Rightarrow> bool" where
  "no_conversion crd \<longleftrightarrow> crd_Conversion crd = None \<or> crd_Conversion crd = Some NoneConverter"

definition compatible_update :: "'s crd_libs \<Rightarrow> 's CRD \<Rightarrow> 's CRD \<Rightarrow> bool" where
  "compatible_update X oldCRD newCRD \<longleftrightarrow>
     (\<forall>v ov nv. served_in oldCRD v \<and> versions_map oldCRD v = Some ov \<and> versions_map newCRD v = Some nv \<and> cv_Schema ov \<noteq> cv_Schema nv
        \<longrightarrow> listed_objects_valid X (list_kind oldCRD v) nv) \<and>
     (\<forall>va nv vs. no_conversion newCRD \<and> versions_map newCRD va = Some nv \<and> va \<notin> version_names oldCRD
          \<and> served_in oldCRD vs \<and> vs \<in> version_names newCRD
        \<longrightarrow> listed_objects_valid X (list_kind oldCRD vs) nv)"

lemma validate_cr_Ok [simp]:
  "validate_cr X v cr = Ok u \<longleftrightarrow> (\<exists>sch. cv_Schema v = Some sch \<and> xl_NewValidator X sch = None \<and> xl_ValidateCR X sch cr = None)"
  by (auto simp: validate_cr_def split: option.splits)

lemma validateExistingCRs_Ok [simp]: "validateExistingCRs X g v = Ok u \<longleftrightarrow> listed_objects_valid X g v"
  by (auto simp: validateExistingCRs_def listed_objects_valid_def oall_Ok_iff split: option.splits sum.splits)

lemma versions_map_dom: "dom (versions_map crd) = version_names crd"
  by (force simp: versions_map_def version_names_def dom_map_of_conv_image_fst)

lemma versions_map_Some_names: "versions_map crd v = Some ver \<Longrightarrow> v \<in> version_names crd"
  by (auto simp flip: versions_map_dom)

lemma version_names_Some: "v \<in> version_names crd \<Longrightarrow> \<exists>ver. versions_map crd v = Some ver"
  by (auto simp flip: versions_map_dom)

lemma versions_map_name: "versions_map crd v = Some ver \<Longrightarrow> cv_Name ver = v"
  by (auto simp: versions_map_def dest!: map_of_SomeD)

lemma finite_version_names [simp]: "finite (version_names crd)"
  by (simp add: version_names_def)

lemma check_changed_Ok:
  "versions_map oldCRD v = Some ov \<Longrightarrow> versions_map newCRD v = Some nv \<Longrightarrow>
   check_changed X oldCRD newCRD v = Ok u \<longleftrightarrow> (served_in oldCRD v \<longrightarrow> listed_objects_valid X (list_kind oldCRD v) nv)"
  by (auto simp: check_changed_def served_in_def list_kind_def)

lemma check_added_Ok:
  "versions_map oldCRD vs = Some ov \<Longrightarrow> versions_map newCRD va = Some nv \<Longrightarrow>
   check_added X oldCRD newCRD (va, vs) = Ok u \<longleftrightarrow> (served_in oldCRD vs \<longrightarrow> listed_objects_valid X (list_kind oldCRD vs) nv)"
  by (auto simp: check_added_def served_in_def list_kind_def Let_def dest: versions_map_name)

definition changed_versions :: "'s CRD \<Rightarrow> 's CRD \<Rightarrow> string set" where
  "changed_versions oldCRD newCRD =
     {v \<in> version_names oldCRD \<inter> version_names newCRD. cv_Schema (the (versions_map oldCRD v)) \<noteq> cv_Schema (the (versions_map newCRD v))}"

lemma finite_changed_versions [simp]: "finite (changed_versions oldCRD newCRD)"
  by (simp add: changed_versions_def)

lemma changed_versions_iff:
  "v \<in> changed_versions oldCRD newCRD \<longleftrightarrow>
     (\<exists>ov nv. versions_map oldCRD v = Some ov \<and> versions_map newCRD v = Some nv \<and> cv_Schema ov \<noteq> cv_Schema nv)"
  unfolding changed_versions_def by (auto dest: versions_map_Some_names dest!: version_names_Some)

lemma changed_versions_Ok:
  "oall (check_changed X oldCRD newCRD) (sets_List (changed_versions oldCRD newCRD)) = Ok () \<longleftrightarrow>
   (\<forall>v ov nv. served_in oldCRD v \<and> versions_map oldCRD v = Some ov \<and> versions_map newCRD v = Some nv \<and> cv_Schema ov \<noteq> cv_Schema nv
      \<longrightarrow> listed_objects_valid X (list_kind oldCRD v) nv)" (is "?L \<longleftrightarrow> ?R")
proof -
  have "?L \<longleftrightarrow> (\<forall>v ov nv. versions_map oldCRD v = Some ov \<and> versions_map newCRD v = Some nv \<and> cv_Schema ov \<noteq> cv_Schema nv
                 \<longrightarrow> check_changed X oldCRD newCRD v = Ok ())"
    by (auto simp: oall_Ok_iff Ball_def changed_versions_iff)
  also have "\<dots> \<longleftrightarrow> ?R"
    using check_changed_Ok [of oldCRD _ _ newCRD _ X "()"] by blast
  finally show ?thesis .
qed

lemma added_versions_Ok:
  "oall (check_added X oldCRD newCRD)
     (concat (map (\<lambda>va. map (Pair va) (sets_List (version_names oldCRD \<inter> version_names newCRD)))
        (sets_List (version_names newCRD - version_names oldCRD)))) = Ok () \<longleftrightarrow>
   (\<forall>va nv vs. versions_map newCRD va = Some nv \<and> va \<notin> version_names oldCRD
        \<and> served_in oldCRD vs \<and> vs \<in> version_names newCRD
      \<longrightarrow> listed_objects_valid X (list_kind oldCRD vs) nv)" (is "?L \<longleftrightarrow> ?R")
proof -
  have "?L \<longleftrightarrow> (\<forall>va nv vs ov. versions_map newCRD va = Some nv \<and> va \<notin> version_names oldCRD \<and> versions_map oldCRD vs = Some ov
                 \<and> vs \<in> version_names newCRD \<longrightarrow> check_added X oldCRD newCRD (va, vs) = Ok ())"
    by (simp add: oall_Ok_iff) (metis DiffI DiffD1 DiffD2 IntI IntD1 IntD2 versions_map_Some_names version_names_Some)
  also have "\<dots> \<longleftrightarrow> ?R"
    by (metis check_added_Ok served_in_def)
  finally show ?thesis .
qed

lemma validateCRDCompatibility_Ok:
  "validateCRDCompatibility X oldCRD newCRD = Ok () \<longleftrightarrow>
     set (crd_StoredVersions oldCRD) \<inter> (version_names oldCRD - version_names newCRD) = {} \<and>
     xl_ConvertCRD X newCRD = None \<and> compatible_update X oldCRD newCRD"
proof -
  let ?changed = "oall (check_changed X oldCRD newCRD) (sets_List (changed_versions oldCRD newCRD))"
  let ?added = "oall (check_added X oldCRD newCRD)
     (concat (map (\<lambda>va. map (Pair va) (sets_List (version_names oldCRD \<inter> version_names newCRD)))
        (sets_List (version_names newCRD - version_names oldCRD))))"
  have "version_names newCRD - version_names oldCRD = {} \<Longrightarrow> ?added = Ok ()"
    by (simp only: sorted_list_of_set_empty list.map concat.simps oall.simps)
  then have "validateCRDCompatibility X oldCRD newCRD = Ok () \<longleftrightarrow>
      set (crd_StoredVersions oldCRD) \<inter> (version_names oldCRD - version_names newCRD) = {} \<and>
      xl_ConvertCRD X newCRD = None \<and> ?changed = Ok () \<and> (no_conversion newCRD \<longrightarrow> ?added = Ok ())"
    unfolding validateCRDCompatibility_def Let_def changed_versions_def [symmetric] no_conversion_def [symmetric]
    by (cases "xl_ConvertCRD X newCRD") auto
  then show ?thesis
    unfolding changed_versions_Ok added_versions_Ok compatible_update_def by blast
qed

lemma safeStorageVersionUpgrade_safe:
  assumes "set (iter (set (crd_StoredVersions oldCRD))) = set (crd_StoredVersions oldCRD)"
  shows "(case safeStorageVersionUpgrade iter oldCRD newCRD of (safe, err) \<Rightarrow>
            (safe \<longleftrightarrow> set (crd_StoredVersions oldCRD) \<subseteq> version_names newCRD) \<and> (safe \<longleftrightarrow> err = None))"
proof (cases "List.find (\<lambda>name. name \<notin> version_names newCRD) (iter (set (crd_StoredVersions oldCRD)))")
  case None
  then have "set (crd_StoredVersions oldCRD) \<subseteq> version_names newCRD"
    using assms by (auto simp: find_None_iff)
  with None show ?thesis
    by (simp add: safeStorageVersionUpgrade_def getStoredVersions_def)
next
  case (Some name)
  then have "name \<in> set (crd_StoredVersions oldCRD)" "name \<notin> version_names newCRD"
    by (metis assms find_Some_iff nth_mem)+
  with Some show ?thesis
    by (auto simp: safeStorageVersionUpgrade_def getStoredVersions_def)
qed

lemma Validate_Ok_iff:
  assumes "\<And>S :: string set. finite S \<Longrightarrow> set (iter S) = S"
  shows "Validate X iter newCrd = Ok () \<longleftrightarrow>
     (\<exists>e. xl_Get X (crd_Name newCrd) = Inl e \<and> IsNotFound e) \<or>
     (\<exists>oldCRD. xl_Get X (crd_Name newCrd) = Inr oldCRD \<and> xl_ConvertCRD X newCrd = None \<and>
        set (crd_StoredVersions oldCRD) \<subseteq> version_names newCrd \<and> compatible_update X oldCRD newCrd)"
proof (cases "xl_Get X (crd_Name newCrd)")
  case (Inl e)
  then show ?thesis by (auto simp: Validate_def)
next
  case (Inr oldCRD)
  obtain safe err where s: "safeStorageVersionUpgrade iter oldCRD newCrd = (safe, err)"
    by force
  have safe: "safe \<longleftrightarrow> set (crd_StoredVersions oldCRD) \<subseteq> version_names newCrd" "safe \<longleftrightarrow> err = None"
    using safeStorageVersionUpgrade_safe [of iter oldCRD newCrd] assms s by auto
  show ?thesis
  proof (cases "validateCRDCompatibility X oldCRD newCrd")
    case (Ok u)
    then have "xl_ConvertCRD X newCrd = None" "compatible_update X oldCRD newCrd"
      by (simp_all add: validateCRDCompatibility_Ok)
    with Inr Ok s safe show ?thesis
      by (simp add: Validate_def Let_def)
  qed (use Inr validateCRDCompatibility_Ok [of X oldCRD newCrd] in \<open>auto simp: Validate_def\<close>)
qed

text \<open>C23. The admission handler allows a request exactly when the request decodes and either its definition carries the
  opt-out annotation, or the cluster has no such definition, or the update is safe: the definition converts, every
  version the cluster has stored objects in is still there, every served version whose schema changes accepts all
  the objects the cluster lists, and (without conversion webhook) every added version accepts all the objects of the
  served versions that stay. The loop over the stored versions runs in any order.\<close>

theorem crd_update_admitted_iff:
  assumes "\<And>S :: string set. finite S \<Longrightarrow> set (iter S) = S"
  shows "CrdValidator_Handle Decode X iter reqName operation req = Ok Allowed \<longleftrightarrow>
     (\<exists>crd. Decode req = Inr crd \<and>
        (disabled crd \<or>
         (\<exists>e. xl_Get X (crd_Name crd) = Inl e \<and> IsNotFound e) \<or>
         (\<exists>oldCRD. xl_Get X (crd_Name crd) = Inr oldCRD \<and> xl_ConvertCRD X crd = None \<and>
            set (crd_StoredVersions oldCRD) \<subseteq> version_names crd \<and> compatible_update X oldCRD crd)))"
proof (cases "Decode req")
  case (Inr crd)
  have "CrdValidator_Handle Decode X iter reqName operation req = Ok Allowed \<longleftrightarrow> disabled crd \<or> Validate X iter crd = Ok ()"
    using Inr by (cases "Validate X iter crd") (auto simp: CrdValidator_Handle_def)
  with Inr show ?thesis
    by (simp add: Validate_Ok_iff [OF assms])
qed (simp add: CrdValidator_Handle_def)

definition demo_version :: "string \<Rightarrow> nat \<Rightarrow> nat CRDVersion" where
  "demo_version n sch = \<lparr>cv_Name = n, cv_Served = True, cv_Schema = Some sch\<rparr>"

definition demo_crd :: "nat CRDVersion list \<Rightarrow> nat CRD" where
  "demo_crd vs = \<lparr>crd_Name = ''things.example.com'', crd_Annotations = Map.empty, crd_Group = ''example.com'', crd_ListKind = ''ThingList'',
     crd_Versions = vs, crd_Conversion = None, crd_StoredVersions = [''v1'']\<rparr>"

definition demo_cr :: kobject where
  "demo_cr = \<lparr>ko_GVK = CRD_GVK, ko_Meta = \<lparr>om_Name = ''t'', om_Namespace = ''ns'', om_UID = [], om_ResourceVersion = [], om_Generation = 1,
     om_Labels = Map.empty, om_Annotations = Map.empty, om_Finalizers = [], om_OwnerReferences = [], om_DeletionTimestamp = None\<rparr>,
     ko_Status = None, ko_Body = JNull\<rparr>"

text \<open>A cluster with version \<open>v1\<close> (schema 1) and one object, which schemas up to 2 accept.\<close>

definition demo_crd_libs :: "nat crd_libs" where
  "demo_crd_libs = \<lparr>xl_Get = (\<lambda>_. Inr (demo_crd [demo_version ''v1'' 1])), xl_ConvertCRD = (\<lambda>_. None), xl_ConvertVersion = (\<lambda>_. None),
     xl_List = (\<lambda>_. Inr [demo_cr]), xl_NewValidator = (\<lambda>_. None),
     xl_ValidateCR = (\<lambda>sch _. if sch \<le> 2 then None else Some (Msg ''bad''))\<rparr>"

theorem crd_update_admitted_iff_witness:
  "CrdValidator_Handle (\<lambda>_ :: unit. Inr (demo_crd [demo_version ''v1'' 2, demo_version ''v2'' 2])) demo_crd_libs sorted_list_of_set ''things'' ''UPDATE'' ()
     = Ok Allowed \<and>
   CrdValidator_Handle (\<lambda>_ :: unit. Inr (demo_crd [demo_version ''v2'' 2])) demo_crd_libs sorted_list_of_set ''things'' ''UPDATE'' () \<noteq> Ok Allowed \<and>
   CrdValidator_Handle (\<lambda>_ :: unit. Inr (demo_crd [demo_version ''v1'' 3])) demo_crd_libs sorted_list_of_set ''things'' ''UPDATE'' () \<noteq> Ok Allowed"
proof -
  note admitted = crd_update_admitted_iff [where iter = sorted_list_of_set, OF sorted_list_of_set.set_sorted_key_list_of_set]
  have "compatible_update demo_crd_libs (demo_crd [demo_version ''v1'' 1]) (demo_crd [demo_version ''v1'' 2, demo_version ''v2'' 2])"
    by (auto simp: compatible_update_def listed_objects_valid_def demo_crd_libs_def demo_crd_def demo_version_def versions_map_def
        split: if_splits)
  moreover have "\<not> compatible_update demo_crd_libs (demo_crd [demo_version ''v1'' 1]) (demo_crd [demo_version ''v1'' 3])"
    by (auto simp: compatible_update_def listed_objects_valid_def demo_crd_libs_def demo_crd_def demo_version_def versions_map_def served_in_def)
  moreover have "xl_Get demo_crd_libs n = Inr (demo_crd [demo_version ''v1'' 1])" "xl_ConvertCRD demo_crd_libs c = None" for n c
    by (simp_all add: demo_crd_libs_def)
  moreover have "set (crd_StoredVersions (demo_crd vs)) = {''v1''}" "version_names (demo_crd vs) = cv_Name ` set vs" "\<not> disabled (demo_crd vs)" for vs
    by (simp_all add: demo_crd_def version_names_def disabled_def Disabled_def)
  ultimately show ?thesis
    by (simp add: admitted demo_version_def)
qed

text \<open>A version without schema makes the check of a listed object dereference nil.\<close>

lemma missing_schema_panics:
  assumes "cv_Schema v = None" and "xl_ConvertVersion X v = None" and "xl_List X g = Inr (cr # items)"
  shows "validateExistingCRs X g v = Panic ''nil pointer dereference''"
  using assms by (simp add: validateExistingCRs_def validate_cr_def)

section \<open>What a passing preflight means\<close>

text \<open>The definition an object of a release carries, and its counterpart in the cluster.\<close>

definition crd_pair :: "'s preflight_libs \<Rightarrow> kobject \<Rightarrow> 's CRD \<Rightarrow> 's CRD \<Rightarrow> bool" where
  "crd_pair P obj oldCrd newCrd \<longleftrightarrow>
     (\<exists>u. pl_ToUnstructured P obj = Inr u \<and> pl_FromUnstructured P u = Inr newCrd) \<and> pl_GetCRD P (crd_Name newCrd) = Inr oldCrd"

lemma preflight_object_Ok:
  "preflight_object P p obj = Ok es \<longleftrightarrow>
     (if ko_GVK obj = CRD_GVK
      then \<exists>oldCrd newCrd. crd_pair P obj oldCrd newCrd \<and>
             es = (case pl_run P (pf_validator p) oldCrd newCrd of None \<Rightarrow> []
                   | Some err \<Rightarrow> [Wrap (''validating upgrade for CRD '' @ fmt_q (crd_Name newCrd) @ '' failed: '' @ Error err) err])
      else es = [])"
  by (auto simp: preflight_object_def crd_pair_def split: sum.splits option.splits)

lemma preflight_object_passes:
  "preflight_object P p obj = Ok [] \<longleftrightarrow>
     (ko_GVK obj = CRD_GVK \<longrightarrow> (\<exists>oldCrd newCrd. crd_pair P obj oldCrd newCrd \<and> pl_run P (pf_validator p) oldCrd newCrd = None))"
  by (auto simp: preflight_object_Ok split: option.splits)

lemma preflight_objects_pass:
  "(\<exists>ess. omap (preflight_object P p) objs = Ok ess \<and> concat ess = []) \<longleftrightarrow> (\<forall>obj\<in>set objs. preflight_object P p obj = Ok [])"
  by (induction objs) auto

lemma Preflight_Upgrade_Ok:
  "Preflight_Upgrade P p (Some rel) = Ok () \<longleftrightarrow>
     (\<exists>objs. ManifestObjects (pl_builder P) (rel_Manifest rel) (rel_Name rel @ ''-release-manifest'') = Ok objs \<and>
        (\<forall>obj\<in>set objs. preflight_object P p obj = Ok []))"
proof (cases "ManifestObjects (pl_builder P) (rel_Manifest rel) (rel_Name rel @ ''-release-manifest'')")
  case (Ok objs)
  then have "Preflight_Upgrade P p (Some rel) = Ok () \<longleftrightarrow> (\<exists>ess. omap (preflight_object P p) objs = Ok ess \<and> concat ess = [])"
    by (auto simp: Preflight_Upgrade_def errors_Join_def)
  with Ok show ?thesis
    using preflight_objects_pass [of P p objs] by simp
qed (simp_all add: Preflight_Upgrade_def)

text \<open>
  What is documented of kapp's validator: a change passes when each of its validations accepts it. \<open>func\<close> is what the validation with a name says of an old and a new
  definition, \<open>change\<close> what the validator of changed fields says with a list of field validations.
\<close>

definition kapp_law ::
  "'s preflight_libs \<Rightarrow> (string \<Rightarrow> 's CRD \<Rightarrow> 's CRD \<Rightarrow> gerror option) \<Rightarrow> (string list \<Rightarrow> 's CRD \<Rightarrow> 's CRD \<Rightarrow> gerror option) \<Rightarrow> bool" where
  "kapp_law P func change \<longleftrightarrow>
     (\<forall>v old new. pl_run P v old new = None \<longleftrightarrow>
        (\<forall>x\<in>set v. case x of ValidationFunc name \<Rightarrow> func name old new = None | ChangeValidator names \<Rightarrow> change names old new = None))"

text \<open>C24. A release upgrade passes a preflight check exactly when its manifest is read as client objects and, for every custom resource
  definition in it, the cluster has a definition of that name and the validator of the check accepts the change. The check that is made without options accepts a change exactly when it
  is no change of scope, no stored version and no field is removed, and the changed fields pass the eleven field validations; the last validator that is given as an option takes the place of these. An
  installation always passes.\<close>

theorem preflight_upgrade_passes_iff:
  assumes "kapp_law P func change"
  shows "(Preflight_Upgrade P p (Some rel) = Ok () \<longleftrightarrow>
     (\<exists>objs. pl_builder P (rel_Manifest rel) (rel_Name rel @ ''-release-manifest'') = (None, Inr (map Some objs)) \<and>
        (\<forall>obj\<in>set objs. ko_GVK obj = \<lparr>gvk_Group = ''apiextensions.k8s.io'', gvk_Version = ''v1'', gvk_Kind = ''CustomResourceDefinition''\<rparr> \<longrightarrow>
           (\<exists>u new old. pl_ToUnstructured P obj = Inr u \<and> pl_FromUnstructured P u = Inr new \<and> pl_GetCRD P (crd_Name new) = Inr old \<and>
              pl_run P (pf_validator p) old new = None)))) \<and>
     (pl_run P (pf_validator (NewPreflight [])) old new = None \<longleftrightarrow>
        func ''NoScopeChange'' old new = None \<and> func ''NoStoredVersionRemoved'' old new = None \<and> func ''NoExistingFieldRemoved'' old new = None \<and>
        change [''EnumChangeValidation'', ''RequiredFieldChangeValidation'', ''MaximumChangeValidation'', ''MaximumItemsChangeValidation'', ''MaximumLengthChangeValidation'',
          ''MaximumPropertiesChangeValidation'', ''MinimumChangeValidation'', ''MinimumItemsChangeValidation'', ''MinimumLengthChangeValidation'',
          ''MinimumPropertiesChangeValidation'', ''DefaultValueChangeValidation''] old new = None) \<and>
     pf_validator (NewPreflight (opts @ [WithValidator v])) = v \<and> Preflight_Install p rel' = Ok ()"
proof (intro conjI)
  show "Preflight_Upgrade P p (Some rel) = Ok () \<longleftrightarrow>
     (\<exists>objs. pl_builder P (rel_Manifest rel) (rel_Name rel @ ''-release-manifest'') = (None, Inr (map Some objs)) \<and>
        (\<forall>obj\<in>set objs. ko_GVK obj = \<lparr>gvk_Group = ''apiextensions.k8s.io'', gvk_Version = ''v1'', gvk_Kind = ''CustomResourceDefinition''\<rparr> \<longrightarrow>
           (\<exists>u new old. pl_ToUnstructured P obj = Inr u \<and> pl_FromUnstructured P u = Inr new \<and> pl_GetCRD P (crd_Name new) = Inr old \<and>
              pl_run P (pf_validator p) old new = None)))"
    unfolding CRD_GVK_def [symmetric] ManifestObjects_Ok [symmetric] by (auto simp: Preflight_Upgrade_Ok preflight_object_passes crd_pair_def) blast+
qed (use assms in \<open>simp_all add: kapp_law_def NewPreflight_def WithValidator_def Preflight_Install_def\<close>)

definition demo_preflight_libs :: "nat preflight_libs" where
  "demo_preflight_libs = \<lparr>pl_builder = (\<lambda>_ _. (None, Inr [Some demo_cr])), pl_ToUnstructured = (\<lambda>_. Inr JNull),
     pl_FromUnstructured = (\<lambda>_. Inr (demo_crd [demo_version ''v1'' 2])), pl_GetCRD = (\<lambda>_. Inr (demo_crd [demo_version ''v1'' 1])),
     pl_run = (\<lambda>v old new. if ChangeValidator [] \<in> set v then Some (Msg ''unhandled change'') else None)\<rparr>"

definition demo_release :: release where
  "demo_release = \<lparr>rel_Name = ''r'', rel_Manifest = ''kind: CustomResourceDefinition'', rel_Status = ''deployed''\<rparr>"

lemma demo_kapp_law:
  "kapp_law demo_preflight_libs (\<lambda>name old new. None) (\<lambda>names old new. if names = [] then Some (Msg ''unhandled change'') else None)"
  by (auto simp: kapp_law_def demo_preflight_libs_def split: kapp_validation.splits if_splits)

theorem preflight_upgrade_passes_iff_witness:
  "Preflight_Upgrade demo_preflight_libs (NewPreflight []) (Some demo_release) = Ok () \<and>
   Preflight_Upgrade demo_preflight_libs (NewPreflight [WithValidator [ChangeValidator []]]) (Some demo_release) \<noteq> Ok ()"
proof -
  let ?P = demo_preflight_libs
  note pass = preflight_upgrade_passes_iff [OF demo_kapp_law, THEN conjunct1]
    and default = preflight_upgrade_passes_iff [OF demo_kapp_law, THEN conjunct2, THEN conjunct1]
    and option = preflight_upgrade_passes_iff [OF demo_kapp_law, THEN conjunct2, THEN conjunct2, THEN conjunct1, of "[]", simplified]
  have "pl_builder ?P m n = (None, Inr (map Some objs)) \<longleftrightarrow> objs = [demo_cr]" "pl_ToUnstructured ?P obj = Inr JNull" "pl_FromUnstructured ?P JNull = Inr (demo_crd [demo_version ''v1'' 2])"
    "pl_GetCRD ?P nm = Inr (demo_crd [demo_version ''v1'' 1])" for m n obj nm objs
    by (auto simp: demo_preflight_libs_def Cons_eq_map_conv)
  moreover have "ko_GVK demo_cr = \<lparr>gvk_Group = ''apiextensions.k8s.io'', gvk_Version = ''v1'', gvk_Kind = ''CustomResourceDefinition''\<rparr>"
    by (simp add: demo_cr_def CRD_GVK_def)
  moreover have "pl_run ?P (pf_validator (NewPreflight [])) old new = None" for old new
    unfolding default by simp
  moreover have "pl_run ?P (pf_validator (NewPreflight [WithValidator [ChangeValidator []]])) old new \<noteq> None" for old new
    unfolding option by (simp add: demo_preflight_libs_def)
  ultimately show ?thesis
    unfolding pass by (auto simp del: not_None_eq)
qed

text \<open>An upgrade whose release adds a custom resource definition the cluster does not have is an error: the lookup of
  the existing definition fails, whatever the validator.\<close>

lemma new_crd_in_upgrade_rejected:
  assumes "ko_GVK obj = CRD_GVK" and "pl_ToUnstructured P obj = Inr u" and "pl_FromUnstructured P u = Inr crd"
    and "pl_GetCRD P (crd_Name crd) = Inl e"
  shows "\<exists>msg. preflight_object P p obj = Err (Wrap msg e)"
  using assms by (simp add: preflight_object_def)

end
