(* ===== verification/Go_Path.thy ===== *)
theory Go_Path
  imports Go_Prelude
begin

text \<open>
  The lexical path functions of \<open>path/filepath\<close> on Unix that the sources call:
  \<open>Clean\<close>, \<open>Join\<close>, \<open>Split\<close>, and \<open>fs.ValidPath\<close>. \<open>Clean\<close> is given by its documented
  rules on the slash-separated elements. The lemmas show that it is idempotent
  and that the first element of a cleaned relative path decides whether the path
  leaves the directory it is resolved in.
\<close>

section \<open>Definitions\<close>

abbreviation dotdot :: string where "dotdot \<equiv> ''..''"

text \<open>
  One pass over the elements with a stack (last element first): empty and \<open>.\<close>
  elements are dropped, \<open>..\<close> removes the element before it, \<open>..\<close> at the start of a
  rooted path is dropped and is kept in a relative one.
\<close>

fun clean_comps :: "bool \<Rightarrow> string list \<Rightarrow> string list \<Rightarrow> string list" where
  "clean_comps rooted st [] = rev st"
| "clean_comps rooted st (c # cs) =
     (if c = [] \<or> c = ''.'' then clean_comps rooted st cs
      else if c = dotdot then
        (case st of
           [] \<Rightarrow> if rooted then clean_comps rooted [] cs else clean_comps rooted [dotdot] cs
         | t # ts \<Rightarrow> if t = dotdot then clean_comps rooted (dotdot # st) cs else clean_comps rooted ts cs)
      else clean_comps rooted (c # st) cs)"

definition is_rooted :: "string \<Rightarrow> bool" where
  "is_rooted p = HasPrefix p ''/''"

definition path_elems :: "string \<Rightarrow> string list" where
  "path_elems p = split_on CHR ''/'' p"

definition Clean :: "string \<Rightarrow> string" where
  "Clean p =
     (if p = [] then ''.''
      else (let cs = clean_comps (is_rooted p) [] (path_elems p)
            in if is_rooted p then ''/'' @ join_with ''/'' cs
               else if cs = [] then ''.'' else join_with ''/'' cs))"

fun Join :: "string list \<Rightarrow> string" where
  "Join [] = []"
| "Join (e # es) = (if e = [] then Join es else Clean (join_with ''/'' (e # es)))"

text \<open>\<open>filepath.Split\<close>: the part up to and including the last slash, and the rest.\<close>

definition path_Split :: "string \<Rightarrow> string \<times> string" where
  "path_Split p =
     (let file = rev (takeWhile (\<lambda>c. c \<noteq> CHR ''/'') (rev p))
      in (take (length p - length file) p, file))"

definition ValidPath :: "string \<Rightarrow> bool" where
  "ValidPath name = (name = ''.'' \<or> list_all (\<lambda>e. e \<noteq> [] \<and> e \<noteq> ''.'' \<and> e \<noteq> dotdot) (path_elems name))"

text \<open>
  Resolving a path against a directory, given as the stack of its elements: \<open>..\<close>
  goes to the parent, and the parent of the root is the root.
\<close>

fun resolve :: "string list \<Rightarrow> string list \<Rightarrow> string list" where
  "resolve st [] = st"
| "resolve st (c # cs) =
     (if c = [] \<or> c = ''.'' then resolve st cs
      else if c = dotdot then resolve (tl st) cs
      else resolve (c # st) cs)"

text \<open>A path is contained when it stays below every directory it can be resolved in.\<close>

definition contained :: "string \<Rightarrow> bool" where
  "contained p \<longleftrightarrow> (\<forall>base. \<exists>ext. resolve base (path_elems p) = ext @ base)"

section \<open>Cleaned paths are in normal form\<close>

fun ok_stack :: "bool \<Rightarrow> string list \<Rightarrow> bool" where
  "ok_stack rooted [] = True"
| "ok_stack rooted (x # xs) =
     (x \<noteq> [] \<and> x \<noteq> ''.'' \<and> CHR ''/'' \<notin> set x
      \<and> (x = dotdot \<longrightarrow> \<not> rooted \<and> set xs \<subseteq> {dotdot}) \<and> ok_stack rooted xs)"

lemma ok_stack_append: "ok_stack r (xs @ ys) \<Longrightarrow> ok_stack r ys"
  by (induction xs) auto

lemma clean_comps_ok:
  assumes "ok_stack r st" and "\<And>c. c \<in> set cs \<Longrightarrow> CHR ''/'' \<notin> set c"
  shows "ok_stack r (rev (clean_comps r st cs))"
  using assms by (induction r st cs rule: clean_comps.induct) (auto split: list.splits)

lemma clean_comps_normal:
  "ok_stack r (rev cs @ st) \<Longrightarrow> clean_comps r st cs = rev st @ cs"
proof (induction cs arbitrary: st)
  case (Cons c cs)
  then have ok: "ok_stack r (rev cs @ (c # st))" by simp
  then have "ok_stack r (c # st)" by (rule ok_stack_append)
  with Cons.IH [OF ok] show ?case by (cases st) auto
qed simp

lemma path_elems_slash_free: "c \<in> set (path_elems p) \<Longrightarrow> CHR ''/'' \<notin> set c"
  by (simp add: path_elems_def split_on_sep_free)

lemma clean_elems_ok: "ok_stack r (rev (clean_comps r [] (path_elems p)))"
  by (rule clean_comps_ok) (auto dest: path_elems_slash_free)

lemma ok_stack_slash_free: "ok_stack r st \<Longrightarrow> x \<in> set st \<Longrightarrow> CHR ''/'' \<notin> set x \<and> x \<noteq> [] \<and> x \<noteq> ''.''"
  by (induction st) auto

lemma join_slash_rooted:
  assumes "cs \<noteq> []" and "\<And>c. c \<in> set cs \<Longrightarrow> CHR ''/'' \<notin> set c \<and> c \<noteq> []"
  shows "\<not> is_rooted (join_with ''/'' cs)" and "join_with ''/'' cs \<noteq> []"
proof -
  obtain x xs where cs: "cs = x # xs" using assms(1) by (cases cs) auto
  then obtain a y where x: "x = a # y" using assms(2) by (cases x) auto
  from cs x assms(2) [of x] have "a \<noteq> CHR ''/''" by auto
  with cs x show "\<not> is_rooted (join_with ''/'' cs)" and "join_with ''/'' cs \<noteq> []"
    by (auto simp: is_rooted_def HasPrefix_def join_with_Cons)
qed

lemma Clean_normal_relative:
  assumes "cs \<noteq> []" and "ok_stack False (rev cs)"
  shows "Clean (join_with ''/'' cs) = join_with ''/'' cs"
proof -
  have sf: "\<And>c. c \<in> set cs \<Longrightarrow> CHR ''/'' \<notin> set c \<and> c \<noteq> []"
    using ok_stack_slash_free [OF assms(2)] by auto
  have "path_elems (join_with ''/'' cs) = cs"
    unfolding path_elems_def by (rule split_on_join_with) (use assms(1) sf in auto)
  moreover have "clean_comps False [] cs = cs"
    using clean_comps_normal [of False cs "[]"] assms(2) by simp
  ultimately show ?thesis
    using join_slash_rooted [OF assms(1) sf] assms(1) by (simp add: Clean_def Let_def)
qed

lemma Clean_normal_rooted:
  assumes "ok_stack True (rev cs)"
  shows "Clean (''/'' @ join_with ''/'' cs) = ''/'' @ join_with ''/'' cs"
proof -
  have sf: "\<And>c. c \<in> set cs \<Longrightarrow> CHR ''/'' \<notin> set c"
    using ok_stack_slash_free [OF assms] by auto
  have "path_elems (''/'' @ join_with ''/'' cs) = [] # (if cs = [] then [[]] else cs)"
    unfolding path_elems_def using split_on_join_with [of cs "CHR ''/''"] sf by auto
  moreover have "clean_comps True [] cs = cs"
    using clean_comps_normal [of True cs "[]"] assms by simp
  ultimately show ?thesis
    by (simp add: Clean_def Let_def is_rooted_def HasPrefix_def)
qed

text \<open>Cleaning a cleaned path changes nothing.\<close>

lemma Clean_idem: "Clean (Clean p) = Clean p"
proof (cases "is_rooted p")
  case True
  then show ?thesis
    using Clean_normal_rooted [OF clean_elems_ok [of True p]]
    by (cases "p = []") (auto simp: Clean_def [of p] Let_def is_rooted_def HasPrefix_def)
next
  case False
  let ?cs = "clean_comps False [] (path_elems p)"
  have dot: "Clean ''.'' = ''.''" by (simp add: Clean_def is_rooted_def HasPrefix_def path_elems_def)
  show ?thesis
  proof (cases "p = [] \<or> ?cs = []")
    case True
    with False dot show ?thesis by (auto simp: Clean_def [of p] Let_def)
  next
    case nonempty: False
    with False have "Clean p = join_with ''/'' ?cs" by (simp add: Clean_def Let_def)
    with nonempty Clean_normal_relative [OF _ clean_elems_ok [of False p]] show ?thesis by simp
  qed
qed

section \<open>Leaving the directory\<close>

text \<open>The stack of \<open>clean_comps\<close> on a relative path: plain elements above \<open>n\<close> times \<open>..\<close>.\<close>

lemma resolve_clean_comps:
  assumes "dotdot \<notin> set names" and "resolve base done = names @ drop n base"
  shows "\<exists>names' m. dotdot \<notin> set names'
           \<and> rev (clean_comps False (names @ replicate n dotdot) cs) = names' @ replicate m dotdot
           \<and> resolve (names @ drop n base) cs = names' @ drop m base"
  using assms(1)
proof (induction cs arbitrary: names n)
  case Nil
  then show ?case by auto
next
  case (Cons c cs)
  consider (skip) "c = [] \<or> c = ''.''" | (up) "c = dotdot" | (name) "c \<noteq> []" "c \<noteq> ''.''" "c \<noteq> dotdot"
    by blast
  then show ?case
  proof cases
    case skip
    with Cons show ?thesis by auto
  next
    case name
    with Cons.IH [of "c # names" n] Cons.prems show ?thesis by auto
  next
    case up
    show ?thesis
    proof (cases names)
      case (Cons t ts)
      with Cons.IH [of ts n] Cons.prems up show ?thesis by auto
    next
      case Nil
      have "tl (drop n base) = drop (Suc n) base" by (simp add: drop_Suc tl_drop)
      with Cons.IH [of "[]" "Suc n"] Nil up show ?thesis by (cases n) auto
    qed
  qed
qed

lemma clean_relative_shape:
  assumes "\<not> is_rooted p" and "p \<noteq> []"
  obtains names n where "dotdot \<notin> set names"
    and "rev (clean_comps False [] (path_elems p)) = names @ replicate n dotdot"
    and "\<And>base. resolve base (path_elems p) = names @ drop n base"
proof -
  obtain names n where 1: "dotdot \<notin> set names"
      "rev (clean_comps False [] (path_elems p)) = names @ replicate n dotdot"
    using resolve_clean_comps [of "[]" "[]" "[]" 0 "path_elems p"] by auto
  have "resolve base (path_elems p) = names @ drop n base" for base
  proof -
    obtain names' m where 2: "dotdot \<notin> set names'"
        "rev (clean_comps False [] (path_elems p)) = names' @ replicate m dotdot"
        "resolve base (path_elems p) = names' @ drop m base"
      using resolve_clean_comps [of "[]" base "[]" 0 "path_elems p"] by auto
    have "takeWhile (\<lambda>x. x \<noteq> dotdot) (xs @ replicate k dotdot) = xs" if "dotdot \<notin> set xs" for xs k
      using that by (induction xs) (auto simp: takeWhile_replicate)
    from this [OF 1(1), of n] this [OF 2(1), of m] 1(2) 2(2) have "names' = names" by simp
    with 1(2) 2(2) have "m = n" by (metis append_same_eq length_replicate same_append_eq)
    with \<open>names' = names\<close> 2(3) show ?thesis by simp
  qed
  with 1 that show ?thesis by blast
qed

lemma fresh_string: "\<exists>x :: string. x \<notin> set names"
  by (metis ex_new_if_finite finite_set infinite_UNIV_listI)

lemma HasPrefix_dotdot_join:
  assumes "\<And>c. c \<in> set (x # xs) \<Longrightarrow> CHR ''/'' \<notin> set c"
  shows "(join_with ''/'' (x # xs) = dotdot \<or> HasPrefix (join_with ''/'' (x # xs)) ''../'') \<longleftrightarrow> x = dotdot"
proof -
  have "split_on CHR ''/'' (join_with ''/'' (x # xs)) = x # xs"
    by (rule split_on_join_with) (use assms in auto)
  then have "join_with ''/'' (x # xs) = ''../'' @ t \<Longrightarrow> x = dotdot" for t
    by simp
  moreover have "join_with ''/'' (x # xs) = dotdot \<Longrightarrow> x = dotdot"
    using \<open>split_on CHR ''/'' (join_with ''/'' (x # xs)) = x # xs\<close> by simp
  moreover have "join_with ''/'' (x # xs) = dotdot \<or> HasPrefix (join_with ''/'' (x # xs)) ''../''" if "x = dotdot"
    using that by (auto simp: join_with_Cons HasPrefix_def)
  ultimately show ?thesis
    unfolding HasPrefix_iff by blast
qed

text \<open>
  A relative path is contained exactly when its cleaned form is neither \<open>..\<close> nor
  starts with \<open>../\<close>.
\<close>

lemma contained_iff_Clean:
  assumes "\<not> is_rooted p"
  shows "contained p \<longleftrightarrow> \<not> (Clean p = dotdot \<or> HasPrefix (Clean p) ''../'')"
proof (cases "p = []")
  case True
  then show ?thesis
    by (simp add: contained_def path_elems_def Clean_def HasPrefix_def)
next
  case False
  let ?cs = "clean_comps False [] (path_elems p)"
  obtain names n where dd: "dotdot \<notin> set names" and cs: "rev ?cs = names @ replicate n dotdot"
    and res: "\<And>base. resolve base (path_elems p) = names @ drop n base"
    using clean_relative_shape [OF assms False] by blast
  have "contained p \<longleftrightarrow> n = 0"
  proof
    assume c: "contained p"
    obtain x where x: "x \<notin> set names" using fresh_string by blast
    from c obtain ext where "resolve [x] (path_elems p) = ext @ [x]"
      unfolding contained_def by blast
    with res [of "[x]"] have "names @ drop n [x] = ext @ [x]" by simp
    with x show "n = 0"
      by (cases n) auto
  qed (use res in \<open>auto simp: contained_def\<close>)
  moreover have cs': "?cs = replicate n dotdot @ rev names"
    using arg_cong [OF cs, of rev] by simp
  have "(Clean p = dotdot \<or> HasPrefix (Clean p) ''../'') \<longleftrightarrow> n \<noteq> 0"
  proof (cases ?cs)
    case Nil
    with cs' False assms show ?thesis by (simp add: Clean_def HasPrefix_def)
  next
    case (Cons x xs)
    have "\<And>c. c \<in> set ?cs \<Longrightarrow> CHR ''/'' \<notin> set c"
      using ok_stack_slash_free [OF clean_elems_ok [of False p]] by auto
    with Cons have "(join_with ''/'' ?cs = dotdot \<or> HasPrefix (join_with ''/'' ?cs) ''../'') \<longleftrightarrow> x = dotdot"
      using HasPrefix_dotdot_join [of x xs] by simp
    moreover have "Clean p = join_with ''/'' ?cs"
      using Cons assms False by (simp add: Clean_def)
    moreover have "x = dotdot \<longleftrightarrow> n \<noteq> 0"
    proof (cases n)
      case 0
      with Cons cs' have "x \<in> set (rev names)" by simp
      with 0 dd show ?thesis by auto
    qed (use Cons cs' in simp)
    ultimately show ?thesis by simp
  qed
  ultimately show ?thesis by blast
qed

end
