(* ===== verification/Go_FS.thy ===== *)
theory Go_FS
  imports Go_Path
begin

text \<open>
  The parts of the standard library's \<open>io/fs\<close>, \<open>testing/fstest\<close> and \<open>archive/tar\<close>
  that the sources use. A value of the interface \<open>fs.FS\<close> is the pair of its
  observations: what \<open>Open\<close> and what \<open>fs.ReadDir\<close> give for each name. Implementations
  of the interface are functions into this record. \<open>fs.WalkDir\<close> is a recursion with
  a bound on the depth; \<open>walk_bounded\<close> says when the bound is enough.
\<close>

section \<open>The file-system interface\<close>

datatype FileType = RegularFile | Directory | Symlink | Socket | OtherFile

record FileInfo =
  fi_Name :: string
  fi_Type :: FileType
  fi_Perm :: nat
  fi_Uid :: nat
  fi_Gid :: nat
  fi_Uname :: string
  fi_Gname :: string

record DirEntry =
  de_Name :: string
  de_Type :: FileType
  de_Info :: "FileInfo result"

record fs_File =
  file_Stat :: "FileInfo result"
  file_Data :: "string result"

record fs_FS =
  fs_Open :: "string \<Rightarrow> fs_File result"
  fs_ReadDir :: "string \<Rightarrow> DirEntry list result"

abbreviation de_IsDir :: "DirEntry \<Rightarrow> bool" where
  "de_IsDir d \<equiv> de_Type d = Directory"

definition fs_ReadFile :: "fs_FS \<Rightarrow> string \<Rightarrow> string result" where
  "fs_ReadFile fsys name = (case fs_Open fsys name of Inl e \<Rightarrow> Inl e | Inr f \<Rightarrow> file_Data f)"

definition fs_Stat :: "fs_FS \<Rightarrow> string \<Rightarrow> FileInfo result" where
  "fs_Stat fsys name = (case fs_Open fsys name of Inl e \<Rightarrow> Inl e | Inr f \<Rightarrow> file_Stat f)"

definition FileInfoToDirEntry :: "FileInfo \<Rightarrow> DirEntry" where
  "FileInfoToDirEntry fi = \<lparr>de_Name = fi_Name fi, de_Type = fi_Type fi, de_Info = Inr fi\<rparr>"

section \<open>fstest.MapFS\<close>

text \<open>
  A file system given by its files, as an association list with one entry per path.
  A directory is a path with a directory entry or a proper prefix of a stored path.
\<close>

record MapFile =
  mf_Data :: string
  mf_Type :: FileType
  mf_Perm :: nat

definition plain_info :: "string \<Rightarrow> FileType \<Rightarrow> nat \<Rightarrow> FileInfo" where
  "plain_info name t perm = \<lparr>fi_Name = name, fi_Type = t, fi_Perm = perm, fi_Uid = 0, fi_Gid = 0,
     fi_Uname = [], fi_Gname = []\<rparr>"

definition path_base :: "string \<Rightarrow> string" where
  "path_base p = last (path_elems p)"

definition dir_prefix :: "string \<Rightarrow> string" where
  "dir_prefix name = (if name = ''.'' then [] else name @ ''/'')"

definition mapfs_children :: "(string \<times> MapFile) list \<Rightarrow> string \<Rightarrow> string list" where
  "mapfs_children m name =
     sorted_list_of_set (set (map (\<lambda>k. hd (path_elems (drop (length (dir_prefix name)) k)))
       (filter (\<lambda>k. k \<noteq> ''.'' \<and> HasPrefix k (dir_prefix name)) (map fst m))))"

definition mapfs_dir_info :: "(string \<times> MapFile) list \<Rightarrow> string \<Rightarrow> FileInfo" where
  "mapfs_dir_info m name =
     plain_info (path_base name) Directory (case map_of m name of None \<Rightarrow> 365 | Some f \<Rightarrow> mf_Perm f)"

definition MapFS_Open :: "(string \<times> MapFile) list \<Rightarrow> string \<Rightarrow> fs_File result" where
  "MapFS_Open m name =
     (if \<not> ValidPath name then Inl (Msg (''open '' @ name @ '': invalid argument''))
      else
        (case map_of m name of
           Some f \<Rightarrow>
             if mf_Type f \<noteq> Directory
             then Inr \<lparr>file_Stat = Inr (plain_info (path_base name) (mf_Type f) (mf_Perm f)), file_Data = Inr (mf_Data f)\<rparr>
             else Inr \<lparr>file_Stat = Inr (mapfs_dir_info m name),
                       file_Data = Inl (Msg (''read '' @ name @ '': invalid argument''))\<rparr>
         | None \<Rightarrow>
             if name \<noteq> ''.'' \<and> mapfs_children m name = []
             then Inl (NotExist (''open '' @ name @ '': file does not exist''))
             else Inr \<lparr>file_Stat = Inr (mapfs_dir_info m name),
                       file_Data = Inl (Msg (''read '' @ name @ '': invalid argument''))\<rparr>))"

definition mapfs_entry :: "(string \<times> MapFile) list \<Rightarrow> string \<Rightarrow> string \<Rightarrow> DirEntry" where
  "mapfs_entry m name child =
     FileInfoToDirEntry
       (case map_of m (dir_prefix name @ child) of
          None \<Rightarrow> plain_info child Directory 365
        | Some f \<Rightarrow> plain_info child (mf_Type f) (mf_Perm f))"

definition MapFS_ReadDir :: "(string \<times> MapFile) list \<Rightarrow> string \<Rightarrow> DirEntry list result" where
  "MapFS_ReadDir m name =
     (case MapFS_Open m name of
        Inl e \<Rightarrow> Inl e
      | Inr f \<Rightarrow>
          (case file_Stat f of
             Inl e \<Rightarrow> Inl e
           | Inr fi \<Rightarrow>
               if fi_Type fi = Directory then Inr (map (mapfs_entry m name) (mapfs_children m name))
               else Inl (Msg (''readdir '' @ name @ '': not implemented''))))"

definition MapFS :: "(string \<times> MapFile) list \<Rightarrow> fs_FS" where
  "MapFS m = \<lparr>fs_Open = MapFS_Open m, fs_ReadDir = MapFS_ReadDir m\<rparr>"

lemma MapFS_sel [simp]: "fs_Open (MapFS m) = MapFS_Open m" "fs_ReadDir (MapFS m) = MapFS_ReadDir m"
  by (simp_all add: MapFS_def)

lemma MapFS_Open_file:
  "ValidPath name \<Longrightarrow> map_of m name = Some f \<Longrightarrow> mf_Type f \<noteq> Directory
   \<Longrightarrow> MapFS_Open m name
       = Inr \<lparr>file_Stat = Inr (plain_info (path_base name) (mf_Type f) (mf_Perm f)), file_Data = Inr (mf_Data f)\<rparr>"
  by (simp add: MapFS_Open_def)

section \<open>fs.WalkDir\<close>

text \<open>What a visit function returns: nil, \<open>fs.SkipDir\<close>, or another error.\<close>

datatype walk_ret = WNil | WSkipDir | WErr gerror

type_synonym 's walk_fn = "string \<Rightarrow> DirEntry option \<Rightarrow> gerror option \<Rightarrow> 's \<Rightarrow> walk_ret \<times> 's"

function walkDir :: "nat \<Rightarrow> fs_FS \<Rightarrow> 's walk_fn \<Rightarrow> string \<Rightarrow> DirEntry \<Rightarrow> 's \<Rightarrow> (walk_ret \<times> 's) option"
  and walkEntries :: "nat \<Rightarrow> fs_FS \<Rightarrow> 's walk_fn \<Rightarrow> string \<Rightarrow> DirEntry list \<Rightarrow> 's \<Rightarrow> (walk_ret \<times> 's) option"
where
  "walkDir 0 fsys fn name d s = None"
| "walkDir (Suc n) fsys fn name d s =
     (case fn name (Some d) None s of
        (r, s1) \<Rightarrow>
          if r \<noteq> WNil \<or> \<not> de_IsDir d
          then Some (if r = WSkipDir \<and> de_IsDir d then WNil else r, s1)
          else
            (case fs_ReadDir fsys name of
               Inl e \<Rightarrow>
                 (case fn name (Some d) (Some e) s1 of
                    (r2, s2) \<Rightarrow> Some (if r2 = WSkipDir \<and> de_IsDir d then WNil else r2, s2))
             | Inr dirs \<Rightarrow> walkEntries n fsys fn name dirs s1))"
| "walkEntries n fsys fn name [] s = Some (WNil, s)"
| "walkEntries n fsys fn name (d1 # ds) s =
     (case walkDir n fsys fn (Join [name, de_Name d1]) d1 s of
        None \<Rightarrow> None
      | Some (r, s') \<Rightarrow>
          (case r of
             WNil \<Rightarrow> walkEntries n fsys fn name ds s'
           | WSkipDir \<Rightarrow> Some (WNil, s')
           | WErr e \<Rightarrow> Some (WErr e, s')))"
  by pat_completeness auto
termination
  by (relation "measures [\<lambda>x. case x of Inl (n, _) \<Rightarrow> n | Inr (n, _) \<Rightarrow> n,
        \<lambda>x. case x of Inl _ \<Rightarrow> 0 | Inr (_, _, _, _, ds, _) \<Rightarrow> Suc (length ds)]") auto

definition WalkDir :: "nat \<Rightarrow> fs_FS \<Rightarrow> string \<Rightarrow> 's walk_fn \<Rightarrow> 's \<Rightarrow> (gerror option \<times> 's) option" where
  "WalkDir n fsys root fn s =
     (case (case fs_Stat fsys root of
              Inl e \<Rightarrow> Some (fn root None (Some e) s)
            | Inr info \<Rightarrow> walkDir n fsys fn root (FileInfoToDirEntry info) s) of
        None \<Rightarrow> None
      | Some (r, s') \<Rightarrow> Some ((case r of WErr e \<Rightarrow> Some e | _ \<Rightarrow> None), s'))"

text \<open>The tree below an entry is at most \<open>n\<close> levels deep.\<close>

fun walk_bounded :: "nat \<Rightarrow> fs_FS \<Rightarrow> string \<Rightarrow> DirEntry \<Rightarrow> bool" where
  "walk_bounded 0 fsys name d = False"
| "walk_bounded (Suc n) fsys name d =
     (de_IsDir d \<longrightarrow>
        (case fs_ReadDir fsys name of
           Inl e \<Rightarrow> True
         | Inr dirs \<Rightarrow> list_all (\<lambda>d1. walk_bounded n fsys (Join [name, de_Name d1]) d1) dirs))"

lemma walkDir_ends:
  "walk_bounded n fsys name d \<Longrightarrow> walkDir n fsys fn name d s \<noteq> None"
  "list_all (\<lambda>d1. walk_bounded n fsys (Join [name, de_Name d1]) d1) ds \<Longrightarrow> walkEntries n fsys fn name ds s \<noteq> None"
proof (induction n fsys fn name d s and n fsys fn name ds s rule: walkDir_walkEntries.induct)
  case (2 n fsys fn name d s)
  then show ?case
    by (auto split: prod.splits sum.splits)
next
  case (4 n fsys fn name d1 ds s)
  then obtain r s' where w: "walkDir n fsys fn (Join [name, de_Name d1]) d1 s = Some (r, s')"
    by fastforce
  show ?case
  proof (cases r)
    case WNil
    with 4 w have "walkEntries n fsys fn name ds s' \<noteq> None" by simp
    with w WNil show ?thesis by simp
  qed (use w in simp_all)
qed auto

text \<open>A predicate on the accumulated state that every visit keeps holds after the walk.\<close>

lemma walkDir_invar:
  "(\<And>p d e s. I s \<Longrightarrow> I (snd (fn p d e s))) \<Longrightarrow> I s \<Longrightarrow> walkDir n fsys fn name d s = Some x \<Longrightarrow> I (snd x)"
  "(\<And>p d e s. I s \<Longrightarrow> I (snd (fn p d e s))) \<Longrightarrow> I s \<Longrightarrow> walkEntries n fsys fn name ds s = Some x \<Longrightarrow> I (snd x)"
proof (induction n fsys fn name d s and n fsys fn name ds s arbitrary: x and x rule: walkDir_walkEntries.induct)
  case (2 n fsys fn name d s)
  obtain r s1 where fn: "fn name (Some d) None s = (r, s1)" by fastforce
  with 2(2) [of s name "Some d" None] 2(3) have s1: "I s1" by simp
  show ?case
  proof (cases "r \<noteq> WNil \<or> \<not> de_IsDir d")
    case True
    with 2(4) fn s1 show ?thesis by auto
  next
    case False
    then show ?thesis
    proof (cases "fs_ReadDir fsys name")
      case (Inl e)
      obtain r2 s2 where fn2: "fn name (Some d) (Some e) s1 = (r2, s2)" by fastforce
      with 2(2) [of s1 name "Some d" "Some e"] s1 have "I s2" by simp
      with False Inl fn fn2 2(4) show ?thesis by auto
    next
      case (Inr dirs)
      with False fn 2(4) have "walkEntries n fsys fn name dirs s1 = Some x" by simp
      with 2(1) False fn Inr 2(2) s1 show ?thesis by simp
    qed
  qed
next
  case (4 n fsys fn name d1 ds s)
  from 4(5) obtain r s' where w: "walkDir n fsys fn (Join [name, de_Name d1]) d1 s = Some (r, s')"
    by (fastforce split: option.splits)
  with 4(1) [OF 4(3,4) w] have s': "I s'" by simp
  show ?case
  proof (cases r)
    case WNil
    with w 4(5) have "walkEntries n fsys fn name ds s' = Some x" by simp
    with 4(2) w WNil 4(3) s' show ?thesis by simp
  qed (use w 4(5) s' in auto)
qed auto

section \<open>Archives\<close>

text \<open>
  One entry of a tar archive: the header fields the program sets or that come from
  the file's information, and the file's data. Compression is transparent: a gzipped
  tar file is its list of entries; any other content of a file is its bytes.
\<close>

record tar_entry =
  te_Name :: string
  te_Type :: FileType
  te_Perm :: nat
  te_Uid :: nat
  te_Gid :: nat
  te_Uname :: string
  te_Gname :: string
  te_Data :: string

datatype blob = TarGz "tar_entry list" | Bytes string

text \<open>\<open>tar.FileInfoHeader\<close> copies the information and refuses sockets.\<close>

definition FileInfoHeader :: "FileInfo \<Rightarrow> tar_entry result" where
  "FileInfoHeader fi =
     (if fi_Type fi = Socket then Inl (Msg ''archive/tar: sockets not supported'')
      else Inr \<lparr>te_Name = (if fi_Type fi = Directory then fi_Name fi @ ''/'' else fi_Name fi), te_Type = fi_Type fi,
                te_Perm = fi_Perm fi, te_Uid = fi_Uid fi, te_Gid = fi_Gid fi,
                te_Uname = fi_Uname fi, te_Gname = fi_Gname fi, te_Data = []\<rparr>)"

text \<open>\<open>gzip.NewReader\<close>: the archive's entries, or an error for any other content.\<close>

fun gzip_NewReader :: "blob \<Rightarrow> tar_entry list result" where
  "gzip_NewReader (TarGz es) = Inr es"
| "gzip_NewReader (Bytes s) = Inl (Msg ''gzip: invalid header'')"

end
