(* ===== verification/Util_FS.thy ===== *)
theory Util_FS
  imports Go_FS
begin

text \<open>
  The file-system helpers of the program: \<open>FilesOnlyFilesystem\<close>, \<open>EnsureBaseDirFS\<close> and
  \<open>baseDirFS\<close> (pkg/util/fs.go), the archive writer \<open>FSToTarGZ\<close> (pkg/util/tar.go), and the
  archive writer of the unpack command (cmd/unpack/main.go). Directory walks carry a
  depth bound; the result \<open>Diverge\<close> means that the bound was reached.
\<close>

section \<open>Serving regular files only\<close>

definition FilesOnlyFilesystem_Open :: "fs_FS \<Rightarrow> string \<Rightarrow> fs_File result" where
  "FilesOnlyFilesystem_Open fsys name =
     (case fs_Open fsys name of
        Inl e \<Rightarrow> Inl e
      | Inr file \<Rightarrow>
          (case file_Stat file of
             Inl e \<Rightarrow> Inl e
           | Inr stat \<Rightarrow>
               if fi_Type stat \<noteq> RegularFile then Inl (NotExist ''file does not exist'') else Inr file))"

text \<open>The wrapper has no \<open>ReadDir\<close> method, so \<open>fs.ReadDir\<close> opens the name through it.\<close>

definition FilesOnlyFilesystem :: "fs_FS \<Rightarrow> fs_FS" where
  "FilesOnlyFilesystem fsys =
     \<lparr>fs_Open = FilesOnlyFilesystem_Open fsys,
      fs_ReadDir = (\<lambda>name. case FilesOnlyFilesystem_Open fsys name of
                            Inl e \<Rightarrow> Inl e
                          | Inr f \<Rightarrow> Inl (Msg (''readdir '' @ name @ '': not implemented'')))\<rparr>"

section \<open>A base directory in the root\<close>

definition base_mapfs :: "string \<Rightarrow> (string \<times> MapFile) list" where
  "base_mapfs baseDir = [(baseDir, \<lparr>mf_Data = [], mf_Type = Directory, mf_Perm = 0\<rparr>)]"

text \<open>The dispatch that \<open>baseDirFS.Open\<close> makes on a name, shared by opening and by \<open>fs.ReadDir\<close>
  (which opens the name and lists the directory it got).\<close>

definition base_dispatch :: "string \<Rightarrow> 'a result \<Rightarrow> (string \<Rightarrow> 'a result) \<Rightarrow> string \<Rightarrow> 'a result" where
  "base_dispatch baseDir root sub name =
     (if name = ''.'' then root
      else if name = baseDir then sub ''.''
      else
        (let basePrefix = baseDir @ ''/'' in
         if HasPrefix name basePrefix then
           (let subName = TrimPrefix name basePrefix in sub (if subName = [] then ''.'' else subName))
         else Inl (NotExist ''file does not exist'')))"

definition baseDirFS_Open :: "fs_FS \<Rightarrow> string \<Rightarrow> string \<Rightarrow> fs_File result" where
  "baseDirFS_Open fsys baseDir name =
     base_dispatch baseDir (MapFS_Open (base_mapfs baseDir) name) (fs_Open fsys) name"

definition baseDirFS :: "fs_FS \<Rightarrow> string \<Rightarrow> fs_FS" where
  "baseDirFS fsys baseDir =
     \<lparr>fs_Open = baseDirFS_Open fsys baseDir,
      fs_ReadDir = (\<lambda>name. base_dispatch baseDir (MapFS_ReadDir (base_mapfs baseDir) name) (fs_ReadDir fsys) name)\<rparr>"

definition EnsureBaseDirFS :: "fs_FS \<Rightarrow> string \<Rightarrow> fs_FS outcome" where
  "EnsureBaseDirFS fsys defaultBaseDir =
     (let cleanDefaultBaseDir = Clean defaultBaseDir in
      if fst (path_Split cleanDefaultBaseDir) \<noteq> []
      then Err (Msg (''default base directory '' @ fmt_q defaultBaseDir
                     @ '' contains multiple path segments: must be exactly one''))
      else
        (case fs_ReadDir fsys ''.'' of
           Inl e \<Rightarrow> Err e
         | Inr rootFSEntries \<Rightarrow>
             (case rootFSEntries of
                [d] \<Rightarrow> if de_IsDir d then Ok fsys else Ok (baseDirFS fsys defaultBaseDir)
              | _ \<Rightarrow> Ok (baseDirFS fsys defaultBaseDir))))"

section \<open>Writing archives\<close>

text \<open>
  The writer the archive goes to: for the archive so far, the error it answers with,
  None when it accepts it. \<open>tar_write\<close> is the part of the visit function both archive
  writers share: header from the file information, owner fields cleared, name set to
  the path, then the data unless the entry is a directory.
\<close>

type_synonym archive_writer = "tar_entry list \<Rightarrow> gerror option"

definition tar_write :: "archive_writer \<Rightarrow> fs_FS \<Rightarrow> string \<Rightarrow> DirEntry \<Rightarrow> tar_entry list \<Rightarrow> walk_ret \<times> tar_entry list" where
  "tar_write w fsys path d s =
     (case de_Info d of
        Inl e \<Rightarrow> (WErr (Msg (''get file info for '' @ fmt_q path @ '': '' @ Error e)), s)
      | Inr info \<Rightarrow>
          (case FileInfoHeader info of
             Inl e \<Rightarrow> (WErr (Msg (''build tar file info header for '' @ fmt_q path @ '': '' @ Error e)), s)
           | Inr h0 \<Rightarrow>
               (let h = h0\<lparr>te_Uid := 0, te_Gid := 0, te_Uname := [], te_Gname := [], te_Name := path\<rparr> in
                case w (s @ [h]) of
                  Some e \<Rightarrow> (WErr (Msg (''write tar header for '' @ fmt_q path @ '': '' @ Error e)), s)
                | None \<Rightarrow>
                    if de_IsDir d then (WNil, s @ [h])
                    else
                      (case fs_Open fsys path of
                         Inl e \<Rightarrow> (WErr (Msg (''open file '' @ fmt_q path @ '': '' @ Error e)), s @ [h])
                       | Inr f \<Rightarrow>
                           (case file_Data f of
                              Inl e \<Rightarrow> (WErr (Msg (''write tar data for '' @ fmt_q path @ '': '' @ Error e)), s @ [h])
                            | Inr data \<Rightarrow>
                                (case w (s @ [h\<lparr>te_Data := data\<rparr>]) of
                                   Some e \<Rightarrow> (WErr (Msg (''write tar data for '' @ fmt_q path @ '': '' @ Error e)), s @ [h])
                                 | None \<Rightarrow> (WNil, s @ [h\<lparr>te_Data := data\<rparr>])))))))"

text \<open>The walk passes a nil entry only together with an error.\<close>

definition tar_visit :: "archive_writer \<Rightarrow> fs_FS \<Rightarrow> tar_entry list walk_fn" where
  "tar_visit w fsys path d err s =
     (case (err, d) of
        (Some e, _) \<Rightarrow> (WErr e, s)
      | (None, None) \<Rightarrow> (WNil, s)
      | (None, Some d) \<Rightarrow> if de_Type d = Symlink then (WNil, s) else tar_write w fsys path d s)"

definition FSToTarGZ :: "nat \<Rightarrow> archive_writer \<Rightarrow> fs_FS \<Rightarrow> tar_entry list outcome" where
  "FSToTarGZ depth w fsys =
     (case WalkDir depth fsys ''.'' (tar_visit w fsys) [] of
        None \<Rightarrow> Diverge
      | Some (Some e, s) \<Rightarrow> Err (Msg (''generate tar.gz from FS: '' @ Error e))
      | Some (None, s) \<Rightarrow> (case w s of Some e \<Rightarrow> Err e | None \<Rightarrow> Ok s))"

section \<open>The unpack command\<close>

definition skipRootPaths :: "string set" where
  "skipRootPaths = {''/dev'', ''/etc'', ''/proc'', ''/product_name'', ''/product_uuid'', ''/sys'', ''/bin''}"

definition unpack_visit :: "archive_writer \<Rightarrow> string \<Rightarrow> fs_FS \<Rightarrow> tar_entry list walk_fn" where
  "unpack_visit w bundleDir fsys path d err s =
     (case (err, d) of
        (Some e, _) \<Rightarrow> (WErr e, s)
      | (None, None) \<Rightarrow> (WNil, s)
      | (None, Some d) \<Rightarrow>
          if de_Type d = Symlink then (WNil, s)
          else if bundleDir = ''/'' \<and> Join [bundleDir, path] \<in> skipRootPaths then (WSkipDir, s)
          else tar_write w fsys path d s)"

text \<open>The archive the command prints, or the error it exits with.\<close>

definition unpack_RunE :: "nat \<Rightarrow> string \<Rightarrow> fs_FS \<Rightarrow> tar_entry list outcome" where
  "unpack_RunE depth bundleDir bundleFS =
     (case WalkDir depth bundleFS ''.'' (unpack_visit (\<lambda>_. None) bundleDir bundleFS) [] of
        None \<Rightarrow> Diverge
      | Some (Some e, s) \<Rightarrow> Err (Msg (''generate tar.gz for bundle dir '' @ fmt_q bundleDir @ '': '' @ Error e))
      | Some (None, s) \<Rightarrow> Ok s)"

section \<open>Lemmas on the wrappers\<close>

lemma FilesOnly_Open_iff:
  "FilesOnlyFilesystem_Open fsys name = Inr f
   \<longleftrightarrow> fs_Open fsys name = Inr f \<and> (\<exists>fi. file_Stat f = Inr fi \<and> fi_Type fi = RegularFile)"
  by (auto simp: FilesOnlyFilesystem_Open_def split: sum.splits)

lemma path_elems_single: "CHR ''/'' \<notin> set b \<Longrightarrow> path_elems b = [b]"
  by (simp add: path_elems_def split_on_no_sep)

text \<open>A plain name: one path element that is not a dot element.\<close>

definition plain_name :: "string \<Rightarrow> bool" where
  "plain_name b \<longleftrightarrow> b \<noteq> [] \<and> b \<noteq> ''.'' \<and> b \<noteq> dotdot \<and> CHR ''/'' \<notin> set b"

lemma Clean_plain_name: "plain_name b \<Longrightarrow> Clean b = b"
  by (cases b) (auto simp: plain_name_def Clean_def is_rooted_def HasPrefix_def path_elems_single)

lemma Split_plain_name: "plain_name b \<Longrightarrow> path_Split b = ([], b)"
proof -
  assume "plain_name b"
  then have "takeWhile (\<lambda>c. c \<noteq> CHR ''/'') (rev b) = rev b"
    by (subst takeWhile_eq_all_conv) (auto simp: plain_name_def)
  then show ?thesis unfolding path_Split_def by (simp only: Let_def length_rev rev_rev_ident diff_self_eq_0 take_0)
qed

lemma base_root_listing:
  assumes "plain_name b"
  shows "MapFS_ReadDir (base_mapfs b) ''.'' = Inr [FileInfoToDirEntry (plain_info b Directory 0)]"
proof -
  have "mapfs_children (base_mapfs b) ''.'' = [b]"
    using assms by (simp add: mapfs_children_def base_mapfs_def dir_prefix_def plain_name_def
        path_elems_single HasPrefix_def)
  moreover have "MapFS_Open (base_mapfs b) ''.''
      = Inr \<lparr>file_Stat = Inr (mapfs_dir_info (base_mapfs b) ''.''),
             file_Data = Inl (Msg ''read .: invalid argument'')\<rparr>"
    using assms by (auto simp: MapFS_Open_def ValidPath_def base_mapfs_def plain_name_def)
  ultimately show ?thesis
    using assms by (simp add: MapFS_ReadDir_def mapfs_dir_info_def plain_info_def mapfs_entry_def
        dir_prefix_def base_mapfs_def)
qed

lemma base_dispatch_below:
  assumes "plain_name b" and "name \<noteq> []"
  shows "base_dispatch b root sub (b @ ''/'' @ name) = sub name"
proof -
  have "b @ ''/'' @ name \<noteq> ''.''"
    using assms by (cases b) (auto simp: plain_name_def)
  moreover have "TrimPrefix (b @ ''/'' @ name) (b @ ''/'') = name"
    using TrimPrefix_append [of "b @ ''/''" name] by simp
  moreover have "HasPrefix (b @ ''/'' @ name) (b @ ''/'')"
    using HasPrefix_append [of "b @ ''/''" name] by simp
  ultimately show ?thesis using assms by (simp add: base_dispatch_def Let_def)
qed

lemma EnsureBaseDirFS_plain:
  assumes "plain_name b"
  shows "EnsureBaseDirFS fsys b =
     (case fs_ReadDir fsys ''.'' of
        Inl e \<Rightarrow> Err e
      | Inr ds \<Rightarrow> if \<exists>d. ds = [d] \<and> de_IsDir d then Ok fsys else Ok (baseDirFS fsys b))"
  using assms
  by (auto simp: EnsureBaseDirFS_def Clean_plain_name Split_plain_name split: sum.splits list.splits)

section \<open>What an archive holds\<close>

text \<open>The entries a walk visits, in order.\<close>

fun listing :: "nat \<Rightarrow> fs_FS \<Rightarrow> string \<Rightarrow> DirEntry \<Rightarrow> (string \<times> DirEntry) list" where
  "listing 0 fsys name d = []"
| "listing (Suc n) fsys name d =
     (name, d) #
     (if de_IsDir d then
        (case fs_ReadDir fsys name of
           Inl e \<Rightarrow> []
         | Inr dirs \<Rightarrow> concat (map (\<lambda>d1. listing n fsys (Join [name, de_Name d1]) d1) dirs))
      else [])"

text \<open>An archive entry that stands for a visited entry: no owner, the information's type and
  permissions, the visited path as its name, and the file's data.\<close>

definition archived :: "fs_FS \<Rightarrow> string \<times> DirEntry \<Rightarrow> tar_entry \<Rightarrow> bool" where
  "archived fsys x e \<longleftrightarrow>
     te_Name e = fst x \<and> te_Uid e = 0 \<and> te_Gid e = 0 \<and> te_Uname e = [] \<and> te_Gname e = []
     \<and> (\<exists>info. de_Info (snd x) = Inr info \<and> te_Type e = fi_Type info \<and> te_Perm e = fi_Perm info)
     \<and> (if de_IsDir (snd x) then te_Data e = [] else fs_ReadFile fsys (fst x) = Inr (te_Data e))"

definition not_symlink :: "string \<times> DirEntry \<Rightarrow> bool" where
  "not_symlink x \<longleftrightarrow> de_Type (snd x) \<noteq> Symlink"

lemma tar_write_archived:
  "tar_write w fsys p d s = (WNil, s') \<Longrightarrow> \<exists>e. s' = s @ [e] \<and> archived fsys (p, d) e"
  by (auto simp: tar_write_def Let_def archived_def fs_ReadFile_def FileInfoHeader_def
      split: sum.splits option.splits if_splits)

lemma tar_write_no_skip: "fst (tar_write w fsys p d s) \<noteq> WSkipDir"
  by (auto simp: tar_write_def Let_def split: sum.splits option.splits if_splits)

text \<open>A visit function that adds entries related to what it visits, stops at an error it is
  told of and never skips: the walk collects exactly the listing.\<close>

definition collects :: "'s list walk_fn \<Rightarrow> (string \<times> DirEntry \<Rightarrow> bool) \<Rightarrow> (string \<times> DirEntry \<Rightarrow> 's \<Rightarrow> bool) \<Rightarrow> bool" where
  "collects fn Q R \<longleftrightarrow>
     (\<forall>p d s s'. fn p (Some d) None s = (WNil, s')
        \<longrightarrow> (\<exists>es. s' = s @ es \<and> list_all2 R (filter Q [(p, d)]) es))
     \<and> (\<forall>p d e s. fst (fn p d (Some e) s) \<noteq> WNil)
     \<and> (\<forall>p d e s. fst (fn p d e s) \<noteq> WSkipDir)"

lemma collects_append:
  assumes "collects fn Q R" and "fn p (Some d) None s = (WNil, s1)" and "list_all2 R (filter Q xs) es"
  shows "\<exists>es'. s1 @ es = s @ es' \<and> list_all2 R (filter Q ((p, d) # xs)) es'"
proof -
  obtain as where "s1 = s @ as" "list_all2 R (filter Q [(p, d)]) as"
    using assms(1,2) unfolding collects_def by blast
  with list_all2_appendI [OF this(2) assms(3)] show ?thesis by auto
qed

lemma walkEntries_no_skip: "walkEntries n fsys fn name ds s = Some (r, s') \<Longrightarrow> r \<noteq> WSkipDir"
  by (induction ds arbitrary: s) (auto split: option.splits walk_ret.splits)

lemma walkDir_no_skip:
  assumes "collects fn Q R" and "walkDir n fsys fn name d s = Some (r, s')"
  shows "r \<noteq> WSkipDir"
proof (cases n)
  case (Suc m)
  have ns: "fst (fn p d e s) \<noteq> WSkipDir" for p d e s
    using assms(1) unfolding collects_def by blast
  obtain r1 s1 where fn: "fn name (Some d) None s = (r1, s1)" by fastforce
  with ns [of name "Some d" None s] have r1: "r1 \<noteq> WSkipDir" by simp
  show ?thesis
  proof (cases "r1 \<noteq> WNil \<or> \<not> de_IsDir d")
    case True
    with Suc fn r1 assms(2) show ?thesis by auto
  next
    case False
    then show ?thesis
    proof (cases "fs_ReadDir fsys name")
      case (Inl e)
      with Suc False fn assms(2) ns [of name "Some d" "Some e" s1] show ?thesis
        by (auto split: prod.splits if_splits)
    next
      case (Inr dirs)
      with Suc False fn assms(2) have "walkEntries m fsys fn name dirs s1 = Some (r, s')" by simp
      then show ?thesis by (rule walkEntries_no_skip)
    qed
  qed
qed (use assms(2) in simp)

lemma walk_collects:
  "collects fn Q R \<Longrightarrow> walkDir n fsys fn name d s = Some (WNil, s')
   \<Longrightarrow> \<exists>es. s' = s @ es \<and> list_all2 R (filter Q (listing n fsys name d)) es"
  "collects fn Q R \<Longrightarrow> walkEntries n fsys fn name ds s = Some (WNil, s')
   \<Longrightarrow> \<exists>es. s' = s @ es
        \<and> list_all2 R (filter Q (concat (map (\<lambda>d1. listing n fsys (Join [name, de_Name d1]) d1) ds))) es"
proof (induction n fsys fn name d s and n fsys fn name ds s arbitrary: s' and s' rule: walkDir_walkEntries.induct)
  case (2 n fsys fn name d s)
  obtain r s1 where fn: "fn name (Some d) None s = (r, s1)" by fastforce
  have "r \<noteq> WSkipDir" using 2(2) fn unfolding collects_def by (metis fst_conv)
  with 2(3) fn have r: "r = WNil" by (auto split: if_splits)
  show ?case
  proof (cases "de_IsDir d")
    case False
    with 2(3) fn r collects_append [OF 2(2), of name d s s1 "[]" "[]"] show ?thesis by auto
  next
    case True
    have "fst (fn name (Some d) (Some e) s1) \<noteq> WNil \<and> fst (fn name (Some d) (Some e) s1) \<noteq> WSkipDir" for e
      using 2(2) unfolding collects_def by blast
    with True 2(3) fn r obtain dirs where dirs: "fs_ReadDir fsys name = Inr dirs"
      by (auto split: sum.splits prod.splits) (metis fst_conv)+
    with True 2(3) fn r have "walkEntries n fsys fn name dirs s1 = Some (WNil, s')" by simp
    with 2(1) True fn r dirs 2(2) obtain es where "s' = s1 @ es"
      "list_all2 R (filter Q (concat (map (\<lambda>d1. listing n fsys (Join [name, de_Name d1]) d1) dirs))) es"
      by fastforce
    with collects_append [OF 2(2), of name d s s1] fn r True dirs show ?thesis by simp
  qed
next
  case (4 n fsys fn name d1 ds s)
  from 4(4) obtain r s1 where w: "walkDir n fsys fn (Join [name, de_Name d1]) d1 s = Some (r, s1)"
    by (fastforce split: option.splits)
  have "r \<noteq> WSkipDir" by (rule walkDir_no_skip [OF 4(3) w])
  with w 4(4) have r: "r = WNil" by (cases r) simp_all
  with w 4(4) have "walkEntries n fsys fn name ds s1 = Some (WNil, s')" by simp
  with 4(2) w r 4(3) obtain bs where bs: "s' = s1 @ bs"
    "list_all2 R (filter Q (concat (map (\<lambda>d1. listing n fsys (Join [name, de_Name d1]) d1) ds))) bs"
    by fastforce
  obtain as where "s1 = s @ as" "list_all2 R (filter Q (listing n fsys (Join [name, de_Name d1]) d1)) as"
    using 4(1) [OF 4(3)] w r by blast
  with bs list_all2_appendI [OF this(2) bs(2)] show ?case by auto
qed auto

lemma tar_visit_collects: "collects (tar_visit w fsys) not_symlink (archived fsys)"
  unfolding collects_def
  by (auto simp: tar_visit_def not_symlink_def tar_write_no_skip split: option.splits if_splits
      dest: tar_write_archived)

text \<open>Whether the walk succeeds, for a visit function that never skips and returns the errors it is told of: everything visited
  is accepted, and every visited directory can be listed.\<close>

definition decides :: "'s walk_fn \<Rightarrow> (string \<Rightarrow> DirEntry \<Rightarrow> bool) \<Rightarrow> bool" where
  "decides fn A \<longleftrightarrow>
     (\<forall>p d s. fst (fn p (Some d) None s) = WNil \<longleftrightarrow> A p d) \<and> (\<forall>p d e s. fst (fn p d (Some e) s) \<noteq> WNil)
     \<and> (\<forall>p d e s. fst (fn p d e s) \<noteq> WSkipDir)"

definition listable :: "fs_FS \<Rightarrow> string \<Rightarrow> DirEntry \<Rightarrow> bool" where
  "listable fsys p d \<longleftrightarrow> (de_IsDir d \<longrightarrow> \<not> isl (fs_ReadDir fsys p))"

lemma walk_decided:
  "decides fn A \<Longrightarrow> walkDir n fsys fn name d s = Some (r, s')
   \<Longrightarrow> r \<noteq> WSkipDir \<and> (r = WNil \<longleftrightarrow> (\<forall>(p, e)\<in>set (listing n fsys name d). A p e \<and> listable fsys p e))"
  "decides fn A \<Longrightarrow> walkEntries n fsys fn name ds s = Some (r, s')
   \<Longrightarrow> r \<noteq> WSkipDir \<and> (r = WNil \<longleftrightarrow> (\<forall>d1\<in>set ds. \<forall>(p, e)\<in>set (listing n fsys (Join [name, de_Name d1]) d1). A p e \<and> listable fsys p e))"
proof (induction n fsys fn name d s and n fsys fn name ds s arbitrary: r s' and r s' rule: walkDir_walkEntries.induct)
  case (2 n fsys fn name d s)
  obtain r1 s1 where fn: "fn name (Some d) None s = (r1, s1)" by fastforce
  then have r1: "r1 \<noteq> WSkipDir" "r1 = WNil \<longleftrightarrow> A name d" using 2(2) unfolding decides_def by (metis fst_conv)+
  show ?case
  proof (cases "r1 \<noteq> WNil \<or> \<not> de_IsDir d")
    case True
    with 2(3) fn r1 have "r = r1" by simp
    moreover have "listing (Suc n) fsys name d = [(name, d)]" if "\<not> de_IsDir d" using that by simp
    moreover have "(name, d) \<in> set (listing (Suc n) fsys name d)" unfolding listing.simps by (rule list.set_intros(1))
    ultimately show ?thesis using True r1 by (cases "de_IsDir d") (auto simp: listable_def simp del: listing.simps)
  next
    case False
    show ?thesis
    proof (cases "fs_ReadDir fsys name")
      case (Inl e)
      obtain r2 s2 where fn2: "fn name (Some d) (Some e) s1 = (r2, s2)" by fastforce
      then have "r2 \<noteq> WNil \<and> r2 \<noteq> WSkipDir" using 2(2) unfolding decides_def by (metis fst_conv)
      with 2(3) fn fn2 False Inl show ?thesis by (auto simp: listable_def)
    next
      case (Inr dirs)
      with 2(3) fn False have "walkEntries n fsys fn name dirs s1 = Some (r, s')" by simp
      with 2(1) [OF fn [symmetric] _ Inr 2(2)] False Inr r1 fn show ?thesis by (auto simp: listable_def)
    qed
  qed
next
  case (4 n fsys fn name d1 ds s)
  from 4(4) obtain r1 s1 where w: "walkDir n fsys fn (Join [name, de_Name d1]) d1 s = Some (r1, s1)"
    by (fastforce split: option.splits)
  note IH = 4(1) [OF 4(3) w]
  show ?case
  proof (cases r1)
    case WNil
    with w 4(4) have "walkEntries n fsys fn name ds s1 = Some (r, s')" by simp
    with 4(2) [OF w _ WNil 4(3)] IH WNil show ?thesis by auto
  qed (use w 4(4) IH in auto)
qed auto

text \<open>A successful \<open>FSToTarGZ\<close> archives the whole tree: one archive entry for every entry the
  walk from the root visits, in that order, symbolic links left out, each with the path
  as its name, owner fields cleared, and the content of the file.\<close>

lemma FSToTarGZ_archives_tree:
  assumes "FSToTarGZ depth w fsys = Ok es"
  shows "\<exists>info. fs_Stat fsys ''.'' = Inr info
           \<and> list_all2 (archived fsys)
               (filter not_symlink (listing depth fsys ''.'' (FileInfoToDirEntry info))) es"
proof -
  from assms have walk: "WalkDir depth fsys ''.'' (tar_visit w fsys) [] = Some (None, es)"
    by (auto simp: FSToTarGZ_def split: option.splits prod.splits)
  then obtain info r where "fs_Stat fsys ''.'' = Inr info"
    and "walkDir depth fsys (tar_visit w fsys) ''.'' (FileInfoToDirEntry info) [] = Some (r, es)" "\<nexists>e. r = WErr e"
    by (auto simp: WalkDir_def tar_visit_def split: sum.splits option.splits prod.splits walk_ret.splits)
  with walkDir_no_skip [OF tar_visit_collects] walk_collects(1) [OF tar_visit_collects] show ?thesis
    by (cases r) fastforce+
qed

text \<open>The entries of the tree below a root, the trees in which no path goes on for ever, and the entries that can go into an archive.\<close>

inductive in_tree :: "fs_FS \<Rightarrow> string \<Rightarrow> DirEntry \<Rightarrow> string \<Rightarrow> DirEntry \<Rightarrow> bool" for fsys root r where
  root: "in_tree fsys root r root r"
| child: "in_tree fsys root r p d \<Longrightarrow> de_IsDir d \<Longrightarrow> fs_ReadDir fsys p = Inr dirs \<Longrightarrow> d1 \<in> set dirs
          \<Longrightarrow> in_tree fsys root r (Join [p, de_Name d1]) d1"

inductive finite_tree :: "fs_FS \<Rightarrow> string \<Rightarrow> DirEntry \<Rightarrow> bool" for fsys where
  tree: "(\<And>dirs d1. de_IsDir d \<Longrightarrow> fs_ReadDir fsys p = Inr dirs \<Longrightarrow> d1 \<in> set dirs \<Longrightarrow> finite_tree fsys (Join [p, de_Name d1]) d1)
         \<Longrightarrow> finite_tree fsys p d"

definition archivable :: "fs_FS \<Rightarrow> string \<Rightarrow> DirEntry \<Rightarrow> bool" where
  "archivable fsys p d \<longleftrightarrow>
     (case de_Info d of Inl _ \<Rightarrow> False | Inr info \<Rightarrow> fi_Type info \<noteq> Socket) \<and>
     (if de_IsDir d then \<not> isl (fs_ReadDir fsys p) else \<not> isl (fs_ReadFile fsys p))"

lemma walk_bounded_mono: "walk_bounded m fsys p d \<Longrightarrow> m \<le> n \<Longrightarrow> walk_bounded n fsys p d"
proof (induction m fsys p d arbitrary: n rule: walk_bounded.induct)
  case (2 m fsys p d)
  then obtain k where "n = Suc k" "m \<le> k" by (cases n) auto
  with 2 show ?case by (auto simp: list_all_iff split: sum.splits simp del: Join.simps)
qed simp

lemma finite_tree_bounded: "finite_tree fsys p d \<Longrightarrow> \<exists>m. \<forall>n\<ge>m. walk_bounded n fsys p d"
proof (induction rule: finite_tree.induct)
  case (tree d p)
  show ?case
  proof (cases "de_IsDir d \<and> (\<exists>dirs. fs_ReadDir fsys p = Inr dirs)")
    case True
    then obtain dirs where dirs: "de_IsDir d" "fs_ReadDir fsys p = Inr dirs" by blast
    with tree have "\<forall>d1\<in>set dirs. \<exists>m. walk_bounded m fsys (Join [p, de_Name d1]) d1" by (metis order_refl)
    then obtain f where f: "\<And>d1. d1 \<in> set dirs \<Longrightarrow> walk_bounded (f d1) fsys (Join [p, de_Name d1]) d1" by metis
    have "f d1 \<le> Max (f ` set dirs)" if "d1 \<in> set dirs" for d1 using that by simp
    with walk_bounded_mono [OF f] have "walk_bounded (Max (f ` set dirs)) fsys (Join [p, de_Name d1]) d1" if "d1 \<in> set dirs" for d1
      using that by blast
    with dirs have "walk_bounded (Suc (Max (f ` set dirs))) fsys p d"
      by (simp add: list_all_iff del: Join.simps)
    with walk_bounded_mono show ?thesis by blast
  next
    case False
    then have "walk_bounded (Suc 0) fsys p d" by (auto split: sum.splits)
    with walk_bounded_mono show ?thesis by blast
  qed
qed

lemma walk_bounded_finite: "walk_bounded n fsys p d \<Longrightarrow> finite_tree fsys p d"
proof (induction n fsys p d rule: walk_bounded.induct)
  case (2 n fsys p d)
  show ?case
    by (rule finite_tree.tree) (use 2 in \<open>auto simp: list_all_iff simp del: Join.simps\<close>)
qed simp

lemma in_tree_below:
  "in_tree fsys q e p d \<Longrightarrow> q = Join [root, de_Name e] \<Longrightarrow> de_IsDir r \<Longrightarrow> fs_ReadDir fsys root = Inr dirs \<Longrightarrow> e \<in> set dirs \<Longrightarrow> in_tree fsys root r p d"
  by (induction rule: in_tree.induct) (auto intro: in_tree.intros simp del: Join.simps)

lemma in_tree_cases:
  "in_tree fsys root r p d \<Longrightarrow> (p = root \<and> d = r) \<or>
     (\<exists>dirs e. de_IsDir r \<and> fs_ReadDir fsys root = Inr dirs \<and> e \<in> set dirs \<and> in_tree fsys (Join [root, de_Name e]) e p d)"
proof (induction rule: in_tree.induct)
  case (child p d dirs d1)
  then show ?case by (metis in_tree.root in_tree.child)
qed simp

lemma listing_in_tree: "walk_bounded n fsys root r \<Longrightarrow> (p, d) \<in> set (listing n fsys root r) \<longleftrightarrow> in_tree fsys root r p d"
proof (induction n fsys root r rule: walk_bounded.induct)
  case (2 n fsys root r)
  show ?case
  proof (cases "de_IsDir r \<and> (\<exists>dirs. fs_ReadDir fsys root = Inr dirs)")
    case True
    then obtain dirs where dirs: "de_IsDir r" "fs_ReadDir fsys root = Inr dirs" by blast
    with 2 have IH: "(p, d) \<in> set (listing n fsys (Join [root, de_Name e]) e) \<longleftrightarrow> in_tree fsys (Join [root, de_Name e]) e p d" if "e \<in> set dirs" for e
      using that by (simp add: list_all_iff del: Join.simps)
    have "in_tree fsys root r p d \<longleftrightarrow> (p = root \<and> d = r) \<or> (\<exists>e\<in>set dirs. in_tree fsys (Join [root, de_Name e]) e p d)"
      using in_tree_cases [of fsys root r p d] in_tree_below [OF _ refl dirs] in_tree.root dirs by (auto simp del: Join.simps)
    with dirs IH show ?thesis by (auto simp del: Join.simps)
  next
    case False
    then have "in_tree fsys root r p d \<longleftrightarrow> p = root \<and> d = r" using in_tree_cases [of fsys root r p d] in_tree.root by auto
    moreover have "listing (Suc n) fsys root r = [(root, r)]" using False by (auto split: sum.splits)
    ultimately show ?thesis by (simp del: listing.simps)
  qed
qed simp

lemma tar_visit_decides:
  "decides (tar_visit (\<lambda>_. None) fsys) (\<lambda>p d. de_Type d = Symlink \<or>
     (case de_Info d of Inl _ \<Rightarrow> False | Inr info \<Rightarrow> fi_Type info \<noteq> Socket) \<and> (\<not> de_IsDir d \<longrightarrow> \<not> isl (fs_ReadFile fsys p)))"
  unfolding decides_def
  by (auto simp: tar_visit_def tar_write_no_skip tar_write_def Let_def fs_ReadFile_def FileInfoHeader_def split: option.splits sum.splits if_splits)

lemma FSToTarGZ_Ok_iff:
  assumes stat: "fs_Stat fsys ''.'' = Inr info" and bounded: "walk_bounded depth fsys ''.'' (FileInfoToDirEntry info)"
  shows "(\<exists>es. FSToTarGZ depth (\<lambda>_. None) fsys = Ok es) \<longleftrightarrow>
     (\<forall>p d. in_tree fsys ''.'' (FileInfoToDirEntry info) p d \<longrightarrow> de_Type d \<noteq> Symlink \<longrightarrow> archivable fsys p d)"
proof -
  obtain r s where w: "walkDir depth fsys (tar_visit (\<lambda>_. None) fsys) ''.'' (FileInfoToDirEntry info) [] = Some (r, s)"
    using walkDir_ends(1) [OF bounded] by fast
  then have "(\<exists>es. FSToTarGZ depth (\<lambda>_. None) fsys = Ok es) \<longleftrightarrow> r = WNil"
    using stat walk_decided(1) [OF tar_visit_decides w] by (cases r) (auto simp: FSToTarGZ_def WalkDir_def)
  moreover have "(de_Type d = Symlink \<or> (case de_Info d of Inl _ \<Rightarrow> False | Inr info \<Rightarrow> fi_Type info \<noteq> Socket) \<and> (\<not> de_IsDir d \<longrightarrow> \<not> isl (fs_ReadFile fsys p)))
      \<and> listable fsys p d \<longleftrightarrow> (de_Type d \<noteq> Symlink \<longrightarrow> archivable fsys p d)" for p d
    by (auto simp: listable_def archivable_def)
  ultimately show ?thesis
    using walk_decided(1) [OF tar_visit_decides w] listing_in_tree [OF bounded] by fastforce
qed

definition demo_fs :: fs_FS where
  "demo_fs = MapFS [(''manifests/cm.yaml'', \<lparr>mf_Data = ''kind'', mf_Type = RegularFile, mf_Perm = 420\<rparr>),
                    (''link'', \<lparr>mf_Data = [], mf_Type = Symlink, mf_Perm = 511\<rparr>)]"

definition demo_archive :: "tar_entry list" where
  "demo_archive =
     [\<lparr>te_Name = ''.'', te_Type = Directory, te_Perm = 365, te_Uid = 0, te_Gid = 0, te_Uname = [], te_Gname = [], te_Data = []\<rparr>,
      \<lparr>te_Name = ''manifests'', te_Type = Directory, te_Perm = 365, te_Uid = 0, te_Gid = 0, te_Uname = [], te_Gname = [],
       te_Data = []\<rparr>,
      \<lparr>te_Name = ''manifests/cm.yaml'', te_Type = RegularFile, te_Perm = 420, te_Uid = 0, te_Gid = 0, te_Uname = [],
       te_Gname = [], te_Data = ''kind''\<rparr>]"

lemma demo_fs_archive: "FSToTarGZ 4 (\<lambda>_. None) demo_fs = Ok demo_archive"
  by code_simp

lemma demo_fs_stat: "fs_Stat demo_fs ''.'' = Inr (plain_info ''.'' Directory 365)"
  by code_simp

section \<open>Properties\<close>

text \<open>C38. \<open>FSToTarGZ\<close> is total on finite trees. When nothing is infinitely deep below the root, and the writer accepts what it is given, there is a depth from which on the walk
  visits the entries of the tree and no others, and: if the root and everything below it, symbolic links apart, can be archived (it has file information and is no socket, a directory can be listed, any other
  entry can be opened and read), the function returns an archive with exactly these entries, each under its path, without an owner and with its content; otherwise it returns an error.\<close>

theorem FSToTarGZ_total:
  assumes stat: "fs_Stat fsys ''.'' = Inr info" and fin: "finite_tree fsys ''.'' (FileInfoToDirEntry info)"
  shows "\<exists>n. \<forall>depth\<ge>n. let visited = listing depth fsys ''.'' (FileInfoToDirEntry info) in
     (\<forall>p d. (p, d) \<in> set visited \<longleftrightarrow> in_tree fsys ''.'' (FileInfoToDirEntry info) p d) \<and>
     (if \<forall>p d. in_tree fsys ''.'' (FileInfoToDirEntry info) p d \<longrightarrow> de_Type d \<noteq> Symlink \<longrightarrow> archivable fsys p d
      then \<exists>es. FSToTarGZ depth (\<lambda>_. None) fsys = Ok es \<and> list_all2 (archived fsys) (filter not_symlink visited) es
      else \<exists>e. FSToTarGZ depth (\<lambda>_. None) fsys = Err e)"
proof -
  let ?d = "FileInfoToDirEntry info"
  obtain n where n: "\<And>depth. n \<le> depth \<Longrightarrow> walk_bounded depth fsys ''.'' ?d" using finite_tree_bounded [OF fin] by blast
  have "(\<forall>p d. (p, d) \<in> set (listing depth fsys ''.'' ?d) \<longleftrightarrow> in_tree fsys ''.'' ?d p d) \<and>
     (if \<forall>p d. in_tree fsys ''.'' ?d p d \<longrightarrow> de_Type d \<noteq> Symlink \<longrightarrow> archivable fsys p d
      then \<exists>es. FSToTarGZ depth (\<lambda>_. None) fsys = Ok es \<and> list_all2 (archived fsys) (filter not_symlink (listing depth fsys ''.'' ?d)) es
      else \<exists>e. FSToTarGZ depth (\<lambda>_. None) fsys = Err e)" if "n \<le> depth" for depth
  proof -
    note bounded = n [OF that]
    note tree = listing_in_tree [OF bounded]
    have "FSToTarGZ depth (\<lambda>_. None) fsys \<noteq> Diverge \<and> FSToTarGZ depth (\<lambda>_. None) fsys \<noteq> Panic x" for x
      using walkDir_ends(1) [OF bounded, of "tar_visit (\<lambda>_. None) fsys" "[]"] stat
      by (auto simp: FSToTarGZ_def WalkDir_def split: option.splits)
    then show ?thesis
      using FSToTarGZ_Ok_iff [OF stat bounded] FSToTarGZ_archives_tree [of depth "\<lambda>_. None" fsys] stat tree
      by (cases "FSToTarGZ depth (\<lambda>_. None) fsys") auto
  qed
  then show ?thesis unfolding Let_def by blast
qed

text \<open>A directory with a file and a symbolic link, archived; and a directory with a socket, which gives an error.\<close>

theorem FSToTarGZ_total_witness:
  "(\<exists>n es. FSToTarGZ n (\<lambda>_. None) demo_fs = Ok es) \<and> (\<exists>n e. FSToTarGZ n (\<lambda>_. None) (MapFS [(''s'', \<lparr>mf_Data = [], mf_Type = Socket, mf_Perm = 420\<rparr>)]) = Err e)"
proof -
  let ?sock = "MapFS [(''s'', \<lparr>mf_Data = [], mf_Type = Socket, mf_Perm = 420\<rparr>)]"
  let ?d = "FileInfoToDirEntry (plain_info ''.'' Directory 365)"
  have bounded: "walk_bounded 4 demo_fs ''.'' ?d" "walk_bounded 4 ?sock ''.'' ?d" by code_simp+
  have fin: "finite_tree demo_fs ''.'' ?d" "finite_tree ?sock ''.'' ?d" by (rule walk_bounded_finite [OF bounded(1)], rule walk_bounded_finite [OF bounded(2)])
  have stat: "fs_Stat ?sock ''.'' = Inr (plain_info ''.'' Directory 365)" by code_simp
  have all: "list_all (\<lambda>(p, d). de_Type d \<noteq> Symlink \<longrightarrow> archivable demo_fs p d) (listing 4 demo_fs ''.'' ?d)" by code_simp
  have ex: "list_ex (\<lambda>(p, d). de_Type d \<noteq> Symlink \<and> \<not> archivable ?sock p d) (listing 4 ?sock ''.'' ?d)" by code_simp
  have ok: "\<forall>p d. in_tree demo_fs ''.'' ?d p d \<longrightarrow> de_Type d \<noteq> Symlink \<longrightarrow> archivable demo_fs p d"
    using all listing_in_tree [OF bounded(1)] by (force simp: list_all_iff)
  have bad: "\<not> (\<forall>p d. in_tree ?sock ''.'' ?d p d \<longrightarrow> de_Type d \<noteq> Symlink \<longrightarrow> archivable ?sock p d)"
    using ex listing_in_tree [OF bounded(2)] by (force simp: list_ex_iff)
  show ?thesis
    using FSToTarGZ_total [OF demo_fs_stat fin(1)] FSToTarGZ_total [OF stat fin(2)] ok bad by (simp add: Let_def) blast
qed

lemma EnsureBaseDirFS_cases:
  assumes "plain_name b" and "EnsureBaseDirFS fsys b = Ok fsys'"
  obtains (same) d where "fsys' = fsys" "fs_ReadDir fsys ''.'' = Inr [d]" "de_IsDir d"
    | (based) "fsys' = baseDirFS fsys b"
  using assms by (auto simp: EnsureBaseDirFS_plain split: sum.splits if_splits)

lemma baseDirFS_root:
  "plain_name b \<Longrightarrow> fs_ReadDir (baseDirFS fsys b) ''.'' = Inr [FileInfoToDirEntry (plain_info b Directory 0)]"
  by (simp add: baseDirFS_def base_root_listing base_dispatch_def)

lemma EnsureBaseDirFS_root:
  assumes "plain_name b" and "EnsureBaseDirFS fsys b = Ok fsys'"
  shows "\<exists>d. fs_ReadDir fsys' ''.'' = Inr [d] \<and> de_IsDir d"
  using assms(1)
  by (auto simp: baseDirFS_root FileInfoToDirEntry_def plain_info_def intro: EnsureBaseDirFS_cases [OF assms])

text \<open>\<open>EnsureBaseDirFS\<close> gives a file system with a single directory in its root, and
  everything of the given file system is found unchanged, either at the same name or
  below the base directory.\<close>

theorem EnsureBaseDirFS_single_root:
  assumes "plain_name b" and "EnsureBaseDirFS fsys b = Ok fsys'"
  shows "\<exists>d. fs_ReadDir fsys' ''.'' = Inr [d] \<and> de_IsDir d
           \<and> (fsys' = fsys
               \<or> (de_Name d = b
                   \<and> (\<forall>name. name \<noteq> [] \<longrightarrow>
                        fs_Open fsys' (b @ ''/'' @ name) = fs_Open fsys name
                        \<and> fs_ReadDir fsys' (b @ ''/'' @ name) = fs_ReadDir fsys name)))"
  using assms
proof (cases rule: EnsureBaseDirFS_cases)
  case (same d)
  then show ?thesis by auto
next
  case based
  with assms(1) show ?thesis
    by (simp add: baseDirFS_root) (simp add: baseDirFS_def baseDirFS_Open_def base_dispatch_below [simplified] FileInfoToDirEntry_def plain_info_def)
qed

definition demo_base_fs :: fs_FS where
  "demo_base_fs = MapFS [(''Chart.yaml'', \<lparr>mf_Data = ''name: x'', mf_Type = RegularFile, mf_Perm = 420\<rparr>)]"

theorem EnsureBaseDirFS_single_root_witness:
  "fs_Open (baseDirFS demo_base_fs ''chart'') ''chart/Chart.yaml'' = fs_Open demo_base_fs ''Chart.yaml''"
proof -
  have pn: "plain_name ''chart''" by (simp add: plain_name_def)
  have "fs_ReadDir demo_base_fs ''.'' = Inr [FileInfoToDirEntry (plain_info ''Chart.yaml'' RegularFile 420)]"
    by code_simp
  then have ok: "EnsureBaseDirFS demo_base_fs ''chart'' = Ok (baseDirFS demo_base_fs ''chart'')"
    by (simp add: EnsureBaseDirFS_plain [OF pn] FileInfoToDirEntry_def plain_info_def)
  have "fs_ReadDir (baseDirFS demo_base_fs ''chart'') ''chart'' \<noteq> fs_ReadDir demo_base_fs ''chart''"
    by code_simp
  then have "baseDirFS demo_base_fs ''chart'' \<noteq> demo_base_fs" by metis
  with EnsureBaseDirFS_single_root [OF pn ok] show ?thesis by fastforce
qed

text \<open>A file system wrapped by \<open>FilesOnlyFilesystem\<close> opens exactly the regular files of the
  wrapped one, and lists no directory.\<close>

theorem FilesOnlyFilesystem_regular_only:
  "(fs_Open (FilesOnlyFilesystem fsys) name = Inr f
    \<longleftrightarrow> fs_Open fsys name = Inr f \<and> (\<exists>fi. file_Stat f = Inr fi \<and> fi_Type fi = RegularFile))
   \<and> (\<nexists>ds. fs_ReadDir (FilesOnlyFilesystem fsys) name = Inr ds)"
  by (auto simp: FilesOnlyFilesystem_def FilesOnly_Open_iff split: sum.splits)

text \<open>Outside the root directory the unpack command archives exactly what \<open>FSToTarGZ\<close> does:
  it succeeds with the same archive, and fails when \<open>FSToTarGZ\<close> fails.\<close>

theorem unpack_agrees_with_FSToTarGZ:
  assumes "bundleDir \<noteq> ''/''"
  shows "(unpack_RunE depth bundleDir fsys = Ok es \<longleftrightarrow> FSToTarGZ depth (\<lambda>_. None) fsys = Ok es)
         \<and> ((\<exists>e. unpack_RunE depth bundleDir fsys = Err e) \<longleftrightarrow> (\<exists>e. FSToTarGZ depth (\<lambda>_. None) fsys = Err e))
         \<and> (\<forall>p. unpack_RunE depth bundleDir fsys \<noteq> Panic p)"
proof -
  have "unpack_visit (\<lambda>_. None) bundleDir fsys = tar_visit (\<lambda>_. None) fsys"
    using assms by (intro ext) (simp add: unpack_visit_def tar_visit_def split: option.splits)
  then show ?thesis
    by (auto simp: unpack_RunE_def FSToTarGZ_def split: option.splits)
qed

theorem unpack_agrees_with_FSToTarGZ_witness:
  "unpack_RunE 4 ''/bundle'' demo_fs = Ok demo_archive"
  using unpack_agrees_with_FSToTarGZ [of "''/bundle''" 4 demo_fs demo_archive] demo_fs_archive by simp

text \<open>
  In the root directory the visit function answers \<open>fs.SkipDir\<close> also for the two names of
  \<open>skipRootPaths\<close> that are regular files. For a regular file that value ends the listing of
  its directory: here \<open>zz.yaml\<close>, which is not one of the skipped names, is lost.
\<close>

lemma unpack_root_loses_later_entries:
  "unpack_RunE 4 ''/''
     (MapFS [(''product_name'', \<lparr>mf_Data = ''vm'', mf_Type = RegularFile, mf_Perm = 420\<rparr>),
             (''zz.yaml'', \<lparr>mf_Data = ''kind'', mf_Type = RegularFile, mf_Perm = 420\<rparr>)])
   = Ok [\<lparr>te_Name = ''.'', te_Type = Directory, te_Perm = 365, te_Uid = 0, te_Gid = 0, te_Uname = [], te_Gname = [],
         te_Data = []\<rparr>]"
  by code_simp

end
