(* ===== verification/Storage.thy ===== *)
theory Storage
  imports Util_FS API_Types
begin

text \<open>
  Bundle storage (pkg/storage): the local directory of gzipped tar files (localdir.go), the
  HTTP loader and its options (http.go), and the storage with a fallback loader
  (storage.go). The interface \<open>Storage\<close> is the locale \<open>bundle_storage\<close>: what a load gives
  after stores and deletions. It is interpreted on the local directory and on the
  local directory with a fallback.
\<close>

section \<open>The interface\<close>

text \<open>
  A step of a client: store a bundle for an owner, or delete the owner's bundle. \<open>exec_ops\<close> runs
  steps one after the other and gives None as soon as one fails.
\<close>

datatype storage_op = OpStore BundleDeployment fs_FS | OpDelete BundleDeployment

fun op_owner :: "storage_op \<Rightarrow> string" where
  "op_owner (OpStore o1 b) = bd_Name o1"
| "op_owner (OpDelete o1) = bd_Name o1"

fun exec_ops ::
  "('d \<Rightarrow> BundleDeployment \<Rightarrow> fs_FS \<Rightarrow> unit outcome \<times> 'd) \<Rightarrow> ('d \<Rightarrow> BundleDeployment \<Rightarrow> unit outcome \<times> 'd) \<Rightarrow> 'd
   \<Rightarrow> storage_op list \<Rightarrow> 'd option" where
  "exec_ops store delete d [] = Some d"
| "exec_ops store delete d (OpStore o1 b # ops) =
     (case store d o1 b of (Ok _, d') \<Rightarrow> exec_ops store delete d' ops | _ \<Rightarrow> None)"
| "exec_ops store delete d (OpDelete o1 # ops) =
     (case delete d o1 of (Ok _, d') \<Rightarrow> exec_ops store delete d' ops | _ \<Rightarrow> None)"

locale bundle_storage =
  fixes store :: "'d \<Rightarrow> BundleDeployment \<Rightarrow> fs_FS \<Rightarrow> unit outcome \<times> 'd"
    and delete :: "'d \<Rightarrow> BundleDeployment \<Rightarrow> unit outcome \<times> 'd"
    and load :: "'d \<Rightarrow> BundleDeployment \<Rightarrow> fs_FS outcome"
    and image :: "BundleDeployment \<Rightarrow> fs_FS \<Rightarrow> fs_FS outcome"
    and missing :: "BundleDeployment \<Rightarrow> fs_FS outcome"
    and valid :: "string \<Rightarrow> bool"
  assumes load_store: "store d o1 b = (Ok u, d') \<Longrightarrow> bd_Name o2 = bd_Name o1 \<Longrightarrow> load d' o2 = image o2 b"
    and load_store_other:
      "store d o1 b = (Ok u, d') \<Longrightarrow> valid (bd_Name o1) \<Longrightarrow> valid (bd_Name o2) \<Longrightarrow> bd_Name o2 \<noteq> bd_Name o1
       \<Longrightarrow> load d' o2 = load d o2"
    and load_delete: "delete d o1 = (Ok u, d') \<Longrightarrow> bd_Name o2 = bd_Name o1 \<Longrightarrow> load d' o2 = missing o2"
    and load_delete_other:
      "delete d o1 = (Ok u, d') \<Longrightarrow> valid (bd_Name o1) \<Longrightarrow> valid (bd_Name o2) \<Longrightarrow> bd_Name o2 \<noteq> bd_Name o1
       \<Longrightarrow> load d' o2 = load d o2"
begin

text \<open>After any successful sequence of steps a load depends on the last step of its owner only.\<close>

definition after_ops :: "fs_FS outcome \<Rightarrow> storage_op list \<Rightarrow> BundleDeployment \<Rightarrow> fs_FS outcome" where
  "after_ops initial ops owner =
     (case filter (\<lambda>x. op_owner x = bd_Name owner) ops of
        [] \<Rightarrow> initial
      | xs \<Rightarrow> (case last xs of OpStore _ b \<Rightarrow> image owner b | OpDelete _ \<Rightarrow> missing owner))"

lemma after_ops_Cons:
  "after_ops initial (x # ops) owner =
     after_ops (if op_owner x = bd_Name owner
                then (case x of OpStore _ b \<Rightarrow> image owner b | OpDelete _ \<Rightarrow> missing owner) else initial) ops owner"
  by (auto simp: after_ops_def split: list.splits)

lemma load_after_ops:
  assumes "exec_ops store delete d ops = Some d'" and "valid (bd_Name owner)"
    and "\<And>x. x \<in> set ops \<Longrightarrow> valid (op_owner x)"
  shows "load d' owner = after_ops (load d owner) ops owner"
  using assms
proof (induction ops arbitrary: d)
  case Nil
  then show ?case by (simp add: after_ops_def)
next
  case (Cons x ops)
  show ?case
  proof (cases x)
    case (OpStore o1 b)
    with Cons.prems(1) obtain d1 u where st: "store d o1 b = (Ok u, d1)"
      and rest: "exec_ops store delete d1 ops = Some d'"
      by (auto split: prod.splits outcome.splits)
    then have "load d' owner = after_ops (load d1 owner) ops owner" using Cons by auto
    with load_store [OF st, of owner] load_store_other [OF st, of owner] Cons.prems(2) Cons.prems(3) [of x] OpStore
    show ?thesis by (cases "bd_Name o1 = bd_Name owner") (auto simp: after_ops_Cons)
  next
    case (OpDelete o1)
    with Cons.prems(1) obtain d1 u where st: "delete d o1 = (Ok u, d1)"
      and rest: "exec_ops store delete d1 ops = Some d'"
      by (auto split: prod.splits outcome.splits)
    then have "load d' owner = after_ops (load d1 owner) ops owner" using Cons by auto
    with load_delete [OF st, of owner] load_delete_other [OF st, of owner] Cons.prems(2) Cons.prems(3) [of x] OpDelete
    show ?thesis by (cases "bd_Name o1 = bd_Name owner") (auto simp: after_ops_Cons)
  qed
qed

end

section \<open>The disk\<close>

text \<open>
  The operating system's files, by cleaned path, and the faults of the moment: a path that cannot
  be opened, created or removed (for another reason than that it does not exist), and a
  write that fails.
\<close>

record disk =
  disk_Files :: "string \<rightharpoonup> blob"
  disk_Fault :: "string \<Rightarrow> string option"
  disk_WriteFault :: "string \<Rightarrow> string option"

definition os_Open :: "disk \<Rightarrow> string \<Rightarrow> blob result" where
  "os_Open d p =
     (case disk_Fault d p of
        Some e \<Rightarrow> Inl (Msg e)
      | None \<Rightarrow>
          (case disk_Files d p of
             None \<Rightarrow> Inl (NotExist (''open '' @ p @ '': no such file or directory''))
           | Some b \<Rightarrow> Inr b))"

definition os_Create :: "disk \<Rightarrow> string \<Rightarrow> gerror option \<times> disk" where
  "os_Create d p =
     (case disk_Fault d p of
        Some e \<Rightarrow> (Some (Msg e), d)
      | None \<Rightarrow> (None, d\<lparr>disk_Files := (disk_Files d)(p \<mapsto> Bytes [])\<rparr>))"

definition io_Copy :: "disk \<Rightarrow> string \<Rightarrow> blob \<Rightarrow> gerror option \<times> disk" where
  "io_Copy d p b =
     (case disk_WriteFault d p of
        Some e \<Rightarrow> (Some (Msg e), d)
      | None \<Rightarrow> (None, d\<lparr>disk_Files := (disk_Files d)(p \<mapsto> b)\<rparr>))"

definition os_Remove :: "disk \<Rightarrow> string \<Rightarrow> gerror option \<times> disk" where
  "os_Remove d p =
     (case disk_Fault d p of
        Some e \<Rightarrow> (Some (Msg e), d)
      | None \<Rightarrow>
          (case disk_Files d p of
             None \<Rightarrow> (Some (NotExist (''remove '' @ p @ '': no such file or directory'')), d)
           | Some b \<Rightarrow> (None, d\<lparr>disk_Files := (disk_Files d)(p := None)\<rparr>)))"

section \<open>The local directory\<close>

type_synonym tarfs_new = "tar_entry list \<Rightarrow> fs_FS result"

record url =
  url_String :: string
  url_Path :: string

record LocalDirectory =
  ld_RootDirectory :: string
  ld_URL :: url

definition DefaultBundleCacheDir :: string where
  "DefaultBundleCacheDir = ''/var/cache/bundles''"

definition localDirectoryBundleFile :: "string \<Rightarrow> string" where
  "localDirectoryBundleFile bundleName = bundleName @ ''.tgz''"

definition bundlePath :: "LocalDirectory \<Rightarrow> string \<Rightarrow> string" where
  "bundlePath s bundleName = Join [ld_RootDirectory s, localDirectoryBundleFile bundleName]"

definition ignoreNotExist :: "gerror option \<Rightarrow> gerror option" where
  "ignoreNotExist err = (case err of Some e \<Rightarrow> if IsNotExist e then None else Some e | None \<Rightarrow> None)"

definition LocalDirectory_Load :: "tarfs_new \<Rightarrow> LocalDirectory \<Rightarrow> disk \<Rightarrow> BundleDeployment \<Rightarrow> fs_FS outcome" where
  "LocalDirectory_Load tarfs_New s d owner =
     (case os_Open d (bundlePath s (bd_Name owner)) of
        Inl err \<Rightarrow> Err err
      | Inr bundleFile \<Rightarrow>
          (case gzip_NewReader bundleFile of
             Inl err \<Rightarrow> Err err
           | Inr tarReader \<Rightarrow> lift_result (tarfs_New tarReader)))"

text \<open>The archive goes to a buffer first, whose writes do not fail.\<close>

definition LocalDirectory_Store :: "nat \<Rightarrow> LocalDirectory \<Rightarrow> disk \<Rightarrow> BundleDeployment \<Rightarrow> fs_FS \<Rightarrow> unit outcome \<times> disk" where
  "LocalDirectory_Store depth s d owner bundle =
     (case FSToTarGZ depth (\<lambda>_. None) bundle of
        Err err \<Rightarrow> (Err (Msg (''convert bundle '' @ fmt_q (bd_Name owner) @ '' to tar.gz: '' @ Error err)), d)
      | Panic p \<Rightarrow> (Panic p, d)
      | Diverge \<Rightarrow> (Diverge, d)
      | Ok buf \<Rightarrow>
          (case os_Create d (bundlePath s (bd_Name owner)) of
             (Some err, d1) \<Rightarrow> (Err err, d1)
           | (None, d1) \<Rightarrow>
               (case io_Copy d1 (bundlePath s (bd_Name owner)) (TarGz buf) of
                  (Some err, d2) \<Rightarrow> (Err err, d2)
                | (None, d2) \<Rightarrow> (Ok (), d2))))"

definition LocalDirectory_Delete :: "LocalDirectory \<Rightarrow> disk \<Rightarrow> BundleDeployment \<Rightarrow> unit outcome \<times> disk" where
  "LocalDirectory_Delete s d owner =
     (case os_Remove d (bundlePath s (bd_Name owner)) of
        (err, d') \<Rightarrow> (case ignoreNotExist err of Some e \<Rightarrow> (Err e, d') | None \<Rightarrow> (Ok (), d')))"

definition LocalDirectory_URLFor :: "LocalDirectory \<Rightarrow> BundleDeployment \<Rightarrow> string outcome" where
  "LocalDirectory_URLFor s owner = Ok (url_String (ld_URL s) @ localDirectoryBundleFile (bd_Name owner))"

section \<open>Serving the directory\<close>

text \<open>
  \<open>LocalDirectory.ServeHTTP\<close> through \<open>http.StripPrefix\<close>, \<open>http.FileServer\<close> and \<open>http.FS\<close>. \<open>dir_fs\<close> is
  \<open>os.DirFS\<close> on the disk: a stored path is a regular file, a proper prefix of stored paths is
  a directory. \<open>blob_bytes\<close> gives the bytes of a file.
\<close>

datatype http_reply = Served string | Redirected | NotFoundReply | ServerError

definition dir_info :: "string \<Rightarrow> FileType \<Rightarrow> FileInfo" where
  "dir_info name t = plain_info (path_base name) t 420"

definition dir_fs :: "(blob \<Rightarrow> string) \<Rightarrow> disk \<Rightarrow> string set \<Rightarrow> string \<Rightarrow> fs_FS" where
  "dir_fs blob_bytes d dirs root =
     \<lparr>fs_Open = (\<lambda>name.
        if \<not> ValidPath name then Inl (Msg (''open '' @ name @ '': invalid argument''))
        else if Join [root, name] \<in> dirs
        then Inr \<lparr>file_Stat = Inr (dir_info name Directory), file_Data = Inl (Msg ''is a directory'')\<rparr>
        else
          (case os_Open d (Join [root, name]) of
             Inl e \<Rightarrow> Inl e
           | Inr b \<Rightarrow> Inr \<lparr>file_Stat = Inr (dir_info name RegularFile), file_Data = Inr (blob_bytes b)\<rparr>)),
      fs_ReadDir = (\<lambda>name. Inl (Msg ''readdirent''))\<rparr>"

definition StripPrefix :: "string \<Rightarrow> (string \<Rightarrow> http_reply) \<Rightarrow> string \<Rightarrow> http_reply" where
  "StripPrefix prefix h path =
     (if prefix = [] then h path
      else (let p = TrimPrefix path prefix in if length p < length path then h p else NotFoundReply))"

definition HasSuffix :: "string \<Rightarrow> string \<Rightarrow> bool" where
  "HasSuffix s t = HasPrefix (rev s) (rev t)"

definition FileServer :: "fs_FS \<Rightarrow> string \<Rightarrow> http_reply" where
  "FileServer fsys path0 =
     (let path = (if HasPrefix path0 ''/'' then path0 else ''/'' @ path0);
          name = Clean path;
          file = (if name = ''/'' then ''.'' else TrimPrefix name ''/'')
      in if HasSuffix path ''/index.html'' then Redirected
         else
           (case fs_Open fsys file of
              Inl e \<Rightarrow> if IsNotExist e then NotFoundReply else ServerError
            | Inr f \<Rightarrow>
                (case file_Stat f of
                   Inl e \<Rightarrow> if IsNotExist e then NotFoundReply else ServerError
                 | Inr fi \<Rightarrow>
                     if fi_Type fi = Directory then Redirected
                     else if HasSuffix path ''/'' then Redirected
                     else (case file_Data f of Inl e \<Rightarrow> ServerError | Inr body \<Rightarrow> Served body))))"

definition LocalDirectory_ServeHTTP :: "(blob \<Rightarrow> string) \<Rightarrow> string set \<Rightarrow> LocalDirectory \<Rightarrow> disk \<Rightarrow> string \<Rightarrow> http_reply" where
  "LocalDirectory_ServeHTTP blob_bytes dirs s d path =
     StripPrefix (url_Path (ld_URL s)) (FileServer (FilesOnlyFilesystem (dir_fs blob_bytes d dirs (ld_RootDirectory s)))) path"

section \<open>The HTTP loader\<close>

record tls_config =
  tls_MinVersion :: nat
  tls_InsecureSkipVerify :: bool
  tls_RootCAs :: "string list option"

record http_request =
  req_Method :: string
  req_URL :: string
  req_Header :: "string \<rightharpoonup> string"

record http_response =
  resp_StatusCode :: nat
  resp_Status :: string
  resp_Body :: blob

record HTTP =
  hc_Timeout :: nat
  hc_TLSClientConfig :: "tls_config option"
  hc_requestOpts :: "(http_request \<Rightarrow> http_request) list"

definition VersionTLS12 :: nat where "VersionTLS12 = 771"

definition default_tls :: "tls_config option \<Rightarrow> tls_config" where
  "default_tls c = (case c of None \<Rightarrow> \<lparr>tls_MinVersion = VersionTLS12, tls_InsecureSkipVerify = False, tls_RootCAs = None\<rparr>
                          | Some t \<Rightarrow> t)"

definition WithInsecureSkipVerify :: "bool \<Rightarrow> HTTP \<Rightarrow> HTTP" where
  "WithInsecureSkipVerify v s =
     s\<lparr>hc_TLSClientConfig := Some ((default_tls (hc_TLSClientConfig s))\<lparr>tls_InsecureSkipVerify := v\<rparr>)\<rparr>"

definition WithRootCAs :: "string list option \<Rightarrow> HTTP \<Rightarrow> HTTP" where
  "WithRootCAs rootCAs s = s\<lparr>hc_TLSClientConfig := Some ((default_tls (hc_TLSClientConfig s))\<lparr>tls_RootCAs := rootCAs\<rparr>)\<rparr>"

definition WithBearerToken :: "string \<Rightarrow> HTTP \<Rightarrow> HTTP" where
  "WithBearerToken token s =
     s\<lparr>hc_requestOpts := hc_requestOpts s
         @ [\<lambda>request. request\<lparr>req_Header := (req_Header request)(''Authorization'' \<mapsto> ''Bearer '' @ token)\<rparr>]\<rparr>"

definition NewHTTP :: "(HTTP \<Rightarrow> HTTP) list \<Rightarrow> HTTP" where
  "NewHTTP opts = foldl (\<lambda>s f. f s) \<lparr>hc_Timeout = 60, hc_TLSClientConfig = None, hc_requestOpts = []\<rparr> opts"

text \<open>
  \<open>url_error\<close> is the error of \<open>http.NewRequestWithContext\<close> for a URL that does not parse, \<open>Do\<close> the
  network under the client's timeout and TLS configuration.
\<close>

type_synonym http_do = "nat \<Rightarrow> tls_config option \<Rightarrow> http_request \<Rightarrow> http_response result"

definition new_request :: "(string \<Rightarrow> gerror option) \<Rightarrow> string \<Rightarrow> http_request result" where
  "new_request url_error u =
     (case url_error u of
        Some e \<Rightarrow> Inl e
      | None \<Rightarrow> Inr \<lparr>req_Method = ''GET'', req_URL = u, req_Header = Map.empty\<rparr>)"

definition HTTP_Load :: "tarfs_new \<Rightarrow> (string \<Rightarrow> gerror option) \<Rightarrow> http_do \<Rightarrow> HTTP \<Rightarrow> BundleDeployment \<Rightarrow> fs_FS outcome" where
  "HTTP_Load tarfs_New url_error Do s bundledeployment =
     (case new_request url_error (st_ContentURL (bd_Status bundledeployment)) of
        Inl err \<Rightarrow> Err err
      | Inr req0 \<Rightarrow>
          (let req = foldl (\<lambda>r f. f r) req0 (hc_requestOpts s) in
           case Do (hc_Timeout s) (hc_TLSClientConfig s) req of
             Inl err \<Rightarrow> Err err
           | Inr resp \<Rightarrow>
               (if resp_StatusCode resp \<noteq> 200
                then Err (Msg (''unexpected response status '' @ fmt_q (resp_Status resp)))
                else
                  (case gzip_NewReader (resp_Body resp) of
                     Inl err \<Rightarrow> Err err
                   | Inr tarReader \<Rightarrow> lift_result (tarfs_New tarReader)))))"

section \<open>A storage with a fallback loader\<close>

definition fallbackLoaderStorage_Load ::
  "('d \<Rightarrow> BundleDeployment \<Rightarrow> fs_FS outcome) \<Rightarrow> (BundleDeployment \<Rightarrow> fs_FS outcome) \<Rightarrow> 'd \<Rightarrow> BundleDeployment \<Rightarrow> fs_FS outcome" where
  "fallbackLoaderStorage_Load Storage_Load fallback_Load d owner =
     (case Storage_Load d owner of
        Err err \<Rightarrow> fallback_Load owner
      | r \<Rightarrow> r)"

section \<open>Lemmas\<close>

lemma split_on_join: "split_on c (s @ c # t) = split_on c s @ split_on c t"
  by (induction s) (auto split: list.splits)

lemma clean_comps_snoc: "plain_name n \<Longrightarrow> clean_comps r st (cs @ [n]) = clean_comps r st cs @ [n]"
  by (induction r st cs rule: clean_comps.induct) (auto simp: plain_name_def split: list.splits)

lemma path_base_join_snoc: "CHR ''/'' \<notin> set n \<Longrightarrow> path_base (join_with ''/'' (xs @ [n])) = n"
proof (induction xs)
  case (Cons x xs)
  then have "path_base (x @ CHR ''/'' # join_with ''/'' (xs @ [n])) = n"
    by (simp add: path_base_def path_elems_def split_on_join)
  then show ?case by (simp add: join_with_Cons)
qed (simp add: path_base_def path_elems_def split_on_no_sep)

text \<open>The last element of a path that was joined with a plain name is that name.\<close>

lemma path_base_Join:
  assumes "plain_name n"
  shows "path_base (Join [root, n]) = n"
proof (cases "root = []")
  case True
  with assms show ?thesis
    by (simp add: Clean_plain_name path_base_def path_elems_single plain_name_def)
next
  case False
  let ?p = "root @ CHR ''/'' # n"
  have n: "CHR ''/'' \<notin> set n" using assms by (simp add: plain_name_def)
  then have "path_elems ?p = path_elems root @ [n]"
    by (simp add: path_elems_def split_on_join split_on_no_sep)
  then have cs: "clean_comps r [] (path_elems ?p) = clean_comps r [] (path_elems root) @ [n]" for r
    using clean_comps_snoc [OF assms] by simp
  have "path_base (CHR ''/'' # join_with ''/'' (xs @ [n])) = n" for xs
    using path_base_join_snoc [OF n, of "[] # xs"] by (simp add: join_with_Cons)
  with path_base_join_snoc [OF n] False show ?thesis by (simp add: Clean_def Let_def cs)
qed

definition owner_name :: "string \<Rightarrow> bool" where
  "owner_name n \<longleftrightarrow> CHR ''/'' \<notin> set n"

lemma bundle_file_plain: "owner_name n \<Longrightarrow> plain_name (localDirectoryBundleFile n)"
  by (cases n rule: rev_cases) (auto simp: owner_name_def plain_name_def localDirectoryBundleFile_def append_eq_Cons_conv)

lemma bundlePath_inject: "owner_name m \<Longrightarrow> owner_name n \<Longrightarrow> bundlePath s m = bundlePath s n \<Longrightarrow> m = n"
  using path_base_Join bundle_file_plain unfolding bundlePath_def
  by (metis append_same_eq localDirectoryBundleFile_def)

text \<open>What a load gives for a stored bundle: the file system of its archive.\<close>

definition stored_image :: "nat \<Rightarrow> tarfs_new \<Rightarrow> fs_FS \<Rightarrow> fs_FS outcome" where
  "stored_image depth tarfs_New bundle = obind (FSToTarGZ depth (\<lambda>_. None) bundle) (\<lambda>es. lift_result (tarfs_New es))"

definition not_stored :: "LocalDirectory \<Rightarrow> BundleDeployment \<Rightarrow> fs_FS outcome" where
  "not_stored s owner = Err (NotExist (''open '' @ bundlePath s (bd_Name owner) @ '': no such file or directory''))"

lemma Store_Ok:
  "LocalDirectory_Store depth s d owner b = (Ok u, d') \<longleftrightarrow>
     (\<exists>es. FSToTarGZ depth (\<lambda>_. None) b = Ok es \<and> disk_Fault d (bundlePath s (bd_Name owner)) = None
         \<and> disk_WriteFault d (bundlePath s (bd_Name owner)) = None
         \<and> d' = d\<lparr>disk_Files := (disk_Files d)(bundlePath s (bd_Name owner) \<mapsto> TarGz es)\<rparr>)"
  by (auto simp: LocalDirectory_Store_def os_Create_def io_Copy_def split: outcome.splits option.splits)

lemma Delete_Ok:
  "LocalDirectory_Delete s d owner = (Ok u, d') \<longleftrightarrow>
     disk_Fault d (bundlePath s (bd_Name owner)) = None
     \<and> d' = d\<lparr>disk_Files := (disk_Files d)(bundlePath s (bd_Name owner) := None)\<rparr>"
proof -
  have "d\<lparr>disk_Files := (disk_Files d)(p := None)\<rparr> = d" if "disk_Files d p = None" for p
    using that by (cases d) (auto simp: fun_upd_idem)
  then show ?thesis
    by (auto simp: LocalDirectory_Delete_def os_Remove_def ignoreNotExist_def go_simps split: option.splits)
qed

interpretation local_dir: bundle_storage "LocalDirectory_Store depth s" "LocalDirectory_Delete s"
    "LocalDirectory_Load tarfs_New s" "\<lambda>_. stored_image depth tarfs_New" "not_stored s" owner_name
  for depth s tarfs_New
proof
  have other: "bundlePath s (bd_Name o2) \<noteq> bundlePath s (bd_Name o1)"
    if "owner_name (bd_Name o1)" "owner_name (bd_Name o2)" "bd_Name o2 \<noteq> bd_Name o1" for o1 o2
    using that bundlePath_inject by metis
  show "LocalDirectory_Load tarfs_New s d' o2 = stored_image depth tarfs_New b"
    if "LocalDirectory_Store depth s d o1 b = (Ok u, d')" "bd_Name o2 = bd_Name o1" for d o1 b u d' o2
    using that by (auto simp: Store_Ok LocalDirectory_Load_def os_Open_def stored_image_def)
  show "LocalDirectory_Load tarfs_New s d' o2 = not_stored s o2"
    if "LocalDirectory_Delete s d o1 = (Ok u, d')" "bd_Name o2 = bd_Name o1" for d o1 u d' o2
    using that by (auto simp: Delete_Ok LocalDirectory_Load_def os_Open_def not_stored_def)
  show "LocalDirectory_Load tarfs_New s d' o2 = LocalDirectory_Load tarfs_New s d o2"
    if "LocalDirectory_Store depth s d o1 b = (Ok u, d')" "owner_name (bd_Name o1)" "owner_name (bd_Name o2)"
      "bd_Name o2 \<noteq> bd_Name o1" for d o1 b u d' o2
    using that other [OF that(2-4)] by (auto simp: Store_Ok LocalDirectory_Load_def os_Open_def split: option.splits)
  show "LocalDirectory_Load tarfs_New s d' o2 = LocalDirectory_Load tarfs_New s d o2"
    if "LocalDirectory_Delete s d o1 = (Ok u, d')" "owner_name (bd_Name o1)" "owner_name (bd_Name o2)"
      "bd_Name o2 \<noteq> bd_Name o1" for d o1 u d' o2
    using that other [OF that(2-4)] by (auto simp: Delete_Ok LocalDirectory_Load_def os_Open_def split: option.splits)
qed

text \<open>
  A fallback keeps the contract of any storage: a missing bundle, and one whose archive cannot be
  read, are what the fallback loader gives.
\<close>

context bundle_storage
begin

lemma fallback_contract:
  "bundle_storage store delete (fallbackLoaderStorage_Load load fb)
     (\<lambda>o1 b. case image o1 b of Err e \<Rightarrow> fb o1 | r \<Rightarrow> r) (\<lambda>o1. case missing o1 of Err e \<Rightarrow> fb o1 | r \<Rightarrow> r) valid"
proof
  fix d o1 b u d' o2
  assume st: "store d o1 b = (Ok u, d')"
  show "bd_Name o2 = bd_Name o1 \<Longrightarrow> fallbackLoaderStorage_Load load fb d' o2 = (case image o2 b of Err e \<Rightarrow> fb o2 | r \<Rightarrow> r)"
    by (simp add: fallbackLoaderStorage_Load_def load_store [OF st])
  show "valid (bd_Name o1) \<Longrightarrow> valid (bd_Name o2) \<Longrightarrow> bd_Name o2 \<noteq> bd_Name o1
      \<Longrightarrow> fallbackLoaderStorage_Load load fb d' o2 = fallbackLoaderStorage_Load load fb d o2"
    by (simp add: fallbackLoaderStorage_Load_def load_store_other [OF st])
next
  fix d o1 u d' o2
  assume st: "delete d o1 = (Ok u, d')"
  show "bd_Name o2 = bd_Name o1 \<Longrightarrow> fallbackLoaderStorage_Load load fb d' o2 = (case missing o2 of Err e \<Rightarrow> fb o2 | r \<Rightarrow> r)"
    by (simp add: fallbackLoaderStorage_Load_def load_delete [OF st])
  show "valid (bd_Name o1) \<Longrightarrow> valid (bd_Name o2) \<Longrightarrow> bd_Name o2 \<noteq> bd_Name o1
      \<Longrightarrow> fallbackLoaderStorage_Load load fb d' o2 = fallbackLoaderStorage_Load load fb d o2"
    by (simp add: fallbackLoaderStorage_Load_def load_delete_other [OF st])
qed

end

interpretation fallback_dir: bundle_storage "LocalDirectory_Store depth s" "LocalDirectory_Delete s"
    "fallbackLoaderStorage_Load (LocalDirectory_Load tarfs_New s) fb"
    "\<lambda>o1 b. case stored_image depth tarfs_New b of Err e \<Rightarrow> fb o1 | r \<Rightarrow> r"
    fb owner_name
  for depth s tarfs_New fb
  using local_dir.fallback_contract [of depth s tarfs_New fb] by (simp add: not_stored_def)

text \<open>
  What the code relies on of go-tarfs: an archive whose entries have valid, distinct paths opens, and
  each regular file of it reads as its data.
\<close>

definition tarfs_law :: "tarfs_new \<Rightarrow> bool" where
  "tarfs_law tarfs_New \<longleftrightarrow>
     (\<forall>es. distinct (map te_Name es) \<and> list_all ValidPath (map te_Name es) \<longrightarrow>
        (\<exists>fsys. tarfs_New es = Inr fsys
           \<and> (\<forall>e \<in> set es. te_Type e = RegularFile \<longrightarrow> fs_ReadFile fsys (te_Name e) = Inr (te_Data e))))"

definition tar_MapFS :: tarfs_new where
  "tar_MapFS es = Inr (MapFS (map (\<lambda>e. (te_Name e, \<lparr>mf_Data = te_Data e, mf_Type = te_Type e, mf_Perm = te_Perm e\<rparr>)) es))"

lemma tar_MapFS_law: "tarfs_law tar_MapFS"
proof -
  let ?m = "map (\<lambda>e. (te_Name e, \<lparr>mf_Data = te_Data e, mf_Type = te_Type e, mf_Perm = te_Perm e\<rparr>))"
  have "fs_ReadFile (MapFS (?m es)) (te_Name e) = Inr (te_Data e)"
    if "distinct (map te_Name es)" "list_all ValidPath (map te_Name es)" "e \<in> set es" "te_Type e = RegularFile" for es e
  proof -
    have "map_of (?m es) (te_Name e) = Some \<lparr>mf_Data = te_Data e, mf_Type = te_Type e, mf_Perm = te_Perm e\<rparr>"
      using that(1,3) by (intro map_of_is_SomeI) (auto simp: o_def)
    with that show ?thesis by (auto simp: fs_ReadFile_def MapFS_Open_file list_all_iff)
  qed
  then show ?thesis by (auto simp: tarfs_law_def tar_MapFS_def)
qed

text \<open>The entries of a bundle that go into its archive.\<close>

definition bundle_entries :: "nat \<Rightarrow> fs_FS \<Rightarrow> (string \<times> DirEntry) list" where
  "bundle_entries depth bundle =
     (case fs_Stat bundle ''.'' of
        Inl e \<Rightarrow> []
      | Inr info \<Rightarrow> filter not_symlink (listing depth bundle ''.'' (FileInfoToDirEntry info)))"

definition regular_entry :: "DirEntry \<Rightarrow> bool" where
  "regular_entry d \<longleftrightarrow> de_Type d = RegularFile
     \<and> (case de_Info d of Inl e \<Rightarrow> False | Inr fi \<Rightarrow> fi_Type fi = RegularFile)"

lemma list_all2_archived_names: "list_all2 (archived fsys) xs es \<Longrightarrow> map te_Name es = map fst xs"
  by (induction rule: list_all2_induct) (auto simp: archived_def)

lemma archive_reads_back:
  assumes "tarfs_law tarfs_New" and "FSToTarGZ depth w bundle = Ok es"
    and "distinct (map fst (bundle_entries depth bundle))" and "list_all ValidPath (map fst (bundle_entries depth bundle))"
  shows "\<exists>fsys. tarfs_New es = Inr fsys
           \<and> (\<forall>(p, d) \<in> set (bundle_entries depth bundle). regular_entry d \<longrightarrow> fs_ReadFile fsys p = fs_ReadFile bundle p)"
proof -
  have arch: "list_all2 (archived bundle) (bundle_entries depth bundle) es"
    using FSToTarGZ_archives_tree [OF assms(2)] by (auto simp: bundle_entries_def)
  from list_all2_archived_names [OF this] assms obtain fsys where fsys: "tarfs_New es = Inr fsys"
    and rd: "\<And>e. e \<in> set es \<Longrightarrow> te_Type e = RegularFile \<Longrightarrow> fs_ReadFile fsys (te_Name e) = Inr (te_Data e)"
    unfolding tarfs_law_def by metis
  have "fs_ReadFile fsys p = fs_ReadFile bundle p" if mem: "(p, d) \<in> set (bundle_entries depth bundle)" and reg: "regular_entry d" for p d
  proof -
    from mem obtain i where i: "i < length (bundle_entries depth bundle)" "bundle_entries depth bundle ! i = (p, d)"
      by (auto simp: in_set_conv_nth)
    define e where "e = es ! i"
    have "archived bundle (p, d) e" "e \<in> set es"
      using list_all2_nthD [OF arch i(1)] list_all2_lengthD [OF arch] i by (simp_all add: e_def)
    with reg rd [of e] show ?thesis
      by (auto simp: archived_def regular_entry_def split: sum.splits)
  qed
  with fsys show ?thesis by auto
qed

section \<open>Properties\<close>

text \<open>C17. A bundle that was stored loads again, and every regular file of it reads as in the bundle
  that was stored.\<close>

theorem stored_bundle_loads_back:
  assumes "tarfs_law tarfs_New" and "LocalDirectory_Store depth s d owner bundle = (Ok (), d')"
    and "distinct (map fst (bundle_entries depth bundle))" and "list_all ValidPath (map fst (bundle_entries depth bundle))"
  shows "\<exists>fsys. LocalDirectory_Load tarfs_New s d' owner = Ok fsys
           \<and> (\<forall>(p, e) \<in> set (bundle_entries depth bundle). regular_entry e \<longrightarrow> fs_ReadFile fsys p = fs_ReadFile bundle p)"
proof -
  from assms(2) obtain es where es: "FSToTarGZ depth (\<lambda>_. None) bundle = Ok es" by (auto simp: Store_Ok)
  from archive_reads_back [OF assms(1) es assms(3,4)] local_dir.load_store [OF assms(2) refl, of tarfs_New]
  show ?thesis by (auto simp: stored_image_def es)
qed

definition demo_dir :: LocalDirectory where
  "demo_dir = \<lparr>ld_RootDirectory = ''/var/cache/bundles'', ld_URL = \<lparr>url_String = ''https://h/bundles/'', url_Path = ''/bundles/''\<rparr>\<rparr>"

definition empty_disk :: disk where
  "empty_disk = \<lparr>disk_Files = Map.empty, disk_Fault = (\<lambda>_. None), disk_WriteFault = (\<lambda>_. None)\<rparr>"

definition demo_owner :: BundleDeployment where
  "demo_owner = mk_bd ''b1'' ''plain'' (empty_source SourceTypeHTTP)"

lemma demo_owner_name [simp]: "bd_Name demo_owner = ''b1''"
  by (simp add: demo_owner_def mk_bd_def empty_meta_def)

lemma demo_entries: "map fst (bundle_entries 4 demo_fs) = [''.'', ''manifests'', ''manifests/cm.yaml'']"
  by code_simp

lemma demo_file: "list_ex (\<lambda>(p, d). p = ''manifests/cm.yaml'' \<and> regular_entry d) (bundle_entries 4 demo_fs)"
  by code_simp

lemma demo_store: "\<exists>d'. LocalDirectory_Store 4 demo_dir empty_disk demo_owner demo_fs = (Ok (), d')"
  by (simp add: Store_Ok demo_fs_archive empty_disk_def)

theorem stored_bundle_loads_back_witness:
  "\<exists>d' fsys. LocalDirectory_Store 4 demo_dir empty_disk demo_owner demo_fs = (Ok (), d')
     \<and> LocalDirectory_Load tar_MapFS demo_dir d' demo_owner = Ok fsys
     \<and> fs_ReadFile fsys ''manifests/cm.yaml'' = fs_ReadFile demo_fs ''manifests/cm.yaml''"
proof -
  obtain d' where st: "LocalDirectory_Store 4 demo_dir empty_disk demo_owner demo_fs = (Ok (), d')"
    using demo_store by blast
  have "distinct (map fst (bundle_entries 4 demo_fs))" "list_all ValidPath (map fst (bundle_entries 4 demo_fs))"
    unfolding demo_entries by code_simp+
  from stored_bundle_loads_back [OF tar_MapFS_law st this] st demo_file show ?thesis
    by (fastforce simp: list_ex_iff)
qed

text \<open>C16. After any sequence of successful stores and deletions, a load from the local directory gives what
  the last step of that owner left: the bundle it stored, or that there is none; without such a
  step, what was there before. Other owners' steps have no influence.\<close>

theorem local_storage_last_step_decides:
  assumes "exec_ops (LocalDirectory_Store depth s) (LocalDirectory_Delete s) d ops = Some d'"
    and "list_all owner_name (bd_Name owner # map op_owner ops)"
  shows "LocalDirectory_Load tarfs_New s d' owner =
     (case filter (\<lambda>x. op_owner x = bd_Name owner) ops of
        [] \<Rightarrow> LocalDirectory_Load tarfs_New s d owner
      | xs \<Rightarrow> (case last xs of
                 OpStore _ b \<Rightarrow> stored_image depth tarfs_New b
               | OpDelete _ \<Rightarrow> not_stored s owner))"
  using local_dir.load_after_ops [OF assms(1), of owner tarfs_New] assms(2)
  by (simp add: local_dir.after_ops_def list_all_iff)

theorem local_storage_last_step_decides_witness:
  "\<exists>d'. exec_ops (LocalDirectory_Store 4 demo_dir) (LocalDirectory_Delete demo_dir) empty_disk
          [OpStore demo_owner demo_fs, OpDelete demo_owner] = Some d'
     \<and> LocalDirectory_Load tar_MapFS demo_dir d' demo_owner = not_stored demo_dir demo_owner"
proof -
  obtain d1 where st: "LocalDirectory_Store 4 demo_dir empty_disk demo_owner demo_fs = (Ok (), d1)"
    using demo_store by blast
  then have "disk_Fault d1 p = None" for p by (auto simp: Store_Ok empty_disk_def)
  then obtain d' where "LocalDirectory_Delete demo_dir d1 demo_owner = (Ok (), d')" by (simp add: Delete_Ok)
  with st have ex: "exec_ops (LocalDirectory_Store 4 demo_dir) (LocalDirectory_Delete demo_dir) empty_disk
      [OpStore demo_owner demo_fs, OpDelete demo_owner] = Some d'" by simp
  from local_storage_last_step_decides [OF this, of demo_owner tar_MapFS] ex show ?thesis by (simp add: owner_name_def)
qed

text \<open>C37. With a fallback loader, a load gives the stored bundle when its archive can be read, and the
  fallback loader's answer for a bundle that was deleted.\<close>

theorem fallback_storage_last_step_decides:
  assumes "exec_ops (LocalDirectory_Store depth s) (LocalDirectory_Delete s) d ops = Some d'"
    and "list_all owner_name (bd_Name owner # map op_owner ops)"
    and "filter (\<lambda>x. op_owner x = bd_Name owner) ops = xs @ [x]"
  shows "fallbackLoaderStorage_Load (LocalDirectory_Load tarfs_New s) fb d' owner =
     (case x of
        OpStore _ b \<Rightarrow> (case stored_image depth tarfs_New b of Err e \<Rightarrow> fb owner | r \<Rightarrow> r)
      | OpDelete _ \<Rightarrow> fb owner)"
  using fallback_dir.load_after_ops [OF assms(1), of owner tarfs_New fb] assms(2,3)
  by (cases xs; cases x) (simp_all add: fallback_dir.after_ops_def list_all_iff)

theorem fallback_storage_last_step_decides_witness:
  "\<exists>d'. LocalDirectory_Delete demo_dir empty_disk demo_owner = (Ok (), d')
     \<and> fallbackLoaderStorage_Load (LocalDirectory_Load tar_MapFS demo_dir) (\<lambda>_. Ok demo_fs) d' demo_owner = Ok demo_fs"
proof -
  obtain d' where del: "LocalDirectory_Delete demo_dir empty_disk demo_owner = (Ok (), d')"
    by (simp add: Delete_Ok empty_disk_def)
  then have "exec_ops (LocalDirectory_Store 4 demo_dir) (LocalDirectory_Delete demo_dir) empty_disk [OpDelete demo_owner] = Some d'"
    by simp
  from fallback_storage_last_step_decides [OF this, of demo_owner "[]" "OpDelete demo_owner" tar_MapFS "\<lambda>_. Ok demo_fs"] del
  show ?thesis by (simp add: owner_name_def)
qed

lemma Clean_rooted_plain: "plain_name f \<Longrightarrow> Clean (''/'' @ f) = ''/'' @ f"
  using Clean_normal_rooted [of "[f]"] by (simp add: plain_name_def)

lemma bundle_file_suffix:
  "\<not> HasSuffix (''/'' @ localDirectoryBundleFile n) ''/index.html''" "\<not> HasSuffix (''/'' @ localDirectoryBundleFile n) ''/''"
  by (simp_all add: HasSuffix_def HasPrefix_def localDirectoryBundleFile_def)

lemma FileServer_bundle_file:
  assumes "owner_name n"
  shows "FileServer fsys (localDirectoryBundleFile n) =
     (case fs_Open fsys (localDirectoryBundleFile n) of
        Inl e \<Rightarrow> if IsNotExist e then NotFoundReply else ServerError
      | Inr f \<Rightarrow>
          (case file_Stat f of
             Inl e \<Rightarrow> if IsNotExist e then NotFoundReply else ServerError
           | Inr fi \<Rightarrow> if fi_Type fi = Directory then Redirected
                       else (case file_Data f of Inl e \<Rightarrow> ServerError | Inr body \<Rightarrow> Served body)))"
proof -
  note pl = bundle_file_plain [OF assms]
  then have "\<not> HasPrefix (localDirectoryBundleFile n) ''/''" "localDirectoryBundleFile n \<noteq> []"
    by (auto simp: HasPrefix_iff plain_name_def)
  moreover have "TrimPrefix (''/'' @ localDirectoryBundleFile n) ''/'' = localDirectoryBundleFile n"
    using TrimPrefix_append [of "''/''" "localDirectoryBundleFile n"] .
  ultimately show ?thesis
    using Clean_rooted_plain [OF pl] bundle_file_suffix [of n] by (simp add: FileServer_def Let_def split: sum.split)
qed

lemma ValidPath_plain: "plain_name f \<Longrightarrow> ValidPath f"
  by (simp add: ValidPath_def path_elems_single plain_name_def)

text \<open>The archive of a stored bundle is served under the directory's URL path and the name of the bundle's
  file (the same name that \<open>URLFor\<close> puts at the end of the content URL).\<close>

theorem stored_bundle_served:
  assumes "LocalDirectory_Store depth s d owner bundle = (Ok (), d')" and "owner_name (bd_Name owner)"
    and "url_Path (ld_URL s) \<noteq> []" and "bundlePath s (bd_Name owner) \<notin> dirs"
  shows "\<exists>es file. FSToTarGZ depth (\<lambda>_. None) bundle = Ok es
           \<and> LocalDirectory_URLFor s owner = Ok (url_String (ld_URL s) @ file)
           \<and> LocalDirectory_ServeHTTP blob_bytes dirs s d' (url_Path (ld_URL s) @ file) = Served (blob_bytes (TarGz es))"
proof -
  let ?f = "localDirectoryBundleFile (bd_Name owner)"
  from assms(1) obtain es where es: "FSToTarGZ depth (\<lambda>_. None) bundle = Ok es"
    and open_ok: "os_Open d' (bundlePath s (bd_Name owner)) = Inr (TarGz es)"
    by (auto simp: Store_Ok os_Open_def)
  have "fs_Open (FilesOnlyFilesystem (dir_fs blob_bytes d' dirs (ld_RootDirectory s))) ?f
      = Inr \<lparr>file_Stat = Inr (dir_info ?f RegularFile), file_Data = Inr (blob_bytes (TarGz es))\<rparr>"
    using open_ok assms(4) ValidPath_plain [OF bundle_file_plain [OF assms(2)]]
    by (simp add: FilesOnlyFilesystem_def FilesOnlyFilesystem_Open_def dir_fs_def dir_info_def plain_info_def
        bundlePath_def del: Join.simps)
  then have "FileServer (FilesOnlyFilesystem (dir_fs blob_bytes d' dirs (ld_RootDirectory s))) ?f = Served (blob_bytes (TarGz es))"
    by (simp add: FileServer_bundle_file [OF assms(2)] dir_info_def plain_info_def)
  with assms(3) es show ?thesis
    by (intro exI [of _ es] exI [of _ ?f]) (simp add: LocalDirectory_ServeHTTP_def LocalDirectory_URLFor_def StripPrefix_def)
qed

theorem stored_bundle_served_witness:
  "\<exists>d' es. LocalDirectory_Store 4 demo_dir empty_disk demo_owner demo_fs = (Ok (), d')
     \<and> FSToTarGZ 4 (\<lambda>_. None) demo_fs = Ok es
     \<and> LocalDirectory_URLFor demo_dir demo_owner = Ok ''https://h/bundles/b1.tgz''
     \<and> LocalDirectory_ServeHTTP (\<lambda>b. case b of Bytes x \<Rightarrow> x | TarGz _ \<Rightarrow> ''gz'') {} demo_dir d' ''/bundles/b1.tgz'' = Served ''gz''"
proof -
  obtain d' where st: "LocalDirectory_Store 4 demo_dir empty_disk demo_owner demo_fs = (Ok (), d')"
    using demo_store by blast
  have "url_Path (ld_URL demo_dir) \<noteq> []" by (simp add: demo_dir_def)
  from stored_bundle_served [OF st _ this, of "{}" "\<lambda>b. case b of Bytes x \<Rightarrow> x | TarGz _ \<Rightarrow> ''gz''"] st show ?thesis
    by (auto simp: owner_name_def LocalDirectory_URLFor_def demo_dir_def localDirectoryBundleFile_def)
qed

text \<open>Whatever is served is the content of a regular file of the directory: no directory listing is ever
  given out, and a path that is no stored file is not served.\<close>

theorem only_files_served:
  assumes "LocalDirectory_ServeHTTP blob_bytes dirs s d path = Served body"
  shows "\<exists>name b. ValidPath name \<and> Join [ld_RootDirectory s, name] \<notin> dirs
           \<and> disk_Files d (Join [ld_RootDirectory s, name]) = Some b \<and> body = blob_bytes b"
proof -
  from assms obtain q where "FileServer (FilesOnlyFilesystem (dir_fs blob_bytes d dirs (ld_RootDirectory s))) q = Served body"
    by (auto simp: LocalDirectory_ServeHTTP_def StripPrefix_def Let_def split: if_splits)
  then obtain name f where "FilesOnlyFilesystem_Open (dir_fs blob_bytes d dirs (ld_RootDirectory s)) name = Inr f" "file_Data f = Inr body"
    by (auto simp: FileServer_def Let_def FilesOnlyFilesystem_def split: if_splits sum.splits)
  then show ?thesis
    unfolding FilesOnly_Open_iff
    by (auto simp: dir_fs_def os_Open_def dir_info_def plain_info_def simp del: Join.simps split: if_splits sum.splits option.splits)
qed

theorem only_files_served_witness:
  "\<exists>body name. LocalDirectory_ServeHTTP (\<lambda>b. case b of Bytes x \<Rightarrow> x | TarGz _ \<Rightarrow> ''gz'') {} demo_dir
        \<lparr>disk_Files = [''/var/cache/bundles/x'' \<mapsto> Bytes ''data''], disk_Fault = (\<lambda>_. None), disk_WriteFault = (\<lambda>_. None)\<rparr>
        ''/bundles/x'' = Served body
     \<and> body = ''data'' \<and> Join [''/var/cache/bundles'', name] \<noteq> []"
proof -
  let ?d = "\<lparr>disk_Files = [''/var/cache/bundles/x'' \<mapsto> Bytes ''data''], disk_Fault = (\<lambda>_. None), disk_WriteFault = (\<lambda>_. None)\<rparr>"
  have run: "LocalDirectory_ServeHTTP (\<lambda>b. case b of Bytes x \<Rightarrow> x | TarGz _ \<Rightarrow> ''gz'') {} demo_dir ?d ''/bundles/x'' = Served ''data''"
    by code_simp
  from only_files_served [OF this] obtain name where "disk_Files ?d (Join [ld_RootDirectory demo_dir, name]) \<noteq> None" by blast
  then have "Join [''/var/cache/bundles'', name] \<noteq> []" by (auto simp: demo_dir_def simp del: Join.simps split: if_splits)
  with run show ?thesis by blast
qed

end
