(* ===== verification/Webhooks.thy ===== *)
theory Webhooks
  imports API_Types Go_Path
begin

text \<open>
  The validating admission webhooks of internal/webhook: the validator of
  bundle deployments (bundledeployment.go) and the validator of config maps
  (configmaps.go), and the cluster they guard as a step relation whose steps are
  the admitted requests.
\<close>

section \<open>Interface of a safety argument\<close>

text \<open>
  A machine given by its initial states and steps, with an invariant that holds
  initially and is kept by every step.
\<close>

locale guarded_machine =
  fixes start :: "'s \<Rightarrow> bool"
    and step :: "'s \<Rightarrow> 's \<Rightarrow> bool"
    and invar :: "'s \<Rightarrow> bool"
  assumes start_invar: "start s \<Longrightarrow> invar s"
    and step_invar: "invar s \<Longrightarrow> step s t \<Longrightarrow> invar t"
begin

lemma run_invar: "step\<^sup>*\<^sup>* s t \<Longrightarrow> invar s \<Longrightarrow> invar t"
  by (induction rule: rtranclp_induct) (auto intro: step_invar)

lemma reachable_invar: "start s \<Longrightarrow> step\<^sup>*\<^sup>* s t \<Longrightarrow> invar t"
  using run_invar start_invar by blast

text \<open>A fact that every step keeps while a condition lasts holds at the end of a run under it.\<close>

lemma run_stable:
  assumes run: "(\<lambda>x y. step x y \<and> P x)\<^sup>*\<^sup>* s t" and "invar s" and "Q s"
    and stable: "\<And>x y. invar x \<Longrightarrow> step x y \<Longrightarrow> P x \<Longrightarrow> Q x \<Longrightarrow> Q y"
  shows "Q t"
proof -
  from run have "step\<^sup>*\<^sup>* s t \<and> Q t"
  proof (induction rule: rtranclp_induct)
    case base
    with \<open>Q s\<close> show ?case by simp
  next
    case (step y z)
    then have "invar y" using run_invar \<open>invar s\<close> by blast
    with step stable show ?case by (auto intro: rtranclp.rtrancl_into_rtrancl)
  qed
  then show ?thesis by simp
qed

end

section \<open>Library parameters\<close>

text \<open>
  \<open>utilerrors.NewAggregate\<close> is library code: a parameter of the definitions that call
  it. Documented: the empty list gives nil, a list with an error in it does not.
\<close>

type_synonym new_aggregate = "gerror list \<Rightarrow> gerror option"

definition aggregate_law :: "new_aggregate \<Rightarrow> bool" where
  "aggregate_law NewAggregate \<longleftrightarrow> NewAggregate [] = None \<and> (\<forall>es. es \<noteq> [] \<longrightarrow> NewAggregate es \<noteq> None)"

definition plain_aggregate :: new_aggregate where
  "plain_aggregate es = (if es = [] then None else Some (Aggregate (join_with '', '' (map Error es)) es))"

lemma plain_aggregate_law: "aggregate_law plain_aggregate"
  by (simp add: aggregate_law_def plain_aggregate_def)

text \<open>\<open>client.IgnoreNotFound\<close>.\<close>

definition IgnoreNotFound :: "gerror \<Rightarrow> gerror option" where
  "IgnoreNotFound e = (if IsNotFound e then None else Some e)"

section \<open>The validator of bundle deployments\<close>

type_synonym configmap_getter = "string \<Rightarrow> string \<Rightarrow> ConfigMap result"

text \<open>The error of a check, as Go returns it: None is nil.\<close>

definition verifyConfigMapImmutable :: "configmap_getter \<Rightarrow> string \<Rightarrow> string \<Rightarrow> gerror option" where
  "verifyConfigMapImmutable Get SystemNamespace configMapName =
     (case Get SystemNamespace configMapName of
        Inr cm \<Rightarrow>
          (if cm_Immutable cm = None \<or> cm_Immutable cm = Some False
           then Some (Msg (''configmap '' @ fmt_q configMapName @ '' is not immutable''))
           else None)
      | Inl e \<Rightarrow> IgnoreNotFound e)"

definition path_outside_root :: "string \<Rightarrow> bool" where
  "path_outside_root p = HasPrefix (Clean p) ''../''"

fun config_map_errs :: "configmap_getter \<Rightarrow> string \<Rightarrow> nat \<Rightarrow> ConfigMapSource list \<Rightarrow> gerror list" where
  "config_map_errs Get ns i [] = []"
| "config_map_errs Get ns i (cmSource # rest) =
     (if path_outside_root (cms_Path cmSource)
      then [Msg (''bundledeployment.spec.source.configmaps['' @ fmt_d i @ ''].path is invalid: ''
                 @ fmt_q (cms_Path cmSource) @ '' is outside bundle root'')]
      else [])
     @ (case verifyConfigMapImmutable Get ns (cms_ConfigMap cmSource) of
          None \<Rightarrow> []
        | Some err \<Rightarrow> [Msg (''bundledeployment.spec.source.configmaps['' @ fmt_d i
                           @ ''].configmap.name is invalid: '' @ Error err)])
     @ config_map_errs Get ns (Suc i) rest"

definition checkBundleDeploymentSource ::
  "new_aggregate \<Rightarrow> configmap_getter \<Rightarrow> string \<Rightarrow> BundleDeployment \<Rightarrow> unit outcome" where
  "checkBundleDeploymentSource NewAggregate Get ns bd =
     (let s = bd_Source bd; typ = src_Type s in
      if typ = SourceTypeImage then
        (if src_Image s = None
         then Err (Msg ''bundledeployment.spec.source.image must be set for source type \"image\"'')
         else Ok ())
      else if typ = SourceTypeGit then
        (case src_Git s of
           None \<Rightarrow> Err (Msg ''bundledeployment.spec.source.git must be set for source type \"git\"'')
         | Some g \<Rightarrow>
             if HasPrefix (Clean (git_Directory g)) ''../''
             then Err (Msg ''bundledeployment.spec.source.git.directory begins with \"../\": directory must define path within the repository'')
             else Ok ())
      else if typ = SourceTypeConfigMaps then
        (if config_map_refs s = []
         then Err (Msg ''bundledeployment.spec.source.configmaps must be set for source type \"configmaps\"'')
         else
           (let errs = config_map_errs Get ns 0 (config_map_refs s) in
            if errs \<noteq> []
            then (case NewAggregate errs of None \<Rightarrow> Ok () | Some e \<Rightarrow> Err e)
            else Ok ()))
      else Ok ())"

definition BundleDeployment_ValidateCreate ::
  "new_aggregate \<Rightarrow> configmap_getter \<Rightarrow> string \<Rightarrow> BundleDeployment \<Rightarrow> unit outcome" where
  "BundleDeployment_ValidateCreate NewAggregate Get ns obj = checkBundleDeploymentSource NewAggregate Get ns obj"

definition BundleDeployment_ValidateUpdate ::
  "new_aggregate \<Rightarrow> configmap_getter \<Rightarrow> string \<Rightarrow> BundleDeployment \<Rightarrow> BundleDeployment \<Rightarrow> unit outcome" where
  "BundleDeployment_ValidateUpdate NewAggregate Get ns oldObj newObj =
     checkBundleDeploymentSource NewAggregate Get ns newObj"

definition BundleDeployment_ValidateDelete :: "BundleDeployment \<Rightarrow> unit outcome" where
  "BundleDeployment_ValidateDelete obj = Ok ()"

section \<open>The validator of config maps\<close>

fun bundle_referrers :: "string \<Rightarrow> BundleDeployment list \<Rightarrow> string list" where
  "bundle_referrers name [] = []"
| "bundle_referrers name (b # bs) =
     (if src_Type (bd_Source b) = SourceTypeConfigMaps
      then map (\<lambda>_. bd_Name b) (filter (\<lambda>r. cms_ConfigMap r = name) (config_map_refs (bd_Source b)))
      else [])
     @ bundle_referrers name bs"

definition ConfigMap_ValidateCreate :: "BundleDeployment list result \<Rightarrow> ConfigMap \<Rightarrow> unit outcome" where
  "ConfigMap_ValidateCreate List cm =
     (if cm_Immutable cm = Some True then Ok ()
      else
        (case List of
           Inl e \<Rightarrow> Err e
         | Inr items \<Rightarrow>
             (let referrers = bundle_referrers (cm_Name cm) items in
              if referrers \<noteq> []
              then Err (Msg (''configmap '' @ fmt_q (cm_Name cm)
                     @ '' is referenced in .spec.source.configMaps[].configMap.name by bundles ''
                     @ fmt_v_strings referrers @ ''; referenced configmaps must have .immutable == true''))
              else Ok ())))"

definition ConfigMap_ValidateUpdate :: "ConfigMap \<Rightarrow> ConfigMap \<Rightarrow> unit outcome" where
  "ConfigMap_ValidateUpdate oldObj newObj = Ok ()"

fun first_user :: "string \<Rightarrow> BundleDeployment list \<Rightarrow> string option" where
  "first_user name [] = None"
| "first_user name (b # bs) =
     (if list_ex (\<lambda>r. cms_ConfigMap r = name) (config_map_refs (bd_Source b))
      then Some (bd_Name b) else first_user name bs)"

definition ConfigMap_ValidateDelete :: "BundleDeployment list result \<Rightarrow> ConfigMap \<Rightarrow> unit outcome" where
  "ConfigMap_ValidateDelete List cm =
     (case List of
        Inl e \<Rightarrow> Err e
      | Inr items \<Rightarrow>
          (case first_user (cm_Name cm) items of
             Some b \<Rightarrow> Err (Msg (''configmap '' @ fmt_q (cm_Name cm) @ '' is in-use by bundle '' @ fmt_q b))
           | None \<Rightarrow> Ok ()))"

section \<open>The guarded cluster\<close>

text \<open>
  The part of the cluster the two webhooks guard: the config maps by namespace and
  name and the bundle deployments. A step is one admitted request. The API server's
  own rule for an immutable config map (its content and its flag cannot be changed
  by an update) is the guard of \<open>update_cm\<close>; every other guard is a webhook.
\<close>

record cluster =
  cl_cms :: "string \<times> string \<rightharpoonup> ConfigMap"
  cl_bds :: "BundleDeployment list"

definition cluster_get :: "cluster \<Rightarrow> configmap_getter" where
  "cluster_get c ns name =
     (case cl_cms c (ns, name) of
        None \<Rightarrow> Inl (ApiNotFound (''configmaps '' @ fmt_q name @ '' not found''))
      | Some cm \<Rightarrow> Inr cm)"

inductive admission_step :: "new_aggregate \<Rightarrow> string \<Rightarrow> cluster \<Rightarrow> cluster \<Rightarrow> bool"
  for NewAggregate :: new_aggregate and ns :: string
where
  create_bd:
    "bd_Name bd \<notin> bd_Name ` set (cl_bds c)
     \<Longrightarrow> BundleDeployment_ValidateCreate NewAggregate (cluster_get c) ns bd = Ok ()
     \<Longrightarrow> admission_step NewAggregate ns c (c\<lparr>cl_bds := cl_bds c @ [bd]\<rparr>)"
| update_bd:
    "old \<in> set (cl_bds c) \<Longrightarrow> bd_Name new = bd_Name old
     \<Longrightarrow> BundleDeployment_ValidateUpdate NewAggregate (cluster_get c) ns old new = Ok ()
     \<Longrightarrow> admission_step NewAggregate ns c
           (c\<lparr>cl_bds := map (\<lambda>b. if bd_Name b = bd_Name old then new else b) (cl_bds c)\<rparr>)"
| delete_bd:
    "bd \<in> set (cl_bds c) \<Longrightarrow> BundleDeployment_ValidateDelete bd = Ok ()
     \<Longrightarrow> admission_step NewAggregate ns c
           (c\<lparr>cl_bds := filter (\<lambda>b. bd_Name b \<noteq> bd_Name bd) (cl_bds c)\<rparr>)"
| create_cm:
    "cl_cms c (cm_Namespace cm, cm_Name cm) = None
     \<Longrightarrow> ConfigMap_ValidateCreate (Inr (cl_bds c)) cm = Ok ()
     \<Longrightarrow> admission_step NewAggregate ns c
           (c\<lparr>cl_cms := (cl_cms c)((cm_Namespace cm, cm_Name cm) \<mapsto> cm)\<rparr>)"
| update_cm:
    "cl_cms c (cm_Namespace cm, cm_Name cm) = Some old
     \<Longrightarrow> ConfigMap_ValidateUpdate old cm = Ok ()
     \<Longrightarrow> (cm_Immutable old = Some True
          \<longrightarrow> cm_Immutable cm = Some True \<and> cm_Data cm = cm_Data old \<and> cm_BinaryData cm = cm_BinaryData old)
     \<Longrightarrow> admission_step NewAggregate ns c
           (c\<lparr>cl_cms := (cl_cms c)((cm_Namespace cm, cm_Name cm) \<mapsto> cm)\<rparr>)"
| delete_cm:
    "cl_cms c (cm_Namespace cm, cm_Name cm) = Some cm
     \<Longrightarrow> ConfigMap_ValidateDelete (Inr (cl_bds c)) cm = Ok ()
     \<Longrightarrow> admission_step NewAggregate ns c
           (c\<lparr>cl_cms := (cl_cms c)((cm_Namespace cm, cm_Name cm) := None)\<rparr>)"

text \<open>A bundle deployment that sources its content from a config map of that name.\<close>

definition references :: "BundleDeployment \<Rightarrow> string \<Rightarrow> bool" where
  "references bd name \<longleftrightarrow>
     src_Type (bd_Source bd) = SourceTypeConfigMaps
     \<and> name \<in> cms_ConfigMap ` set (config_map_refs (bd_Source bd))"

text \<open>Every config map of the system namespace that a bundle deployment references is immutable.\<close>

definition referenced_immutable :: "string \<Rightarrow> cluster \<Rightarrow> bool" where
  "referenced_immutable ns c \<longleftrightarrow>
     (\<forall>bd \<in> set (cl_bds c). \<forall>name cm.
        references bd name \<longrightarrow> cl_cms c (ns, name) = Some cm \<longrightarrow> cm_Immutable cm = Some True)"

section \<open>What admission guarantees\<close>

lemma config_map_errs_Nil_iff:
  "config_map_errs Get ns i cs = []
   \<longleftrightarrow> (\<forall>r \<in> set cs. \<not> path_outside_root (cms_Path r)
              \<and> verifyConfigMapImmutable Get ns (cms_ConfigMap r) = None)"
  by (induction Get ns i cs rule: config_map_errs.induct) (auto split: option.splits)

lemma check_source_configmaps:
  assumes "aggregate_law NewAggregate" and "src_Type (bd_Source bd) = SourceTypeConfigMaps"
  shows "checkBundleDeploymentSource NewAggregate Get ns bd = Ok ()
         \<longleftrightarrow> config_map_refs (bd_Source bd) \<noteq> []
             \<and> (\<forall>r \<in> set (config_map_refs (bd_Source bd)). \<not> path_outside_root (cms_Path r)
                   \<and> verifyConfigMapImmutable Get ns (cms_ConfigMap r) = None)"
  using assms config_map_errs_Nil_iff [of Get ns 0 "config_map_refs (bd_Source bd)"]
  by (auto simp: checkBundleDeploymentSource_def Let_def aggregate_law_def split: option.splits)

lemma verify_immutable_on_cluster:
  "verifyConfigMapImmutable (cluster_get c) ns name = None
   \<longleftrightarrow> (\<forall>cm. cl_cms c (ns, name) = Some cm \<longrightarrow> cm_Immutable cm = Some True)"
  by (auto simp: verifyConfigMapImmutable_def cluster_get_def IgnoreNotFound_def go_simps
      split: option.splits)

lemma admitted_bd_references_immutable:
  assumes "aggregate_law NewAggregate"
    and "checkBundleDeploymentSource NewAggregate (cluster_get c) ns bd = Ok ()"
    and "references bd name" and "cl_cms c (ns, name) = Some cm"
  shows "cm_Immutable cm = Some True"
  using assms check_source_configmaps [OF assms(1), of bd "cluster_get c" ns] verify_immutable_on_cluster
  by (auto simp: references_def)

lemma bundle_referrers_Nil_iff:
  "bundle_referrers name bs = [] \<longleftrightarrow> (\<forall>b \<in> set bs. \<not> references b name)"
  by (induction bs) (auto simp: references_def filter_empty_conv)

lemma first_user_None_iff:
  "first_user name bs = None
   \<longleftrightarrow> (\<forall>b \<in> set bs. name \<notin> cms_ConfigMap ` set (config_map_refs (bd_Source b)))"
  by (induction bs) (auto simp: list_ex_iff)

lemma create_cm_admitted_iff:
  "ConfigMap_ValidateCreate (Inr bds) cm = Ok ()
   \<longleftrightarrow> cm_Immutable cm = Some True \<or> (\<forall>b \<in> set bds. \<not> references b (cm_Name cm))"
  by (simp add: ConfigMap_ValidateCreate_def Let_def bundle_referrers_Nil_iff)

lemma delete_cm_admitted_iff:
  "ConfigMap_ValidateDelete (Inr bds) cm = Ok ()
   \<longleftrightarrow> (\<forall>b \<in> set bds. cm_Name cm \<notin> cms_ConfigMap ` set (config_map_refs (bd_Source b)))"
  by (auto simp: ConfigMap_ValidateDelete_def first_user_None_iff [symmetric] split: option.splits)

lemmas validators = BundleDeployment_ValidateCreate_def BundleDeployment_ValidateUpdate_def
  BundleDeployment_ValidateDelete_def ConfigMap_ValidateUpdate_def

lemma admission_step_keeps:
  assumes law: "aggregate_law NewAggregate"
    and inv: "referenced_immutable ns c" and step: "admission_step NewAggregate ns c c'"
  shows "referenced_immutable ns c'"
  using step
proof cases
  case (create_bd bd)
  with inv admitted_bd_references_immutable [OF law, of c ns bd] show ?thesis
    by (auto simp: referenced_immutable_def validators)
next
  case (update_bd old new)
  with inv admitted_bd_references_immutable [OF law, of c ns new] show ?thesis
    by (auto simp: referenced_immutable_def validators split: if_splits)
next
  case (delete_bd bd)
  with inv show ?thesis by (auto simp: referenced_immutable_def)
next
  case (create_cm cm)
  with inv show ?thesis by (auto simp: referenced_immutable_def create_cm_admitted_iff)
next
  case (update_cm cm old)
  with inv show ?thesis by (auto simp: referenced_immutable_def)
next
  case (delete_cm cm)
  with inv show ?thesis by (auto simp: referenced_immutable_def)
qed

text \<open>A referenced config map that exists is kept, with its content, by every step.\<close>

definition has_content ::
  "string \<Rightarrow> string \<Rightarrow> (string \<times> string) list \<Rightarrow> (string \<times> string) list \<Rightarrow> cluster \<Rightarrow> bool" where
  "has_content ns name data bin c \<longleftrightarrow>
     (\<exists>cm. cl_cms c (ns, name) = Some cm \<and> cm_Data cm = data \<and> cm_BinaryData cm = bin)"

definition referenced :: "string \<Rightarrow> cluster \<Rightarrow> bool" where
  "referenced name c \<longleftrightarrow> (\<exists>bd \<in> set (cl_bds c). references bd name)"

lemma admission_step_content:
  assumes "referenced_immutable ns c" and "admission_step NewAggregate ns c c'"
    and "referenced name c" and "has_content ns name data bin c"
  shows "has_content ns name data bin c'"
  using assms(2)
proof cases
  case (update_cm cm old)
  with assms show ?thesis
    by (auto simp: has_content_def referenced_def referenced_immutable_def)
next
  case (delete_cm cm)
  then have "\<not> referenced (cm_Name cm) c"
    unfolding delete_cm_admitted_iff referenced_def references_def by blast
  with delete_cm assms(3,4) show ?thesis by (auto simp: has_content_def)
qed (use assms in \<open>auto simp: has_content_def\<close>)

interpretation admission: guarded_machine
  "\<lambda>c. cl_bds c = []" "\<lambda>c c'. aggregate_law NewAggregate \<and> admission_step NewAggregate ns c c'"
  "referenced_immutable ns" for NewAggregate ns
proof unfold_locales
  show "referenced_immutable ns c" if "cl_bds c = []" for c
    using that by (simp add: referenced_immutable_def)
qed (auto intro: admission_step_keeps)

section \<open>Properties\<close>

text \<open>C15. Starting from a cluster without bundle deployments, whatever sequence of admitted
  requests follows (creations, updates and deletions of bundle deployments and config
  maps), every config map of the system namespace that a bundle deployment sources its
  content from is immutable.\<close>

theorem referenced_configmaps_immutable:
  assumes "aggregate_law NewAggregate" and "cl_bds c = []" and "(admission_step NewAggregate ns)\<^sup>*\<^sup>* c c'"
    and "bd \<in> set (cl_bds c')" and "references bd name" and "cl_cms c' (ns, name) = Some cm"
  shows "cm_Immutable cm = Some True"
proof -
  have "referenced_immutable ns c'"
    using admission.reachable_invar [of c NewAggregate ns c'] assms(1-3) by simp
  with assms(4-6) show ?thesis by (auto simp: referenced_immutable_def)
qed

text \<open>A cluster with one immutable config map, and a bundle deployment that sources from it.\<close>

definition demo_cm :: ConfigMap where
  "demo_cm = \<lparr>cm_Name = ''cm'', cm_Namespace = ''sys'', cm_Immutable = Some True,
     cm_Data = [(''a.yaml'', ''x'')], cm_BinaryData = []\<rparr>"

definition demo_bd :: "string \<Rightarrow> BundleDeployment" where
  "demo_bd path = mk_bd ''bd'' ''p'' ((empty_source SourceTypeConfigMaps)
     \<lparr>src_ConfigMaps := Some [\<lparr>cms_ConfigMap = ''cm'', cms_Path = path\<rparr>]\<rparr>)"

definition demo_cluster :: "BundleDeployment list \<Rightarrow> cluster" where
  "demo_cluster bds = \<lparr>cl_cms = [(''sys'', ''cm'') \<mapsto> demo_cm], cl_bds = bds\<rparr>"

lemma demo_refs [simp]:
  "bd_Name (demo_bd p) = ''bd''" "src_Type (bd_Source (demo_bd p)) = SourceTypeConfigMaps"
  "config_map_refs (bd_Source (demo_bd p)) = [\<lparr>cms_ConfigMap = ''cm'', cms_Path = p\<rparr>]"
  by (simp_all add: demo_bd_def mk_bd_def empty_source_def empty_meta_def config_map_refs_def)

lemma demo_admitted:
  "\<not> path_outside_root p
   \<Longrightarrow> checkBundleDeploymentSource plain_aggregate (cluster_get (demo_cluster bds)) ''sys'' (demo_bd p) = Ok ()"
  by (simp add: check_source_configmaps plain_aggregate_law verify_immutable_on_cluster
      demo_cluster_def demo_cm_def)

lemma demo_create_step:
  "admission_step plain_aggregate ''sys'' (demo_cluster []) (demo_cluster [demo_bd ''manifests''])"
proof -
  have "\<not> path_outside_root ''manifests''"
    by (simp add: path_outside_root_def Clean_def is_rooted_def path_elems_def HasPrefix_def)
  then have "admission_step plain_aggregate ''sys'' (demo_cluster [])
      ((demo_cluster [])\<lparr>cl_bds := cl_bds (demo_cluster []) @ [demo_bd ''manifests'']\<rparr>)"
    by (intro admission_step.create_bd) (auto simp: demo_cluster_def validators
        demo_admitted [of _ "[]", unfolded demo_cluster_def])
  then show ?thesis by (simp add: demo_cluster_def)
qed

theorem referenced_configmaps_immutable_witness:
  "(admission_step plain_aggregate ''sys'')\<^sup>*\<^sup>* (demo_cluster []) (demo_cluster [demo_bd ''manifests''])
   \<and> cm_Immutable demo_cm = Some True"
proof
  show run: "(admission_step plain_aggregate ''sys'')\<^sup>*\<^sup>* (demo_cluster []) (demo_cluster [demo_bd ''manifests''])"
    by (rule r_into_rtranclp) (rule demo_create_step)
  show "cm_Immutable demo_cm = Some True"
    by (rule referenced_configmaps_immutable [OF plain_aggregate_law _ run, of "demo_bd ''manifests''" "''cm''"])
      (simp_all add: demo_cluster_def references_def)
qed

text \<open>While some bundle deployment references a config map of the system namespace, no
  admitted request removes the config map or changes its content: what was there at the
  start of the run is there, unchanged, at its end.\<close>

theorem referenced_configmap_content_stable:
  assumes "aggregate_law NewAggregate" and "referenced_immutable ns c"
    and "(\<lambda>x y. admission_step NewAggregate ns x y \<and> referenced name x)\<^sup>*\<^sup>* c c'"
    and "has_content ns name data bin c"
  shows "has_content ns name data bin c'"
  using admission.run_stable [where NewAggregate = NewAggregate and ns = ns and P = "referenced name"
      and Q = "has_content ns name data bin" and s = c and t = c'] assms admission_step_content
  by simp

lemma demo_update_step:
  "admission_step plain_aggregate ''sys'' (demo_cluster [demo_bd ''manifests'']) (demo_cluster [demo_bd ''manifests''])"
proof -
  let ?c = "demo_cluster [demo_bd ''manifests'']"
  have "admission_step plain_aggregate ''sys'' ?c
      (?c\<lparr>cl_cms := (cl_cms ?c)((cm_Namespace demo_cm, cm_Name demo_cm) \<mapsto> demo_cm)\<rparr>)"
    by (rule admission_step.update_cm [of _ _ demo_cm])
      (simp_all add: demo_cluster_def demo_cm_def validators)
  then show ?thesis
    by (simp add: demo_cluster_def demo_cm_def)
qed

theorem referenced_configmap_content_stable_witness:
  "admission_step plain_aggregate ''sys'' (demo_cluster [demo_bd ''manifests'']) (demo_cluster [demo_bd ''manifests''])
   \<and> has_content ''sys'' ''cm'' [(''a.yaml'', ''x'')] [] (demo_cluster [demo_bd ''manifests''])"
proof
  let ?c = "demo_cluster [demo_bd ''manifests'']"
  show "admission_step plain_aggregate ''sys'' ?c ?c" by (rule demo_update_step)
  show "has_content ''sys'' ''cm'' [(''a.yaml'', ''x'')] [] ?c"
  proof (rule referenced_configmap_content_stable [OF plain_aggregate_law])
    show "(\<lambda>x y. admission_step plain_aggregate ''sys'' x y \<and> referenced ''cm'' x)\<^sup>*\<^sup>* ?c ?c"
      by (rule r_into_rtranclp) (use demo_update_step in \<open>simp add: referenced_def references_def demo_cluster_def\<close>)
  qed (simp_all add: referenced_immutable_def references_def has_content_def demo_cluster_def demo_cm_def)
qed

text \<open>C39. The config-map paths of an admitted bundle deployment: a relative path is accepted
  exactly when it stays inside the bundle root or cleans to the parent directory itself
  (the prefix test for ../ does not see the path ..), and referenced config maps that
  exist are immutable.\<close>

theorem configmaps_source_admitted_iff:
  assumes "aggregate_law NewAggregate" and "src_Type (bd_Source bd) = SourceTypeConfigMaps"
    and "\<forall>r \<in> set (config_map_refs (bd_Source bd)). \<not> is_rooted (cms_Path r)"
  shows "BundleDeployment_ValidateCreate NewAggregate (cluster_get c) ns bd = Ok ()
         \<longleftrightarrow> config_map_refs (bd_Source bd) \<noteq> []
             \<and> (\<forall>r \<in> set (config_map_refs (bd_Source bd)).
                   (contained (cms_Path r) \<or> Clean (cms_Path r) = dotdot)
                   \<and> (\<forall>cm. cl_cms c (ns, cms_ConfigMap r) = Some cm \<longrightarrow> cm_Immutable cm = Some True))"
proof -
  have "path_outside_root p \<longleftrightarrow> \<not> (contained p \<or> Clean p = dotdot)" if "\<not> is_rooted p" for p
    using contained_iff_Clean [OF that] by (auto simp: path_outside_root_def HasPrefix_def)
  with assms show ?thesis
    by (simp add: validators check_source_configmaps verify_immutable_on_cluster)
qed

theorem configmaps_source_admitted_iff_witness:
  "BundleDeployment_ValidateCreate plain_aggregate (cluster_get (demo_cluster [])) ''sys'' (demo_bd ''a/../..'') = Ok ()
   \<and> \<not> contained ''a/../..''
   \<and> BundleDeployment_ValidateCreate plain_aggregate (cluster_get (demo_cluster [])) ''sys'' (demo_bd ''../x'') \<noteq> Ok ()"
proof -
  have rel: "\<not> is_rooted ''a/../..''" "\<not> is_rooted ''../x''" by (simp_all add: is_rooted_def HasPrefix_def)
  have "Clean ''a/../..'' = dotdot" "Clean ''../x'' = ''../x''"
    by (simp_all add: Clean_def is_rooted_def path_elems_def HasPrefix_def)
  then have "\<not> contained ''a/../..''" "\<not> contained ''../x''" "Clean ''../x'' \<noteq> dotdot"
    using contained_iff_Clean rel by (simp_all add: HasPrefix_def)
  with \<open>Clean ''a/../..'' = dotdot\<close> rel show ?thesis
    using configmaps_source_admitted_iff [OF plain_aggregate_law, of "demo_bd ''a/../..''" "demo_cluster []" "''sys''"]
      configmaps_source_admitted_iff [OF plain_aggregate_law, of "demo_bd ''../x''" "demo_cluster []" "''sys''"]
    by (simp add: demo_cluster_def demo_cm_def)
qed

end
