(* ===== verification/Sources.thy ===== *)
theory Sources
  imports Storage Webhooks "HOL-Library.Multiset"
begin

text \<open>
  The bundle sources of pkg/source that read their content directly: config maps
  (configmaps.go), HTTP (http.go) and git (git.go, with the adapter from billy file
  systems), and the composite unpacker that picks a source by type (unpacker.go). Cluster
  reads, the network and go-git are parameters. The interface \<open>Unpacker\<close> is the locale
  \<open>bundle_source\<close>.
\<close>

section \<open>Results\<close>

definition StatePending :: string where "StatePending = ''Pending''"
definition StateUnpacking :: string where "StateUnpacking = ''Unpacking''"
definition StateUnpacked :: string where "StateUnpacked = ''Unpacked''"

lemma unpack_states_distinct [simp]:
  "StatePending \<noteq> StateUnpacking" "StatePending \<noteq> StateUnpacked" "StateUnpacking \<noteq> StateUnpacked"
  "StateUnpacking \<noteq> StatePending" "StateUnpacked \<noteq> StatePending" "StateUnpacked \<noteq> StateUnpacking"
  by (simp_all add: StatePending_def StateUnpacking_def StateUnpacked_def)

record Result =
  res_Bundle :: "fs_FS option"
  res_ResolvedSource :: "BundleSource option"
  res_State :: string
  res_Message :: string

definition generateMessage :: "string \<Rightarrow> string" where
  "generateMessage bundleName = ''Successfully unpacked the '' @ bundleName @ '' Bundle''"

text \<open>A value of the interface \<open>Unpacker\<close>, over a world of type \<open>'w\<close>.\<close>

record 'w Unpacker =
  up_Unpack :: "BundleDeployment \<Rightarrow> ('w, Result) M"
  up_Cleanup :: "BundleDeployment \<Rightarrow> ('w, unit) M"

section \<open>The interface of a source\<close>

text \<open>
  What the controller relies on: a source answers only for its own type, with one of the three
  states; a finished one comes with the bundle and a resolved source of the type.
\<close>

definition result_ok :: "SourceType \<Rightarrow> Result \<Rightarrow> bool" where
  "result_ok t r \<longleftrightarrow>
     res_State r = StatePending \<or> res_State r = StateUnpacking
     \<or> (res_State r = StateUnpacked \<and> res_Bundle r \<noteq> None
        \<and> (case res_ResolvedSource r of None \<Rightarrow> False | Some s \<Rightarrow> src_Type s = t))"

locale bundle_source =
  fixes unpack :: "BundleDeployment \<Rightarrow> ('w, Result) M" and stype :: SourceType
  assumes unpack_ok: "unpack bd w = (Ok r, w') \<Longrightarrow> src_Type (bd_Source bd) = stype \<and> result_ok stype r"
begin

lemma finished:
  assumes "unpack bd w = (Ok r, w')" and "res_State r = StateUnpacked"
  obtains b s where "res_Bundle r = Some b" "res_ResolvedSource r = Some s" "src_Type s = src_Type (bd_Source bd)"
  using unpack_ok [OF assms(1)] assms(2) that by (auto simp: result_ok_def split: option.splits)

lemma states: "unpack bd w = (Ok r, w') \<Longrightarrow> res_State r \<in> {StatePending, StateUnpacking, StateUnpacked}"
  using unpack_ok [of bd w r w'] by (auto simp: result_ok_def)

end

section \<open>The composite unpacker\<close>

definition unpacker_Unpack :: "(SourceType \<rightharpoonup> 'w Unpacker) \<Rightarrow> BundleDeployment \<Rightarrow> ('w, Result) M" where
  "unpacker_Unpack sources bundle w =
     (case sources (src_Type (bd_Source bundle)) of
        None \<Rightarrow> (Err (Msg (''source type '' @ fmt_q (src_Type (bd_Source bundle)) @ '' not supported'')), w)
      | Some source \<Rightarrow> up_Unpack source bundle w)"

definition unpacker_Cleanup :: "(SourceType \<rightharpoonup> 'w Unpacker) \<Rightarrow> BundleDeployment \<Rightarrow> ('w, unit) M" where
  "unpacker_Cleanup sources bundle w =
     (case sources (src_Type (bd_Source bundle)) of
        None \<Rightarrow> (Err (Msg (''source type '' @ fmt_q (src_Type (bd_Source bundle)) @ '' not supported'')), w)
      | Some source \<Rightarrow> up_Cleanup source bundle w)"

definition NewUnpacker :: "(SourceType \<rightharpoonup> 'w Unpacker) \<Rightarrow> 'w Unpacker" where
  "NewUnpacker sources = \<lparr>up_Unpack = unpacker_Unpack sources, up_Cleanup = unpacker_Cleanup sources\<rparr>"

section \<open>Config maps\<close>

text \<open>
  The two maps the loop fills: the files of the bundle, and for each path the names of the config
  maps that gave it. \<open>assign\<close> is assignment to a map element.
\<close>

fun assign :: "'k \<Rightarrow> 'v \<Rightarrow> ('k \<times> 'v) list \<Rightarrow> ('k \<times> 'v) list" where
  "assign k v [] = [(k, v)]"
| "assign k v ((k', v') # m) = (if k' = k then (k, v) # m else (k', v') # assign k v m)"

record cm_unpack =
  cu_bundleFS :: "(string \<times> MapFile) list"
  cu_seen :: "(string \<times> string set) list"

definition plain_file :: "string \<Rightarrow> MapFile" where
  "plain_file data = \<lparr>mf_Data = data, mf_Type = RegularFile, mf_Perm = 0\<rparr>"

definition addToBundle :: "string \<Rightarrow> string \<Rightarrow> string \<times> string \<Rightarrow> cm_unpack \<Rightarrow> cm_unpack" where
  "addToBundle dir cmName fd st =
     (let path = Join [dir, fst fd];
          names = (case map_of (cu_seen st) path of None \<Rightarrow> {} | Some ns \<Rightarrow> ns)
      in st\<lparr>cu_seen := assign path (insert cmName names) (cu_seen st),
            cu_bundleFS := assign path (plain_file (snd fd)) (cu_bundleFS st)\<rparr>)"

text \<open>Iterating over a Go map: some order of its entries.\<close>

type_synonym map_order = "(string \<times> string) list \<Rightarrow> (string \<times> string) list"

definition cm_entries :: "map_order \<Rightarrow> ConfigMap \<Rightarrow> (string \<times> string) list" where
  "cm_entries iter cm = iter (cm_Data cm) @ iter (cm_BinaryData cm)"

fun cm_loop :: "map_order \<Rightarrow> configmap_getter \<Rightarrow> string \<Rightarrow> ConfigMapSource list \<Rightarrow> cm_unpack \<Rightarrow> cm_unpack outcome" where
  "cm_loop iter Get ns [] st = Ok st"
| "cm_loop iter Get ns (cmSource # rest) st =
     (let cmName = cms_ConfigMap cmSource; dir = Clean (cms_Path cmSource) in
      case Get ns cmName of
        Inl err \<Rightarrow> Err (Msg (''get configmap '' @ ns @ ''/'' @ cmName @ '': '' @ Error err))
      | Inr cm \<Rightarrow> cm_loop iter Get ns rest (fold (addToBundle dir cmName) (cm_entries iter cm) st))"

text \<open>The check for a path given by several config maps; \<open>order\<close> is the order of that map. A nil aggregate
  would be returned with a nil result, which the caller dereferences.\<close>

definition duplicate_errs :: "(string \<times> string set) list \<Rightarrow> gerror list" where
  "duplicate_errs seen =
     map (\<lambda>(path, names). Msg (''duplicate path '' @ fmt_q path @ '' found in configmaps '' @ fmt_v_strings (sets_List names)))
       (filter (\<lambda>(path, names). card names > 1) seen)"

definition ConfigMaps_Unpack ::
  "new_aggregate \<Rightarrow> map_order \<Rightarrow> ((string \<times> string set) list \<Rightarrow> (string \<times> string set) list)
   \<Rightarrow> configmap_getter \<Rightarrow> string \<Rightarrow> BundleDeployment \<Rightarrow> Result outcome" where
  "ConfigMaps_Unpack NewAggregate iter order Get ConfigMapNamespace bundle =
     (if src_Type (bd_Source bundle) \<noteq> SourceTypeConfigMaps
      then Err (Msg (''bundle source type '' @ fmt_q (src_Type (bd_Source bundle)) @ '' not supported''))
      else
        (case src_ConfigMaps (bd_Source bundle) of
           None \<Rightarrow> Err (Msg ''bundle source configmaps configuration is unset'')
         | Some configMapSources \<Rightarrow>
             obind (cm_loop iter Get ConfigMapNamespace configMapSources \<lparr>cu_bundleFS = [], cu_seen = []\<rparr>)
               (\<lambda>st.
                  (let errs = duplicate_errs (order (cu_seen st)) in
                   if errs \<noteq> []
                   then (case NewAggregate errs of Some e \<Rightarrow> Err e | None \<Rightarrow> Panic ''nil result with nil error'')
                   else Ok \<lparr>res_Bundle = Some (MapFS (cu_bundleFS st)),
                            res_ResolvedSource = Some ((empty_source SourceTypeConfigMaps)\<lparr>src_ConfigMaps := Some configMapSources\<rparr>),
                            res_State = StateUnpacked, res_Message = generateMessage ''configMaps''\<rparr>))))"

section \<open>HTTP\<close>

type_synonym secret_getter = "string \<Rightarrow> string \<Rightarrow> Secret result"

definition secret_value :: "Secret \<Rightarrow> string \<Rightarrow> string" where
  "secret_value s k = (case secret_Data s k of None \<Rightarrow> [] | Some v \<Rightarrow> v)"

definition HTTP_getCredentials :: "secret_getter \<Rightarrow> string \<Rightarrow> HTTPSource \<Rightarrow> (string \<times> string) result" where
  "HTTP_getCredentials Get SecretNamespace h =
     (case Get SecretNamespace (auth_Secret (http_Auth h)) of
        Inl err \<Rightarrow> Inl err
      | Inr secret \<Rightarrow> Inr (secret_value secret ''username'', secret_value secret ''password''))"

text \<open>\<open>b64\<close> is the base-64 encoding of \<open>Request.SetBasicAuth\<close>.\<close>

definition http_authorize :: "(string \<Rightarrow> string) \<Rightarrow> secret_getter \<Rightarrow> string \<Rightarrow> HTTPSource \<Rightarrow> http_request \<Rightarrow> http_request result" where
  "http_authorize b64 Get SecretNamespace h req =
     (if auth_Secret (http_Auth h) \<noteq> []
      then (case HTTP_getCredentials Get SecretNamespace h of
              Inl err \<Rightarrow> Inl err
            | Inr (u, p) \<Rightarrow> Inr (req\<lparr>req_Header := (req_Header req)(''Authorization'' \<mapsto> ''Basic '' @ b64 (u @ '':'' @ p))\<rparr>))
      else Inr req)"

definition http_tls :: "HTTPSource \<Rightarrow> tls_config option" where
  "http_tls h =
     (if auth_InsecureSkipVerify (http_Auth h)
      then Some \<lparr>tls_MinVersion = 0, tls_InsecureSkipVerify = True, tls_RootCAs = None\<rparr> else None)"

text \<open>From the response on.\<close>

definition http_response_fs :: "tarfs_new \<Rightarrow> string \<Rightarrow> http_response \<Rightarrow> fs_FS outcome" where
  "http_response_fs tarfs_New action resp =
     (if resp_StatusCode resp \<noteq> 200
      then Err (Msg (action @ '': unexpected status '' @ fmt_q (resp_Status resp)))
      else
        (case gzip_NewReader (resp_Body resp) of
           Inl err \<Rightarrow> Err err
         | Inr tarReader \<Rightarrow>
             (case tarfs_New tarReader of
                Inl err \<Rightarrow> Err (Msg (''error creating FS: '' @ Error err))
              | Inr fsys \<Rightarrow> Ok fsys)))"

text \<open>A nil \<open>http\<close> field is dereferenced.\<close>

definition HTTP_Unpack ::
  "tarfs_new \<Rightarrow> (string \<Rightarrow> gerror option) \<Rightarrow> http_do \<Rightarrow> (string \<Rightarrow> string) \<Rightarrow> secret_getter \<Rightarrow> string \<Rightarrow> BundleDeployment
   \<Rightarrow> Result outcome" where
  "HTTP_Unpack tarfs_New url_error Do b64 Get SecretNamespace bundle =
     (if src_Type (bd_Source bundle) \<noteq> SourceTypeHTTP
      then Err (Msg (''cannot unpack source type '' @ fmt_q (src_Type (bd_Source bundle)) @ '' with '' @ fmt_q SourceTypeHTTP @ '' unpacker''))
      else
        (case src_HTTP (bd_Source bundle) of
           None \<Rightarrow> Panic ''nil pointer dereference''
         | Some h \<Rightarrow>
             (let action = ''GET '' @ http_URL h in
              case new_request url_error (http_URL h) of
                Inl err \<Rightarrow> Err (Msg (''create http request '' @ fmt_q action @ '' for bundle content: '' @ Error err))
              | Inr req0 \<Rightarrow>
                  (case http_authorize b64 Get SecretNamespace h req0 of
                     Inl err \<Rightarrow> Err err
                   | Inr req \<Rightarrow>
                       (case Do 10 (http_tls h) req of
                          Inl err \<Rightarrow> Err (Msg (action @ '': http request for bundle content failed: '' @ Error err))
                        | Inr resp \<Rightarrow>
                            obind (http_response_fs tarfs_New action resp) (\<lambda>fsys.
                              Ok \<lparr>res_Bundle = Some fsys, res_ResolvedSource = Some (bd_Source bundle),
                                  res_State = StateUnpacked, res_Message = generateMessage ''http''\<rparr>))))))"

section \<open>Git\<close>

subsection \<open>From a billy file system to an \<open>fs.FS\<close>\<close>

text \<open>A billy file system: opening (and then reading) a file, its information, a directory's list.\<close>

record billy =
  bl_Open :: "string \<Rightarrow> string result result"
  bl_Stat :: "string \<Rightarrow> FileInfo result"
  bl_ReadDir :: "string \<Rightarrow> FileInfo list result"

definition billyFS_ReadFile :: "billy \<Rightarrow> string \<Rightarrow> string result" where
  "billyFS_ReadFile f name = (case bl_Open f name of Inl err \<Rightarrow> Inl err | Inr file \<Rightarrow> file)"

text \<open>An opened file answers with the information it was opened with; reading an opened directory fails.\<close>

definition billyFile_Stat :: "FileInfo \<Rightarrow> FileInfo result" where
  "billyFile_Stat fi = Inr fi"

definition billyDirFile_Read :: "string \<Rightarrow> string result" where
  "billyDirFile_Read path = Inl (Msg (''read '' @ path @ '': is a directory''))"

declare billyFile_Stat_def [simp] billyDirFile_Read_def [simp]

definition billyFS_Open :: "billy \<Rightarrow> string \<Rightarrow> fs_File result" where
  "billyFS_Open f path =
     (case bl_Stat f path of
        Inl err \<Rightarrow> Inl err
      | Inr fi \<Rightarrow>
          if fi_Type fi = Directory
          then Inr \<lparr>file_Stat = billyFile_Stat fi, file_Data = billyDirFile_Read path\<rparr>
          else
            (case bl_Open f path of
               Inl err \<Rightarrow> Inl err
             | Inr file \<Rightarrow> Inr \<lparr>file_Stat = billyFile_Stat fi, file_Data = file\<rparr>))"

definition billyFS_ReadDir :: "billy \<Rightarrow> string \<Rightarrow> DirEntry list result" where
  "billyFS_ReadDir f name =
     (case bl_ReadDir f name of Inl err \<Rightarrow> Inl err | Inr fis \<Rightarrow> Inr (map FileInfoToDirEntry fis))"

definition billyFS :: "billy \<Rightarrow> fs_FS" where
  "billyFS f = \<lparr>fs_Open = billyFS_Open f, fs_ReadDir = billyFS_ReadDir f\<rparr>"

text \<open>\<open>ReadDir\<close> of an opened directory: the first \<open>n\<close> entries, all of them for a non-positive \<open>n\<close>, and the
  error of the listing.\<close>

definition billyDirFile_ReadDir :: "billy \<Rightarrow> string \<Rightarrow> int \<Rightarrow> DirEntry list \<times> gerror option" where
  "billyDirFile_ReadDir f path n =
     (let (entries, err) = (case billyFS_ReadDir f path of Inl e \<Rightarrow> ([], Some e) | Inr es \<Rightarrow> (es, None));
          n = (if n \<le> 0 \<or> n > int (length entries) then int (length entries) else n)
      in (take (nat n) entries, err))"

subsection \<open>Authentication\<close>

text \<open>The ways to check the host's key: the library's default, none, or one fixed key.\<close>

datatype 'k host_key_check = DefaultHostKey | InsecureIgnoreHostKey | FixedHostKey 'k

datatype ('s, 'k) auth_method =
    BasicAuth string string
  | PublicKeys string 's "'k host_key_check"

definition Git_getCredentials :: "secret_getter \<Rightarrow> string \<Rightarrow> GitSource \<Rightarrow> (string \<times> string) result" where
  "Git_getCredentials Get SecretNamespace g =
     (case Get SecretNamespace (auth_Secret (git_Auth g)) of
        Inl err \<Rightarrow> Inl err
      | Inr secret \<Rightarrow> Inr (secret_value secret ''username'', secret_value secret ''password''))"

definition getCertificate :: "secret_getter \<Rightarrow> string \<Rightarrow> GitSource \<Rightarrow> (string \<times> string option) result" where
  "getCertificate Get SecretNamespace g =
     (case Get SecretNamespace (auth_Secret (git_Auth g)) of
        Inl err \<Rightarrow> Inl err
      | Inr secret \<Rightarrow> Inr (secret_value secret ''ssh-privatekey'', secret_Data secret ''ssh-knownhosts''))"

text \<open>The library's parsers of a private key and of a known-hosts entry (its public key).\<close>

definition configAuth ::
  "(string \<Rightarrow> 's result) \<Rightarrow> (string \<Rightarrow> 'k result) \<Rightarrow> secret_getter \<Rightarrow> string \<Rightarrow> GitSource \<Rightarrow> ('s, 'k) auth_method result" where
  "configAuth ParsePrivateKey ParseKnownHosts Get SecretNamespace g =
     (if HasPrefix (git_Repository g) ''http'' then
        (case Git_getCredentials Get SecretNamespace g of
           Inl err \<Rightarrow> Inl err
         | Inr (userName, password) \<Rightarrow> Inr (BasicAuth userName password))
      else
        (case getCertificate Get SecretNamespace g of
           Inl err \<Rightarrow> Inl err
         | Inr (privatekey, host) \<Rightarrow>
             (case ParsePrivateKey privatekey of
                Inl err \<Rightarrow> Inl err
              | Inr signer \<Rightarrow>
                  if auth_InsecureSkipVerify (git_Auth g) then Inr (PublicKeys ''git'' signer InsecureIgnoreHostKey)
                  else
                    (case host of
                       None \<Rightarrow> Inr (PublicKeys ''git'' signer DefaultHostKey)
                     | Some h \<Rightarrow>
                         (case ParseKnownHosts h of
                            Inl err \<Rightarrow> Inl err
                          | Inr pubKey \<Rightarrow> Inr (PublicKeys ''git'' signer (FixedHostKey pubKey)))))))"

subsection \<open>Unpacking\<close>

record ('s, 'k) CloneOptions =
  co_URL :: string
  co_InsecureSkipTLS :: bool
  co_Auth :: "('s, 'k) auth_method option"
  co_ReferenceName :: string
  co_SingleBranch :: bool
  co_Depth :: nat

text \<open>go-git, over a type of repositories: cloning (with the progress text), the worktree, a hard
  reset to a commit, the worktree's files, its subdirectories, and the commit of HEAD.\<close>

record ('s, 'k, 'r) git_lib =
  gl_Clone :: "('s, 'k) CloneOptions \<Rightarrow> 'r result \<times> string"
  gl_Worktree :: "'r \<Rightarrow> gerror option"
  gl_NewHash :: "string \<Rightarrow> string"
  gl_HardReset :: "'r \<Rightarrow> string \<Rightarrow> 'r result"
  gl_Filesystem :: "'r \<Rightarrow> billy"
  gl_Chroot :: "'r \<Rightarrow> string \<Rightarrow> billy result"
  gl_Head :: "'r \<Rightarrow> string result"

definition clone_options :: "GitSource \<Rightarrow> ('s, 'k) auth_method option \<Rightarrow> ('s, 'k) CloneOptions" where
  "clone_options g auth =
     (let opts = \<lparr>co_URL = git_Repository g, co_InsecureSkipTLS = auth_InsecureSkipVerify (git_Auth g), co_Auth = auth,
                  co_ReferenceName = [], co_SingleBranch = False, co_Depth = 0\<rparr> in
      if ref_Branch (git_Ref g) \<noteq> []
      then opts\<lparr>co_ReferenceName := ''refs/heads/'' @ ref_Branch (git_Ref g), co_SingleBranch := True, co_Depth := 1\<rparr>
      else if ref_Tag (git_Ref g) \<noteq> []
      then opts\<lparr>co_ReferenceName := ''refs/tags/'' @ ref_Tag (git_Ref g), co_SingleBranch := True, co_Depth := 1\<rparr>
      else opts)"

definition checkout_commit :: "('s, 'k, 'r) git_lib \<Rightarrow> GitSource \<Rightarrow> 'r \<Rightarrow> 'r outcome" where
  "checkout_commit lib g repo =
     (if ref_Commit (git_Ref g) \<noteq> [] then
        (let commitHash = gl_NewHash lib (ref_Commit (git_Ref g)) in
         case gl_HardReset lib repo commitHash of
           Inl err \<Rightarrow> Err (Msg (''checkout commit '' @ fmt_q commitHash @ '': '' @ Error err))
         | Inr repo' \<Rightarrow> Ok repo')
      else Ok repo)"

text \<open>The subdirectory test, with its slice and index expressions in the order of evaluation.\<close>

definition subdirectory :: "('s, 'k, 'r) git_lib \<Rightarrow> GitSource \<Rightarrow> 'r \<Rightarrow> billy outcome" where
  "subdirectory lib g repo =
     (if git_Directory g \<noteq> [] then
        (let directory = Clean (git_Directory g) in
         obind (slice_to directory 3) (\<lambda>pre.
         obind (if pre = ''../'' then Ok True else obind (index_at directory 0) (\<lambda>c. Ok (c = CHR ''/''))) (\<lambda>outside.
           if outside
           then Err (Msg (''get subdirectory '' @ fmt_q (git_Directory g) @ '' for repository '' @ fmt_q (git_Repository g)
                          @ '': directory can not start with '' @ [CHR 0x27] @ ''../'' @ [CHR 0x27] @ '' or '' @ [CHR 0x27] @ ''/'' @ [CHR 0x27]))
           else
             (case gl_Chroot lib repo (Clean directory) of
                Inl err \<Rightarrow> Err (Msg (''get subdirectory '' @ fmt_q (git_Directory g) @ '' for repository ''
                                     @ fmt_q (git_Repository g) @ '': '' @ Error err))
              | Inr sub \<Rightarrow> Ok sub))))
      else Ok (gl_Filesystem lib repo))"

definition git_auth ::
  "(string \<Rightarrow> 's result) \<Rightarrow> (string \<Rightarrow> 'k result) \<Rightarrow> secret_getter \<Rightarrow> string \<Rightarrow> GitSource \<Rightarrow> ('s, 'k) auth_method option outcome" where
  "git_auth ParsePrivateKey ParseKnownHosts Get SecretNamespace g =
     (if auth_Secret (git_Auth g) \<noteq> []
      then (case configAuth ParsePrivateKey ParseKnownHosts Get SecretNamespace g of
              Inl err \<Rightarrow> Err (Wrap (''configuring Auth error: '' @ Error err) err)
            | Inr auth \<Rightarrow> Ok (Some auth))
      else Ok None)"

definition git_result :: "GitSource \<Rightarrow> string \<Rightarrow> billy \<Rightarrow> Result" where
  "git_result g commitHash tree =
     \<lparr>res_Bundle = Some (billyFS tree),
      res_ResolvedSource = Some ((empty_source SourceTypeGit)\<lparr>src_Git :=
        Some (g\<lparr>git_Ref := \<lparr>ref_Branch = [], ref_Tag = [], ref_Commit = commitHash\<rparr>\<rparr>)\<rparr>),
      res_State = StateUnpacked, res_Message = generateMessage ''git''\<rparr>"

text \<open>From the worktree on: check out, pick the directory, resolve the commit.\<close>

definition unpack_repo :: "('s, 'k, 'r) git_lib \<Rightarrow> GitSource \<Rightarrow> 'r \<Rightarrow> Result outcome" where
  "unpack_repo lib g repo =
     (case gl_Worktree lib repo of
        Some err \<Rightarrow> Err (Msg (''bundle unpack error: '' @ Error err))
      | None \<Rightarrow>
          obind (checkout_commit lib g repo) (\<lambda>repo.
          obind (subdirectory lib g repo) (\<lambda>tree.
            (case gl_Head lib repo of
               Inl err \<Rightarrow> Err (Msg (''resolve commit hash: '' @ Error err))
             | Inr commitHash \<Rightarrow> Ok (git_result g commitHash tree)))))"

definition Git_Unpack ::
  "('s, 'k, 'r) git_lib \<Rightarrow> (string \<Rightarrow> 's result) \<Rightarrow> (string \<Rightarrow> 'k result) \<Rightarrow> secret_getter \<Rightarrow> string \<Rightarrow> BundleDeployment
   \<Rightarrow> Result outcome" where
  "Git_Unpack lib ParsePrivateKey ParseKnownHosts Get SecretNamespace bundle =
     (if src_Type (bd_Source bundle) \<noteq> SourceTypeGit
      then Err (Msg (''bundle source type '' @ fmt_q (src_Type (bd_Source bundle)) @ '' not supported''))
      else
        (case src_Git (bd_Source bundle) of
           None \<Rightarrow> Err (Msg ''bundle source git configuration is unset'')
         | Some g \<Rightarrow>
             if git_Repository g = [] then Err (Msg ''missing git source information: repository must be provided'')
             else
               obind (git_auth ParsePrivateKey ParseKnownHosts Get SecretNamespace g)
                 (\<lambda>auth.
                    (case gl_Clone lib (clone_options g auth) of
                       (Inl err, progress) \<Rightarrow> Err (Msg (''bundle unpack git clone error: '' @ Error err @ '' - '' @ progress))
                     | (Inr repo, _) \<Rightarrow> unpack_repo lib g repo))))"

section \<open>Lemmas on the config-map source\<close>

lemma map_of_assign [simp]: "map_of (assign k v m) = (map_of m)(k \<mapsto> v)"
  by (induction m) (auto simp: fun_eq_iff)

lemma keys_assign [simp]: "fst ` set (assign k v m) = insert k (fst ` set m)"
  by (induction k v m rule: assign.induct) auto

lemma distinct_assign: "distinct (map fst m) \<Longrightarrow> distinct (map fst (assign k v m))"
  by (induction k v m rule: assign.induct) auto

text \<open>One contribution: a path, the config map it comes from, and the data.\<close>

type_synonym contribution = "string \<times> string \<times> string"

definition cm_contributions :: "map_order \<Rightarrow> configmap_getter \<Rightarrow> string \<Rightarrow> ConfigMapSource \<Rightarrow> contribution list" where
  "cm_contributions iter Get ns r =
     (case Get ns (cms_ConfigMap r) of
        Inl e \<Rightarrow> []
      | Inr cm \<Rightarrow> map (\<lambda>fd. (Join [Clean (cms_Path r), fst fd], cms_ConfigMap r, snd fd)) (cm_entries iter cm))"

definition add_contribution :: "contribution \<Rightarrow> cm_unpack \<Rightarrow> cm_unpack" where
  "add_contribution c st =
     (case c of (path, n, data) \<Rightarrow>
        st\<lparr>cu_seen := assign path (insert n (case map_of (cu_seen st) path of None \<Rightarrow> {} | Some ns \<Rightarrow> ns)) (cu_seen st),
           cu_bundleFS := assign path (plain_file data) (cu_bundleFS st)\<rparr>)"

lemma addToBundle_contribution: "addToBundle dir n = (\<lambda>fd. add_contribution (Join [dir, fst fd], n, snd fd))"
  by (intro ext) (simp add: addToBundle_def add_contribution_def Let_def)

lemma cm_loop_contributions:
  "(\<And>r. r \<in> set refs \<Longrightarrow> \<exists>cm. Get ns (cms_ConfigMap r) = Inr cm)
   \<Longrightarrow> cm_loop iter Get ns refs st = Ok (fold add_contribution (concat (map (cm_contributions iter Get ns) refs)) st)"
proof (induction refs arbitrary: st)
  case (Cons r refs)
  from Cons.prems [of r] obtain cm where "Get ns (cms_ConfigMap r) = Inr cm" by auto
  with Cons show ?case
    by (auto simp: cm_contributions_def fold_map o_def addToBundle_contribution Let_def simp del: Join.simps)
qed simp

lemma cm_loop_Ok_found: "cm_loop iter Get ns refs st = Ok st' \<Longrightarrow> r \<in> set refs \<Longrightarrow> \<exists>cm. Get ns (cms_ConfigMap r) = Inr cm"
  by (induction refs arbitrary: st) (auto simp: Let_def split: sum.splits)

abbreviation start_unpack :: cm_unpack where
  "start_unpack \<equiv> \<lparr>cu_bundleFS = [], cu_seen = []\<rparr>"

lemma fold_seen:
  "map_of (cu_seen (fold add_contribution cs start_unpack)) p =
     (if \<exists>n d. (p, n, d) \<in> set cs then Some {n. \<exists>d. (p, n, d) \<in> set cs} else None)"
proof (induction cs rule: rev_induct)
  case (snoc c cs)
  obtain q m e where c: "c = (q, m, e)" by (cases c) auto
  have "{n. \<exists>d. (q, n, d) \<in> set (cs @ [c])} = insert m {n. \<exists>d. (q, n, d) \<in> set cs}" using c by auto
  moreover have "{n. \<exists>d. (p, n, d) \<in> set (cs @ [c])} = {n. \<exists>d. (p, n, d) \<in> set cs}" if "p \<noteq> q" using c that by auto
  ultimately show ?case using snoc c by (cases "p = q") (auto simp: add_contribution_def)
qed simp

lemma fold_seen_distinct: "distinct (map fst (cu_seen (fold add_contribution cs start_unpack)))"
proof (induction cs rule: rev_induct)
  case (snoc c cs)
  then show ?case by (cases c) (simp add: add_contribution_def distinct_assign)
qed simp

lemma fold_bundle_keys:
  "fst ` set (cu_bundleFS (fold add_contribution cs start_unpack)) = fst ` set cs"
proof (induction cs rule: rev_induct)
  case (snoc c cs)
  then show ?case by (cases c) (simp add: add_contribution_def)
qed simp

lemma fold_bundle_data:
  "map_of (cu_bundleFS (fold add_contribution cs start_unpack)) p = Some f
   \<Longrightarrow> \<exists>n d. (p, n, d) \<in> set cs \<and> f = plain_file d"
proof (induction cs rule: rev_induct)
  case (snoc c cs)
  then show ?case by (cases c) (auto simp: add_contribution_def split: if_splits)
qed simp

text \<open>The contributions as a relation, independent of the order of iteration.\<close>

definition contributes :: "configmap_getter \<Rightarrow> string \<Rightarrow> ConfigMapSource list \<Rightarrow> contribution \<Rightarrow> bool" where
  "contributes Get ns refs c \<longleftrightarrow>
     (\<exists>r \<in> set refs. \<exists>cm f data. Get ns (cms_ConfigMap r) = Inr cm
        \<and> (f, data) \<in> set (cm_Data cm) \<union> set (cm_BinaryData cm)
        \<and> c = (Join [Clean (cms_Path r), f], cms_ConfigMap r, data))"

lemma image_pairs: "(\<lambda>fd. (J (fst fd), n, snd fd)) ` A = {c. \<exists>f data. (f, data) \<in> A \<and> c = (J f, n, data)}"
  by force

lemma set_contributions:
  assumes "\<And>xs. mset (iter xs) = mset xs"
  shows "set (concat (map (cm_contributions iter Get ns) refs)) = {c. contributes Get ns refs c}"
proof -
  have "set (iter xs) = set xs" for xs using assms mset_eq_setD by metis
  then have "set (cm_contributions iter Get ns r) =
      {c. \<exists>cm f data. Get ns (cms_ConfigMap r) = Inr cm \<and> (f, data) \<in> set (cm_Data cm) \<union> set (cm_BinaryData cm)
            \<and> c = (Join [Clean (cms_Path r), f], cms_ConfigMap r, data)}" for r
    using image_pairs [of "\<lambda>f. Join [Clean (cms_Path r), f]" "cms_ConfigMap r"]
    by (cases "Get ns (cms_ConfigMap r)") (simp_all add: cm_contributions_def cm_entries_def flip: image_Un del: Join.simps Un_iff)
  then show ?thesis by (auto simp: contributes_def simp del: Join.simps)
qed

text \<open>No path is given by two different config maps.\<close>

definition paths_unambiguous :: "configmap_getter \<Rightarrow> string \<Rightarrow> ConfigMapSource list \<Rightarrow> bool" where
  "paths_unambiguous Get ns refs \<longleftrightarrow>
     (\<forall>p m n d e. contributes Get ns refs (p, m, d) \<and> contributes Get ns refs (p, n, e) \<longrightarrow> m = n)"

lemma duplicate_errs_empty:
  assumes "\<And>xs. mset (order xs) = mset xs"
  shows "duplicate_errs (order (cu_seen (fold add_contribution cs start_unpack))) = []
    \<longleftrightarrow> (\<forall>p m n d e. (p, m, d) \<in> set cs \<and> (p, n, e) \<in> set cs \<longrightarrow> m = n)"
proof -
  let ?seen = "cu_seen (fold add_contribution cs start_unpack)"
  have "set (order ?seen) = set ?seen" using assms mset_eq_setD by metis
  then have "duplicate_errs (order ?seen) = [] \<longleftrightarrow> (\<forall>(p, ns) \<in> set ?seen. card ns \<le> 1)"
    by (auto simp: duplicate_errs_def filter_empty_conv not_less)
  also have "\<dots> \<longleftrightarrow> (\<forall>p ns. map_of ?seen p = Some ns \<longrightarrow> card ns \<le> 1)"
    using fold_seen_distinct [of cs] by (auto simp: map_of_eq_Some_iff)
  also have "\<dots> \<longleftrightarrow> (\<forall>p. card {n. \<exists>d. (p, n, d) \<in> set cs} \<le> 1)"
  proof -
    have "(\<forall>ns. map_of ?seen p = Some ns \<longrightarrow> card ns \<le> 1) \<longleftrightarrow> card {n. \<exists>d. (p, n, d) \<in> set cs} \<le> 1" for p
      by (cases "\<exists>n d. (p, n, d) \<in> set cs") (auto simp: fold_seen)
    then show ?thesis by simp
  qed
  also have "\<dots> \<longleftrightarrow> (\<forall>p m n d e. (p, m, d) \<in> set cs \<and> (p, n, e) \<in> set cs \<longrightarrow> m = n)"
  proof -
    have "finite {n. \<exists>d. (p, n, d) \<in> set cs}" for p
      by (rule finite_subset [of _ "(\<lambda>(p, n, d). n) ` set cs"]) force+
    then have "card {n. \<exists>d. (p, n, d) \<in> set cs} \<le> 1 \<longleftrightarrow> (\<forall>m n d e. (p, m, d) \<in> set cs \<and> (p, n, e) \<in> set cs \<longrightarrow> m = n)" for p
      by (simp add: card_le_Suc0_iff_eq) blast
    then show ?thesis by simp
  qed
  finally show ?thesis .
qed

section \<open>The sources meet the interface\<close>

text \<open>A source that only reads: it leaves the world as it is.\<close>

definition reading :: "('w \<Rightarrow> BundleDeployment \<Rightarrow> 'a outcome) \<Rightarrow> BundleDeployment \<Rightarrow> ('w, 'a) M" where
  "reading f bd w = (f w bd, w)"

lemma ConfigMaps_Unpack_Ok:
  assumes "ConfigMaps_Unpack NA iter order Get ns bd = Ok r"
  obtains refs st where "src_Type (bd_Source bd) = SourceTypeConfigMaps" "src_ConfigMaps (bd_Source bd) = Some refs"
    "cm_loop iter Get ns refs start_unpack = Ok st" "duplicate_errs (order (cu_seen st)) = []"
    "r = \<lparr>res_Bundle = Some (MapFS (cu_bundleFS st)),
          res_ResolvedSource = Some ((empty_source SourceTypeConfigMaps)\<lparr>src_ConfigMaps := Some refs\<rparr>),
          res_State = StateUnpacked, res_Message = generateMessage ''configMaps''\<rparr>"
  using assms by (auto simp: ConfigMaps_Unpack_def Let_def split: if_splits option.splits)

lemma http_response_fs_Ok:
  "http_response_fs tarfs_New action resp = Ok fsys \<longleftrightarrow>
     resp_StatusCode resp = 200 \<and> (\<exists>es. resp_Body resp = TarGz es \<and> tarfs_New es = Inr fsys)"
  by (cases "resp_Body resp") (auto simp: http_response_fs_def split: sum.splits)

lemma HTTP_Unpack_Ok:
  assumes "HTTP_Unpack tarfs_New url_error Do b64 Get ns bd = Ok r"
  obtains h req0 req resp fsys where "src_Type (bd_Source bd) = SourceTypeHTTP" "src_HTTP (bd_Source bd) = Some h"
    "new_request url_error (http_URL h) = Inr req0" "http_authorize b64 Get ns h req0 = Inr req"
    "Do 10 (http_tls h) req = Inr resp" "http_response_fs tarfs_New (''GET '' @ http_URL h) resp = Ok fsys"
    "r = \<lparr>res_Bundle = Some fsys, res_ResolvedSource = Some (bd_Source bd), res_State = StateUnpacked,
          res_Message = generateMessage ''http''\<rparr>"
  using assms by (auto simp: HTTP_Unpack_def Let_def split: if_splits option.splits sum.splits)

lemma unpack_repo_Ok:
  "unpack_repo lib g repo0 = Ok r \<longleftrightarrow>
     (\<exists>repo tree c. gl_Worktree lib repo0 = None \<and> checkout_commit lib g repo0 = Ok repo \<and> subdirectory lib g repo = Ok tree
        \<and> gl_Head lib repo = Inr c \<and> r = git_result g c tree)"
  by (auto simp: unpack_repo_def early_return)

lemma Git_Unpack_Ok:
  assumes "Git_Unpack lib PK KH Get ns bd = Ok r"
  obtains g auth repo prog where "src_Type (bd_Source bd) = SourceTypeGit" "src_Git (bd_Source bd) = Some g"
    "git_Repository g \<noteq> []" "git_auth PK KH Get ns g = Ok auth" "gl_Clone lib (clone_options g auth) = (Inr repo, prog)"
    "unpack_repo lib g repo = Ok r"
  using assms by (auto simp: Git_Unpack_def early_return)

interpretation configmaps_source: bundle_source "reading (\<lambda>w. ConfigMaps_Unpack NA iter order (Get w) ns)" SourceTypeConfigMaps
  for NA iter order ns and Get :: "'w \<Rightarrow> configmap_getter"
  by unfold_locales (auto simp: reading_def result_ok_def empty_source_def elim!: ConfigMaps_Unpack_Ok)

interpretation http_source: bundle_source "reading (\<lambda>w. HTTP_Unpack tarfs_New url_error (Do w) b64 (Get w) ns)" SourceTypeHTTP
  for tarfs_New url_error b64 ns and Get :: "'w \<Rightarrow> secret_getter" and Do :: "'w \<Rightarrow> http_do"
  by unfold_locales (auto simp: reading_def result_ok_def elim!: HTTP_Unpack_Ok)

interpretation git_source: bundle_source "reading (\<lambda>w. Git_Unpack (lib w) PK KH (Get w) ns)" SourceTypeGit
  for PK KH ns and Get :: "'w \<Rightarrow> secret_getter" and lib :: "'w \<Rightarrow> ('s, 'k, 'r) git_lib"
  by unfold_locales (auto simp: reading_def result_ok_def empty_source_def unpack_repo_Ok git_result_def elim!: Git_Unpack_Ok)

text \<open>A composite of sources, each under its own type, is as good as its sources.\<close>

lemma unpacker_result_ok:
  assumes "\<And>t u. sources t = Some u \<Longrightarrow> bundle_source (up_Unpack u) t"
    and "unpacker_Unpack sources bd w = (Ok r, w')"
  shows "result_ok (src_Type (bd_Source bd)) r"
proof -
  from assms(2) obtain u where "sources (src_Type (bd_Source bd)) = Some u" "up_Unpack u bd w = (Ok r, w')"
    by (auto simp: unpacker_Unpack_def split: option.splits)
  with assms(1) show ?thesis using bundle_source.unpack_ok [of "up_Unpack u"] by simp
qed

section \<open>Lemmas on the git source\<close>

lemma Clean_rooted_first: "is_rooted p \<Longrightarrow> \<exists>t. Clean p = CHR ''/'' # t"
  by (cases "p = []") (auto simp: Clean_def Let_def is_rooted_def HasPrefix_def)

lemma subdirectory_Ok_contained:
  assumes "subdirectory lib g repo = Ok tree" and "git_Directory g \<noteq> []"
  shows "\<not> is_rooted (git_Directory g) \<and> contained (git_Directory g)"
proof -
  let ?d = "Clean (git_Directory g)"
  from assms have len: "3 \<le> length ?d" and pre: "take 3 ?d \<noteq> ''../''" and c: "?d ! 0 \<noteq> CHR ''/''"
    by (auto simp: subdirectory_def Let_def slice_to_def index_at_def split: if_splits)
  then have rel: "\<not> is_rooted (git_Directory g)" using Clean_rooted_first by force
  moreover have "?d \<noteq> dotdot" using len by auto
  moreover have "\<not> HasPrefix ?d ''../''" using pre by (simp add: HasPrefix_def numeral_eq_Suc)
  ultimately show ?thesis using contained_iff_Clean [OF rel] by simp
qed

lemma subdirectory_no_panic:
  "git_Directory g = [] \<or> 3 \<le> length (Clean (git_Directory g)) \<Longrightarrow> subdirectory lib g repo \<noteq> Panic p"
  by (auto simp: subdirectory_def Let_def slice_to_def index_at_def split: sum.splits)

lemma git_auth_no_panic: "git_auth PK KH Get ns g \<noteq> Panic p"
  by (auto simp: git_auth_def split: sum.splits)

lemma checkout_commit_no_panic: "checkout_commit lib g repo \<noteq> Panic p"
  by (auto simp: checkout_commit_def Let_def split: sum.splits)

section \<open>Properties\<close>

text \<open>C25. The config-map source, when all the config maps are found: it succeeds exactly when no path is given by two
  different config maps; then the bundle has exactly the contributed paths, each file with the
  data of a contribution to its path, whatever the order of iteration over the maps.\<close>

theorem configmaps_unpack_exact:
  assumes iter: "\<And>xs. mset (iter xs) = mset xs" and order: "\<And>xs. mset (order xs) = mset xs"
    and "aggregate_law NA"
    and "src_Type (bd_Source bd) = SourceTypeConfigMaps" and "src_ConfigMaps (bd_Source bd) = Some refs"
    and found: "\<And>r. r \<in> set refs \<Longrightarrow> \<exists>cm. Get ns (cms_ConfigMap r) = Inr cm"
  shows "(if paths_unambiguous Get ns refs
          then \<exists>m. ConfigMaps_Unpack NA iter order Get ns bd
                 = Ok \<lparr>res_Bundle = Some (MapFS m),
                       res_ResolvedSource = Some ((empty_source SourceTypeConfigMaps)\<lparr>src_ConfigMaps := Some refs\<rparr>),
                       res_State = StateUnpacked, res_Message = generateMessage ''configMaps''\<rparr>
               \<and> fst ` set m = {p. \<exists>n d. contributes Get ns refs (p, n, d)}
               \<and> (\<forall>p f. map_of m p = Some f \<longrightarrow> (\<exists>n d. contributes Get ns refs (p, n, d) \<and> f = plain_file d))
          else \<exists>e. ConfigMaps_Unpack NA iter order Get ns bd = Err e)"
proof -
  define cs where "cs = concat (map (cm_contributions iter Get ns) refs)"
  have cs: "set cs = {c. contributes Get ns refs c}" unfolding cs_def using set_contributions [OF iter] .
  have loop: "cm_loop iter Get ns refs start_unpack = Ok (fold add_contribution cs start_unpack)"
    unfolding cs_def by (rule cm_loop_contributions) (rule found)
  have dup: "duplicate_errs (order (cu_seen (fold add_contribution cs start_unpack))) = [] \<longleftrightarrow> paths_unambiguous Get ns refs"
    unfolding duplicate_errs_empty [OF order] paths_unambiguous_def by (simp add: cs)
  have keys: "fst ` set (cu_bundleFS (fold add_contribution cs start_unpack)) = {p. \<exists>n d. contributes Get ns refs (p, n, d)}"
    unfolding fold_bundle_keys cs by force
  have data: "map_of (cu_bundleFS (fold add_contribution cs start_unpack)) p = Some f
      \<Longrightarrow> \<exists>n d. contributes Get ns refs (p, n, d) \<and> f = plain_file d" for p f
    using fold_bundle_data [of cs p f] cs by blast
  show ?thesis
    using assms(3-5) loop dup keys data
    by (auto simp: ConfigMaps_Unpack_def Let_def aggregate_law_def split: option.splits)
qed

definition demo_refs :: "ConfigMapSource list" where
  "demo_refs = [\<lparr>cms_ConfigMap = ''a'', cms_Path = ''manifests''\<rparr>]"

definition demo_cm_bd :: BundleDeployment where
  "demo_cm_bd = mk_bd ''b'' ''plain'' ((empty_source SourceTypeConfigMaps)\<lparr>src_ConfigMaps := Some demo_refs\<rparr>)"

definition demo_getter :: configmap_getter where
  "demo_getter ns n = Inr \<lparr>cm_Name = n, cm_Namespace = ns, cm_Immutable = Some True, cm_Data = [(''x.yaml'', n)], cm_BinaryData = []\<rparr>"

lemma demo_cm_bd_source:
  "src_Type (bd_Source demo_cm_bd) = SourceTypeConfigMaps" "src_ConfigMaps (bd_Source demo_cm_bd) = Some demo_refs"
  by (simp_all add: demo_cm_bd_def mk_bd_def empty_source_def)

lemma demo_unambiguous: "paths_unambiguous demo_getter ns demo_refs"
  by (auto simp: paths_unambiguous_def contributes_def demo_refs_def simp del: Join.simps)

theorem configmaps_unpack_exact_witness:
  "\<exists>m. ConfigMaps_Unpack plain_aggregate id id demo_getter ''sys'' demo_cm_bd
       = Ok \<lparr>res_Bundle = Some (MapFS m),
             res_ResolvedSource = Some ((empty_source SourceTypeConfigMaps)\<lparr>src_ConfigMaps := Some demo_refs\<rparr>),
             res_State = StateUnpacked, res_Message = generateMessage ''configMaps''\<rparr>
     \<and> fst ` set m = {p. \<exists>n d. contributes demo_getter ''sys'' demo_refs (p, n, d)}"
proof -
  from configmaps_unpack_exact [of id id plain_aggregate demo_cm_bd demo_refs demo_getter "''sys''"]
    plain_aggregate_law demo_cm_bd_source demo_unambiguous [of "''sys''"]
  show ?thesis by (auto simp: demo_getter_def)
qed

text \<open>The resolved source of the config-map source is reproducible: unpacking a bundle deployment that has the
  resolved source as its source gives the same result, as long as the config maps read the same.\<close>

theorem configmaps_resolved_reproducible:
  assumes "ConfigMaps_Unpack NA iter order Get ns bd = Ok r" and "res_ResolvedSource r = Some src"
  shows "ConfigMaps_Unpack NA iter order Get ns (bd\<lparr>bd_Spec := (bd_Spec bd)\<lparr>spec_Source := src\<rparr>\<rparr>) = Ok r"
proof (rule ConfigMaps_Unpack_Ok [OF assms(1)])
  fix refs st
  assume "cm_loop iter Get ns refs start_unpack = Ok st" "duplicate_errs (order (cu_seen st)) = []"
    and r: "r = \<lparr>res_Bundle = Some (MapFS (cu_bundleFS st)),
          res_ResolvedSource = Some ((empty_source SourceTypeConfigMaps)\<lparr>src_ConfigMaps := Some refs\<rparr>),
          res_State = StateUnpacked, res_Message = generateMessage ''configMaps''\<rparr>"
  moreover from r assms(2) have "src = (empty_source SourceTypeConfigMaps)\<lparr>src_ConfigMaps := Some refs\<rparr>" by simp
  ultimately show ?thesis by (simp add: ConfigMaps_Unpack_def empty_source_def)
qed

theorem configmaps_resolved_reproducible_witness:
  "\<exists>r src. ConfigMaps_Unpack plain_aggregate id id demo_getter ''sys'' demo_cm_bd = Ok r \<and> res_ResolvedSource r = Some src
     \<and> ConfigMaps_Unpack plain_aggregate id id demo_getter ''sys''
         (demo_cm_bd\<lparr>bd_Spec := (bd_Spec demo_cm_bd)\<lparr>spec_Source := src\<rparr>\<rparr>) = Ok r"
proof -
  let ?r = "\<lparr>res_Bundle = Some (MapFS [(''manifests/x.yaml'', plain_file ''a'')]),
     res_ResolvedSource = Some ((empty_source SourceTypeConfigMaps)\<lparr>src_ConfigMaps := Some demo_refs\<rparr>),
     res_State = StateUnpacked, res_Message = generateMessage ''configMaps''\<rparr>"
  have "Join [Clean ''manifests'', ''x.yaml''] = ''manifests/x.yaml''" by code_simp
  then have run: "ConfigMaps_Unpack plain_aggregate id id demo_getter ''sys'' demo_cm_bd = Ok ?r"
    by (simp add: ConfigMaps_Unpack_def demo_cm_bd_source demo_refs_def demo_getter_def cm_entries_def addToBundle_def
        duplicate_errs_def Let_def del: Join.simps)
  from configmaps_resolved_reproducible [OF this] run show ?thesis by auto
qed

lemma clone_options_of:
  "co_URL (clone_options g auth) = git_Repository g" "co_Auth (clone_options g auth) = auth"
  "co_ReferenceName (clone_options g auth) =
     (if ref_Branch (git_Ref g) \<noteq> [] then ''refs/heads/'' @ ref_Branch (git_Ref g) else if ref_Tag (git_Ref g) \<noteq> [] then ''refs/tags/'' @ ref_Tag (git_Ref g) else [])"
  by (simp_all add: clone_options_def Let_def)

lemma checkout_commit_Ok:
  "checkout_commit lib g cloned = Ok repo \<longleftrightarrow>
     (if ref_Commit (git_Ref g) = [] then repo = cloned else gl_HardReset lib cloned (gl_NewHash lib (ref_Commit (git_Ref g))) = Inr repo)"
  by (auto simp: checkout_commit_def Let_def split: sum.splits)

lemma subdirectory_tree:
  assumes "subdirectory lib g repo = Ok tree"
  shows "if git_Directory g = [] then tree = gl_Filesystem lib repo
         else gl_Chroot lib repo (Clean (git_Directory g)) = Inr tree"
  using assms by (auto simp: subdirectory_def early_return Clean_idem Let_def)


definition demo_billy :: billy where
  "demo_billy = \<lparr>bl_Open = (\<lambda>_. Inr (Inr ''x'')), bl_Stat = (\<lambda>n. Inr (plain_info n RegularFile 420)), bl_ReadDir = (\<lambda>_. Inr [])\<rparr>"

definition demo_git :: "(unit, unit, string) git_lib" where
  "demo_git = \<lparr>gl_Clone = (\<lambda>_. (Inr ''main'', [])), gl_Worktree = (\<lambda>_. None), gl_NewHash = id, gl_HardReset = (\<lambda>_ c. Inr c),
     gl_Filesystem = (\<lambda>_. demo_billy), gl_Chroot = (\<lambda>_ _. Inr demo_billy), gl_Head = Inr\<rparr>"

definition demo_git_source :: "string \<Rightarrow> GitSource" where
  "demo_git_source dir = \<lparr>git_Repository = ''https://h/r'', git_Directory = dir,
     git_Ref = \<lparr>ref_Branch = [], ref_Tag = [], ref_Commit = ''c1''\<rparr>, git_Auth = \<lparr>auth_Secret = [], auth_InsecureSkipVerify = False\<rparr>\<rparr>"

definition demo_git_bd :: "string \<Rightarrow> BundleDeployment" where
  "demo_git_bd dir = mk_bd ''b'' ''plain'' ((empty_source SourceTypeGit)\<lparr>src_Git := Some (demo_git_source dir)\<rparr>)"

lemma demo_git_unpack:
  "Git_Unpack demo_git (\<lambda>_. Inr ()) (\<lambda>_. Inr ()) (\<lambda>_ _. Inl (Msg [])) ''sys'' (demo_git_bd dir)
   = obind (subdirectory demo_git (demo_git_source dir) ''c1'') (\<lambda>tree. Ok (git_result (demo_git_source dir) ''c1'' tree))"
  by (simp add: Git_Unpack_def demo_git_bd_def mk_bd_def empty_source_def demo_git_def demo_git_source_def git_auth_def
      unpack_repo_def checkout_commit_def)

lemma demo_git_subdirectory: "subdirectory demo_git (demo_git_source ''deploy'') ''c1'' = Ok demo_billy"
proof -
  have "Clean ''deploy'' = ''deploy''" by code_simp
  then show ?thesis
    by (simp add: subdirectory_def demo_git_source_def slice_to_def index_at_def demo_git_def)
qed


text \<open>The git source never panics on a source without a directory, or whose cleaned directory has at least three bytes.\<close>

theorem git_unpack_no_panic:
  assumes "\<And>g. src_Git (bd_Source bd) = Some g \<Longrightarrow> git_Directory g = [] \<or> 3 \<le> length (Clean (git_Directory g))"
  shows "Git_Unpack lib PK KH Get ns bd \<noteq> Panic p"
  using assms
  by (auto simp: Git_Unpack_def unpack_repo_def git_auth_no_panic checkout_commit_no_panic subdirectory_no_panic
      split: option.splits sum.splits prod.splits)

theorem git_unpack_no_panic_witness:
  "\<forall>p. Git_Unpack demo_git (\<lambda>_. Inr ()) (\<lambda>_. Inr ()) (\<lambda>_ _. Inl (Msg [])) ''sys'' (demo_git_bd ''../up'') \<noteq> Panic p"
proof -
  have "Clean ''../up'' = ''../up''" by code_simp
  then show ?thesis
    by (intro allI git_unpack_no_panic) (auto simp: demo_git_bd_def mk_bd_def empty_source_def demo_git_source_def)
qed

text \<open>The slice expression of the directory test panics on every shorter directory, for instance on one with a
  one-letter name, which the admission webhook accepts.\<close>

lemma git_short_directory_panics:
  "Git_Unpack demo_git (\<lambda>_. Inr ()) (\<lambda>_. Inr ()) (\<lambda>_ _. Inl (Msg [])) ''sys'' (demo_git_bd ''a'')
     = Panic ''slice bounds out of range''
   \<and> BundleDeployment_ValidateCreate NA Get' ns' (demo_git_bd ''a'') = Ok ()"
proof -
  have cl: "Clean ''a'' = ''a''" by code_simp
  then have "subdirectory demo_git (demo_git_source ''a'') ''c1'' = Panic ''slice bounds out of range''"
    by (simp add: subdirectory_def demo_git_source_def slice_to_def)
  moreover have "BundleDeployment_ValidateCreate NA Get' ns' (demo_git_bd ''a'') = Ok ()"
    by (simp add: BundleDeployment_ValidateCreate_def checkBundleDeploymentSource_def demo_git_bd_def mk_bd_def
        empty_source_def demo_git_source_def HasPrefix_def cl)
  ultimately show ?thesis by (simp add: demo_git_unpack)
qed

text \<open>An HTTP bundle is what the server answered, with status 200 and a gzipped archive, to a GET of the source's URL;
  the request carries basic authentication exactly when the source names a secret.\<close>

theorem http_bundle_is_answer:
  assumes "HTTP_Unpack tarfs_New url_error Do b64 Get ns bd = Ok r"
  shows "\<exists>h req resp es fsys. src_HTTP (bd_Source bd) = Some h \<and> Do 10 (http_tls h) req = Inr resp
           \<and> req_Method req = ''GET'' \<and> req_URL req = http_URL h
           \<and> resp_StatusCode resp = 200 \<and> resp_Body resp = TarGz es \<and> tarfs_New es = Inr fsys \<and> res_Bundle r = Some fsys
           \<and> req_Header req ''Authorization'' =
               (if auth_Secret (http_Auth h) = [] then None
                else (case Get ns (auth_Secret (http_Auth h)) of
                        Inl e \<Rightarrow> None
                      | Inr sec \<Rightarrow> Some (''Basic '' @ b64 (secret_value sec ''username'' @ '':'' @ secret_value sec ''password''))))"
proof (rule HTTP_Unpack_Ok [OF assms])
  fix h req0 req resp fsys
  assume h: "src_HTTP (bd_Source bd) = Some h" and req0: "new_request url_error (http_URL h) = Inr req0"
    and req: "http_authorize b64 Get ns h req0 = Inr req" and resp: "Do 10 (http_tls h) req = Inr resp"
    and body: "http_response_fs tarfs_New (''GET '' @ http_URL h) resp = Ok fsys"
    and r: "r = \<lparr>res_Bundle = Some fsys, res_ResolvedSource = Some (bd_Source bd), res_State = StateUnpacked,
          res_Message = generateMessage ''http''\<rparr>"
  from req0 have "req_Method req0 = ''GET''" "req_URL req0 = http_URL h" "req_Header req0 = Map.empty"
    by (auto simp: new_request_def split: option.splits)
  with req have "req_Method req = ''GET''" "req_URL req = http_URL h"
    "req_Header req ''Authorization'' =
       (if auth_Secret (http_Auth h) = [] then None
        else (case Get ns (auth_Secret (http_Auth h)) of
                Inl e \<Rightarrow> None
              | Inr sec \<Rightarrow> Some (''Basic '' @ b64 (secret_value sec ''username'' @ '':'' @ secret_value sec ''password''))))"
    by (auto simp: http_authorize_def HTTP_getCredentials_def split: if_splits sum.splits)
  with h resp body r show ?thesis unfolding http_response_fs_Ok
    by (intro exI [of _ h] exI [of _ req] exI [of _ resp]) auto
qed

definition demo_http_bd :: BundleDeployment where
  "demo_http_bd = mk_bd ''b'' ''plain'' ((empty_source SourceTypeHTTP)\<lparr>src_HTTP :=
     Some \<lparr>http_URL = ''https://h/b.tgz'', http_Auth = \<lparr>auth_Secret = ''s'', auth_InsecureSkipVerify = False\<rparr>\<rparr>\<rparr>)"

definition demo_server :: http_do where
  "demo_server timeout tls req =
     (if req_Header req ''Authorization'' = Some ''Basic u:p''
      then Inr \<lparr>resp_StatusCode = 200, resp_Status = ''200 OK'', resp_Body = TarGz demo_archive\<rparr>
      else Inr \<lparr>resp_StatusCode = 401, resp_Status = ''401 Unauthorized'', resp_Body = Bytes []\<rparr>)"

theorem http_bundle_is_answer_witness:
  "\<exists>r fsys. HTTP_Unpack tar_MapFS (\<lambda>_. None) demo_server id
       (\<lambda>_ _. Inr \<lparr>secret_Data = [''username'' \<mapsto> ''u'', ''password'' \<mapsto> ''p'']\<rparr>) ''sys'' demo_http_bd = Ok r
     \<and> tar_MapFS demo_archive = Inr fsys \<and> res_Bundle r = Some fsys"
proof -
  obtain fsys where f: "tar_MapFS demo_archive = Inr fsys" by (simp add: tar_MapFS_def)
  then have run: "\<exists>r. HTTP_Unpack tar_MapFS (\<lambda>_. None) demo_server id
       (\<lambda>_ _. Inr \<lparr>secret_Data = [''username'' \<mapsto> ''u'', ''password'' \<mapsto> ''p'']\<rparr>) ''sys'' demo_http_bd = Ok r"
    by (simp add: HTTP_Unpack_def demo_http_bd_def mk_bd_def empty_source_def new_request_def http_authorize_def
        HTTP_getCredentials_def secret_value_def demo_server_def http_response_fs_def)
  then obtain r where r: "HTTP_Unpack tar_MapFS (\<lambda>_. None) demo_server id
       (\<lambda>_ _. Inr \<lparr>secret_Data = [''username'' \<mapsto> ''u'', ''password'' \<mapsto> ''p'']\<rparr>) ''sys'' demo_http_bd = Ok r" ..
  from http_bundle_is_answer [OF this] r show ?thesis
    by (auto simp: demo_server_def split: if_splits)
qed

text \<open>A source of type \<open>http\<close> without its \<open>http\<close> field is admitted by the webhook and dereferenced by the unpacker.\<close>

lemma http_nil_source_panics:
  "BundleDeployment_ValidateCreate NA Get' ns' (mk_bd n p (empty_source SourceTypeHTTP)) = Ok ()
   \<and> HTTP_Unpack tarfs_New url_error Do b64 Get ns (mk_bd n p (empty_source SourceTypeHTTP)) = Panic ''nil pointer dereference''"
  by (simp add: BundleDeployment_ValidateCreate_def checkBundleDeploymentSource_def HTTP_Unpack_def mk_bd_def empty_source_def Let_def)

end
