(* ===== verification/Convert.thy ===== *)
theory Convert
  imports Util Go_FS Sources
begin

text \<open>
  The conversion of registry+v1 bundles to plain bundles (pkg/convert/registryv1.go):
  the choice and validation of the install and target namespaces, the objects generated
  from the cluster service version (service accounts, roles, bindings, deployments), the
  generated names, and the reading and writing of the bundle's files. YAML, the typed
  conversion of objects, and the table of supported kinds are parameters.
\<close>

section \<open>Data\<close>

record PolicyRule =
  pr_Verbs :: "string list"
  pr_APIGroups :: "string list"
  pr_Resources :: "string list"

record Permission =
  perm_ServiceAccountName :: string
  perm_Rules :: "PolicyRule list"

text \<open>A deployment specification: what the conversion reads of its pod template, and the rest.\<close>

record DeploymentSpec =
  ds_TemplateAnnotations :: "string \<rightharpoonup> string"
  ds_ServiceAccountName :: string
  ds_Rest :: json

record StrategyDeploymentSpec =
  sds_Name :: string
  sds_Label :: "string \<rightharpoonup> string"
  sds_Spec :: DeploymentSpec

record ClusterServiceVersion =
  csv_Name :: string
  csv_Annotations :: "string \<rightharpoonup> string"
  csv_InstallModes :: "(string \<times> bool) list"
  csv_OwnedAPIServices :: "json list"
  csv_WebhookDefinitions :: "json list"
  csv_DeploymentSpecs :: "StrategyDeploymentSpec list"
  csv_Permissions :: "Permission list"
  csv_ClusterPermissions :: "Permission list"

definition empty_csv :: ClusterServiceVersion where
  "empty_csv = \<lparr>csv_Name = [], csv_Annotations = Map.empty, csv_InstallModes = [], csv_OwnedAPIServices = [],
     csv_WebhookDefinitions = [], csv_DeploymentSpecs = [], csv_Permissions = [], csv_ClusterPermissions = []\<rparr>"

record RegistryV1 =
  rv_PackageName :: string
  rv_CSV :: ClusterServiceVersion
  rv_CRDs :: "kobject list"
  rv_Others :: "kobject list"

record Subject =
  sub_Kind :: string
  sub_Namespace :: string
  sub_Name :: string

record ServiceAccount =
  sa_Namespace :: string
  sa_Name :: string

record Role =
  role_Namespace :: string
  role_Name :: string
  role_Rules :: "PolicyRule list"

record RoleBinding =
  rb_Namespace :: string
  rb_Name :: string
  rb_Subjects :: "Subject list"
  rb_RoleName :: string

record ClusterRole =
  cr_Name :: string
  cr_Rules :: "PolicyRule list"

record ClusterRoleBinding =
  crb_Name :: string
  crb_Subjects :: "Subject list"
  crb_RoleName :: string

record Deployment =
  dep_Namespace :: string
  dep_Name :: string
  dep_Labels :: "string \<rightharpoonup> string"
  dep_Annotations :: "string \<rightharpoonup> string"
  dep_Spec :: DeploymentSpec

datatype plain_object =
    PServiceAccount ServiceAccount
  | PRole Role
  | PRoleBinding RoleBinding
  | PClusterRole ClusterRole
  | PClusterRoleBinding ClusterRoleBinding
  | PCRD kobject
  | POther kobject
  | PDeployment Deployment

section \<open>Names and constructors\<close>

definition InstallModeTypeAllNamespaces :: string where "InstallModeTypeAllNamespaces = ''AllNamespaces''"
definition InstallModeTypeSingleNamespace :: string where "InstallModeTypeSingleNamespace = ''SingleNamespace''"
definition InstallModeTypeOwnNamespace :: string where "InstallModeTypeOwnNamespace = ''OwnNamespace''"
definition InstallModeTypeMultiNamespace :: string where "InstallModeTypeMultiNamespace = ''MultiNamespace''"

definition maxNameLength :: int where "maxNameLength = 63"

definition generateName :: "('a \<Rightarrow> string result) \<Rightarrow> (string \<Rightarrow> nat list) \<Rightarrow> string \<Rightarrow> 'a \<Rightarrow> string outcome" where
  "generateName Encode sha224 base obj =
     obind (DeepHashObject Encode sha224 obj) (\<lambda>hashStr.
     obind (if int (length base) + int (length hashStr) > maxNameLength
            then slice_to base (maxNameLength - int (length hashStr) - 1) else Ok base) (\<lambda>base.
       Ok (base @ ''-'' @ hashStr)))"

definition newServiceAccount :: "string \<Rightarrow> string \<Rightarrow> ServiceAccount" where
  "newServiceAccount namespace name = \<lparr>sa_Namespace = namespace, sa_Name = name\<rparr>"

definition newRole :: "string \<Rightarrow> string \<Rightarrow> PolicyRule list \<Rightarrow> Role" where
  "newRole namespace name rules = \<lparr>role_Namespace = namespace, role_Name = name, role_Rules = rules\<rparr>"

definition newClusterRole :: "string \<Rightarrow> PolicyRule list \<Rightarrow> ClusterRole" where
  "newClusterRole name rules = \<lparr>cr_Name = name, cr_Rules = rules\<rparr>"

definition sa_subjects :: "string \<Rightarrow> string list \<Rightarrow> Subject list" where
  "sa_subjects saNamespace saNames =
     map (\<lambda>saName. \<lparr>sub_Kind = ''ServiceAccount'', sub_Namespace = saNamespace, sub_Name = saName\<rparr>) saNames"

definition newRoleBinding :: "string \<Rightarrow> string \<Rightarrow> string \<Rightarrow> string \<Rightarrow> string list \<Rightarrow> RoleBinding" where
  "newRoleBinding namespace name roleName saNamespace saNames =
     \<lparr>rb_Namespace = namespace, rb_Name = name, rb_Subjects = sa_subjects saNamespace saNames, rb_RoleName = roleName\<rparr>"

definition newClusterRoleBinding :: "string \<Rightarrow> string \<Rightarrow> string \<Rightarrow> string list \<Rightarrow> ClusterRoleBinding" where
  "newClusterRoleBinding name roleName saNamespace saNames =
     \<lparr>crb_Name = name, crb_Subjects = sa_subjects saNamespace saNames, crb_RoleName = roleName\<rparr>"

definition saNameOrDefault :: "string \<Rightarrow> string" where
  "saNameOrDefault saName = (if saName = [] then ''default'' else saName)"

section \<open>Namespaces\<close>

text \<open>\<open>targetNamespaces[0]\<close> is read only when the set has one element, so the slice is not empty.\<close>

definition validateTargetNamespaces :: "string set \<Rightarrow> string \<Rightarrow> string list \<Rightarrow> gerror option" where
  "validateTargetNamespaces supportedInstallModes installNamespace targetNamespaces =
     (let ts = set targetNamespaces;
          unsupported = Some (Msg (''supported install modes '' @ fmt_v_strings (sets_List supportedInstallModes)
                                   @ '' do not support target namespaces '' @ fmt_v_strings targetNamespaces))
      in if card ts = 0 \<or> (card ts = 1 \<and> [] \<in> ts) then
           (if InstallModeTypeAllNamespaces \<in> supportedInstallModes then None
            else Some (Msg (''supported install modes '' @ fmt_v_strings (sets_List supportedInstallModes)
                            @ '' do not support targeting all namespaces'')))
         else if card ts = 1 \<and> [] \<notin> ts then
           (if InstallModeTypeSingleNamespace \<in> supportedInstallModes then None
            else if InstallModeTypeOwnNamespace \<in> supportedInstallModes \<and> hd targetNamespaces = installNamespace then None
            else unsupported)
         else
           (if InstallModeTypeMultiNamespace \<in> supportedInstallModes \<and> [] \<notin> ts then None else unsupported))"

definition install_namespace :: "RegistryV1 \<Rightarrow> string \<Rightarrow> string" where
  "install_namespace reg installNamespace =
     (let ns = (if installNamespace = []
                then (case csv_Annotations (rv_CSV reg) ''operatorframework.io/suggested-namespace'' of None \<Rightarrow> [] | Some v \<Rightarrow> v)
                else installNamespace)
      in if ns = [] then rv_PackageName reg @ ''-system'' else ns)"

definition supported_install_modes :: "ClusterServiceVersion \<Rightarrow> string set" where
  "supported_install_modes csv = fst ` set (filter snd (csv_InstallModes csv))"

definition default_targets :: "string set \<Rightarrow> string \<Rightarrow> string list \<Rightarrow> string list" where
  "default_targets modes installNamespace targetNamespaces =
     (if targetNamespaces = [] then
        (if InstallModeTypeAllNamespaces \<in> modes then [[]]
         else if InstallModeTypeOwnNamespace \<in> modes then [installNamespace]
         else targetNamespaces)
      else targetNamespaces)"

section \<open>The generated objects\<close>

definition new_deployment :: "RegistryV1 \<Rightarrow> string \<Rightarrow> string list \<Rightarrow> StrategyDeploymentSpec \<Rightarrow> Deployment" where
  "new_deployment reg ns targetNamespaces depSpec =
     \<lparr>dep_Namespace = ns, dep_Name = sds_Name depSpec, dep_Labels = sds_Label depSpec,
      dep_Annotations = (MergeMaps [csv_Annotations (rv_CSV reg), ds_TemplateAnnotations (sds_Spec depSpec)])
        (''olm.targetNamespaces'' \<mapsto> join_with '','' targetNamespaces),
      dep_Spec = sds_Spec depSpec\<rparr>"

text \<open>The map of service accounts: those of the deployments, then those of the permissions.\<close>

definition add_service_account :: "string \<Rightarrow> string \<Rightarrow> (string \<times> ServiceAccount) list \<Rightarrow> (string \<times> ServiceAccount) list" where
  "add_service_account ns saName accounts =
     (if map_of accounts saName = None then assign saName (newServiceAccount ns saName) accounts else accounts)"

definition service_accounts :: "RegistryV1 \<Rightarrow> string \<Rightarrow> (string \<times> ServiceAccount) list" where
  "service_accounts reg ns =
     (let csv = rv_CSV reg;
          m1 = fold (\<lambda>d. let saName = saNameOrDefault (ds_ServiceAccountName (sds_Spec d)) in assign saName (newServiceAccount ns saName))
                 (csv_DeploymentSpecs csv) []
      in fold (\<lambda>p. add_service_account ns (saNameOrDefault (perm_ServiceAccountName p)))
           (csv_Permissions csv @ csv_ClusterPermissions csv) m1)"

definition role_and_binding ::
  "(Permission \<Rightarrow> string result) \<Rightarrow> (string \<Rightarrow> nat list) \<Rightarrow> RegistryV1 \<Rightarrow> string \<Rightarrow> string \<times> Permission \<Rightarrow> (Role \<times> RoleBinding) outcome" where
  "role_and_binding Encode sha224 reg ins np =
     (case np of (ns, permission) \<Rightarrow>
        (let saName = saNameOrDefault (perm_ServiceAccountName permission) in
         obind (generateName Encode sha224 (csv_Name (rv_CSV reg) @ ''-'' @ saName) permission) (\<lambda>name.
           Ok (newRole ns name (perm_Rules permission), newRoleBinding ns name name ins [saName]))))"

definition cluster_role_and_binding ::
  "(Permission \<Rightarrow> string result) \<Rightarrow> (string \<Rightarrow> nat list) \<Rightarrow> RegistryV1 \<Rightarrow> string \<Rightarrow> Permission \<Rightarrow> (ClusterRole \<times> ClusterRoleBinding) outcome" where
  "cluster_role_and_binding Encode sha224 reg ins permission =
     (let saName = saNameOrDefault (perm_ServiceAccountName permission) in
      obind (generateName Encode sha224 (csv_Name (rv_CSV reg) @ ''-'' @ saName) permission) (\<lambda>name.
        Ok (newClusterRole name (perm_Rules permission), newClusterRoleBinding name name ins [saName])))"

definition convert_other :: "(string \<Rightarrow> bool \<times> bool) \<Rightarrow> string \<Rightarrow> kobject \<Rightarrow> kobject outcome" where
  "convert_other IsSupported ins obj =
     (case IsSupported (gvk_Kind (ko_GVK obj)) of
        (supported, namespaced) \<Rightarrow>
          if \<not> supported
          then Err (Msg (''bundle contains unsupported resource: Name: '' @ om_Name (ko_Meta obj) @ '', Kind: '' @ gvk_Kind (ko_GVK obj)))
          else Ok (if namespaced then obj\<lparr>ko_Meta := (ko_Meta obj)\<lparr>om_Namespace := ins\<rparr>\<rparr> else obj))"

text \<open>
  In the mode for all namespaces the permissions become cluster permissions. The loop before that appends a rule
  to a copy of each permission, which changes nothing.
\<close>

definition promoted_permissions :: "string list \<Rightarrow> Permission list \<Rightarrow> Permission list \<Rightarrow> Permission list \<times> Permission list" where
  "promoted_permissions targetNamespaces permissions clusterPermissions =
     (if targetNamespaces = [[]] then ([], clusterPermissions @ permissions) else (permissions, clusterPermissions))"

text \<open>\<open>iter\<close> is the order of the service-account map.\<close>

definition Convert ::
  "((string \<times> ServiceAccount) list \<Rightarrow> (string \<times> ServiceAccount) list) \<Rightarrow> (string \<Rightarrow> bool \<times> bool) \<Rightarrow> (Permission \<Rightarrow> string result)
   \<Rightarrow> (string \<Rightarrow> nat list) \<Rightarrow> RegistryV1 \<Rightarrow> string \<Rightarrow> string list \<Rightarrow> plain_object list outcome" where
  "Convert iter IsSupported Encode sha224 reg installNamespace0 targetNamespaces0 =
     (let csv = rv_CSV reg;
          installNamespace = install_namespace reg installNamespace0;
          modes = supported_install_modes csv;
          targetNamespaces = default_targets modes installNamespace targetNamespaces0
      in case validateTargetNamespaces modes installNamespace targetNamespaces of
           Some err \<Rightarrow> Err err
         | None \<Rightarrow>
             if csv_OwnedAPIServices csv \<noteq> [] then Err (Msg ''apiServiceDefintions are not supported'')
             else if csv_WebhookDefinitions csv \<noteq> [] then Err (Msg ''webhookDefinitions are not supported'')
             else
               (case promoted_permissions targetNamespaces (csv_Permissions csv) (csv_ClusterPermissions csv) of
                  (permissions, clusterPermissions) \<Rightarrow>
                    obind (omap (role_and_binding Encode sha224 reg installNamespace)
                             (concat (map (\<lambda>ns. map (Pair ns) permissions) targetNamespaces))) (\<lambda>rs.
                    obind (omap (cluster_role_and_binding Encode sha224 reg installNamespace) clusterPermissions) (\<lambda>crs.
                    obind (omap (convert_other IsSupported installNamespace) (rv_Others reg)) (\<lambda>others.
                      Ok (map PServiceAccount (filter (\<lambda>sa. sa_Name sa \<noteq> ''default'') (map snd (iter (service_accounts reg installNamespace))))
                          @ map (PRole \<circ> fst) rs @ map (PRoleBinding \<circ> snd) rs
                          @ map (PClusterRole \<circ> fst) crs @ map (PClusterRoleBinding \<circ> snd) crs
                          @ map PCRD (rv_CRDs reg) @ map POther others
                          @ map (PDeployment \<circ> new_deployment reg installNamespace targetNamespaces) (csv_DeploymentSpecs csv)))))))"

section \<open>From files to files\<close>

text \<open>
  The libraries: the package name of the annotations file, the documents of a YAML stream (those
  before the end, and the error that stopped it), the typed conversions of a cluster
  service version and of a custom resource definition, and YAML marshalling.
\<close>

record convert_libs =
  vl_PackageName :: "string \<Rightarrow> string result"
  vl_Decode :: "string \<Rightarrow> kobject list \<times> gerror option"
  vl_CSV :: "kobject \<Rightarrow> ClusterServiceVersion result"
  vl_CRD :: "kobject \<Rightarrow> kobject result"
  vl_Marshal :: "plain_object \<Rightarrow> string result"
  vl_iter :: "(string \<times> ServiceAccount) list \<Rightarrow> (string \<times> ServiceAccount) list"
  vl_IsSupported :: "string \<Rightarrow> bool \<times> bool"
  vl_Encode :: "Permission \<Rightarrow> string result"
  vl_sha224 :: "string \<Rightarrow> nat list"

definition manifestsDir :: string where "manifestsDir = ''manifests''"

definition subdirectory_error :: "string \<Rightarrow> gerror" where
  "subdirectory_error name =
     Msg (''subdirectories are not allowed within the '' @ fmt_q manifestsDir
          @ '' directory of the bundle image filesystem: found '' @ fmt_q (Join [manifestsDir, name]))"

definition manifest_documents :: "convert_libs \<Rightarrow> fs_FS \<Rightarrow> DirEntry \<Rightarrow> kobject list outcome" where
  "manifest_documents L rv1 e =
     (if de_IsDir e then Err (subdirectory_error (de_Name e))
      else
        (case fs_ReadFile rv1 (Join [manifestsDir, de_Name e]) of
           Inl err \<Rightarrow> Err err
         | Inr fileData \<Rightarrow>
             (case vl_Decode L fileData of
                (_, Some err) \<Rightarrow> Err (Msg (''read '' @ fmt_q (de_Name e) @ '': '' @ Error err))
              | (objs, None) \<Rightarrow> Ok objs)))"

definition classify :: "convert_libs \<Rightarrow> kobject \<Rightarrow> RegistryV1 \<Rightarrow> RegistryV1 outcome" where
  "classify L obj reg =
     (if gvk_Kind (ko_GVK obj) = ''ClusterServiceVersion'' then
        (case vl_CSV L obj of Inl err \<Rightarrow> Err err | Inr csv \<Rightarrow> Ok (reg\<lparr>rv_CSV := csv\<rparr>))
      else if gvk_Kind (ko_GVK obj) = ''CustomResourceDefinition'' then
        (case vl_CRD L obj of Inl err \<Rightarrow> Err err | Inr crd \<Rightarrow> Ok (reg\<lparr>rv_CRDs := rv_CRDs reg @ [crd]\<rparr>))
      else Ok (reg\<lparr>rv_Others := rv_Others reg @ [obj]\<rparr>))"

fun classify_all :: "convert_libs \<Rightarrow> kobject list \<Rightarrow> RegistryV1 \<Rightarrow> RegistryV1 outcome" where
  "classify_all L [] reg = Ok reg"
| "classify_all L (obj # objs) reg = obind (classify L obj reg) (classify_all L objs)"

definition read_registry_v1 :: "convert_libs \<Rightarrow> fs_FS \<Rightarrow> RegistryV1 outcome" where
  "read_registry_v1 L rv1 =
     (case fs_ReadFile rv1 (Join [''metadata'', ''annotations.yaml'']) of
        Inl err \<Rightarrow> Err err
      | Inr fileData \<Rightarrow>
          (case vl_PackageName L fileData of
             Inl err \<Rightarrow> Err err
           | Inr packageName \<Rightarrow>
               (case fs_ReadDir rv1 manifestsDir of
                  Inl err \<Rightarrow> Err err
                | Inr entries \<Rightarrow>
                    obind (omap (manifest_documents L rv1) entries) (\<lambda>docs.
                      classify_all L (concat docs) \<lparr>rv_PackageName = packageName, rv_CSV = empty_csv, rv_CRDs = [], rv_Others = []\<rparr>))))"

definition plain_manifest :: "string list \<Rightarrow> string" where
  "plain_manifest yamls = concat (map (\<lambda>y. ''---'' @ [CHR 0x0A] @ y @ [CHR 0x0A]) yamls)"

definition RegistryV1ToPlain :: "convert_libs \<Rightarrow> fs_FS \<Rightarrow> string \<Rightarrow> string list \<Rightarrow> fs_FS outcome" where
  "RegistryV1ToPlain L rv1 installNamespace watchNamespaces =
     obind (read_registry_v1 L rv1) (\<lambda>reg.
     obind (Convert (vl_iter L) (vl_IsSupported L) (vl_Encode L) (vl_sha224 L) reg installNamespace watchNamespaces) (\<lambda>objects.
     obind (omap (\<lambda>obj. lift_result (vl_Marshal L obj)) objects) (\<lambda>yamls.
       Ok (MapFS [(''.'', \<lparr>mf_Data = [], mf_Type = Directory, mf_Perm = 493\<rparr>),
                  (''manifests'', \<lparr>mf_Data = [], mf_Type = Directory, mf_Perm = 493\<rparr>),
                  (''manifests/manifest.yaml'', \<lparr>mf_Data = plain_manifest yamls, mf_Type = RegularFile, mf_Perm = 420\<rparr>)]))))"

section \<open>Lemmas\<close>

lemma generateName_Ok:
  "generateName Encode sha224 base obj = Ok name \<Longrightarrow> \<exists>h. DeepHashObject Encode sha224 obj = Ok h \<and> length name \<le> 64
     \<and> (\<exists>pre. name = pre @ ''-'' @ h)"
  by (auto simp: generateName_def slice_to_def maxNameLength_def split: if_splits)

lemma fst_add_service_account: "fst ` set (add_service_account ns n m) = insert n (fst ` set m)"
  by (auto simp: add_service_account_def map_of_eq_None_iff)

definition accounts_ok :: "string \<Rightarrow> (string \<times> ServiceAccount) list \<Rightarrow> bool" where
  "accounts_ok ns m \<longleftrightarrow> distinct (map fst m) \<and> (\<forall>(n, sa) \<in> set m. sa = newServiceAccount ns n)"

lemma set_assign: "set (assign k v m) \<subseteq> insert (k, v) (set m)"
  by (induction k v m rule: assign.induct) auto

lemma accounts_ok_assign: "accounts_ok ns m \<Longrightarrow> accounts_ok ns (assign n (newServiceAccount ns n) m)"
  using set_assign [of n "newServiceAccount ns n" m] by (auto simp: accounts_ok_def distinct_assign)

lemma fold_accounts_deployments:
  "accounts_ok ns m \<Longrightarrow>
     accounts_ok ns (fold (\<lambda>d. let saName = saNameOrDefault (ds_ServiceAccountName (sds_Spec d)) in assign saName (newServiceAccount ns saName)) ds m)
     \<and> fst ` set (fold (\<lambda>d. let saName = saNameOrDefault (ds_ServiceAccountName (sds_Spec d)) in assign saName (newServiceAccount ns saName)) ds m)
       = fst ` set m \<union> (\<lambda>d. saNameOrDefault (ds_ServiceAccountName (sds_Spec d))) ` set ds"
  by (induction ds arbitrary: m) (auto simp: accounts_ok_assign Let_def)

lemma fold_accounts_permissions:
  "accounts_ok ns m \<Longrightarrow>
     accounts_ok ns (fold (\<lambda>p. add_service_account ns (saNameOrDefault (perm_ServiceAccountName p))) ps m)
     \<and> fst ` set (fold (\<lambda>p. add_service_account ns (saNameOrDefault (perm_ServiceAccountName p))) ps m)
       = fst ` set m \<union> (\<lambda>p. saNameOrDefault (perm_ServiceAccountName p)) ` set ps"
proof (induction ps arbitrary: m)
  case (Cons p ps)
  have "accounts_ok ns (add_service_account ns (saNameOrDefault (perm_ServiceAccountName p)) m)"
    using Cons.prems by (simp add: add_service_account_def accounts_ok_assign)
  with Cons.IH [OF this] show ?case by (auto simp: fst_add_service_account)
qed simp

lemma service_accounts_ok:
  "accounts_ok ns (service_accounts reg ns)
   \<and> fst ` set (service_accounts reg ns) =
       (\<lambda>d. saNameOrDefault (ds_ServiceAccountName (sds_Spec d))) ` set (csv_DeploymentSpecs (rv_CSV reg))
       \<union> (\<lambda>p. saNameOrDefault (perm_ServiceAccountName p)) ` set (csv_Permissions (rv_CSV reg) @ csv_ClusterPermissions (rv_CSV reg))"
proof -
  have "accounts_ok ns []" by (simp add: accounts_ok_def)
  note dep = fold_accounts_deployments [OF this, of "csv_DeploymentSpecs (rv_CSV reg)"]
  with fold_accounts_permissions [OF conjunct1 [OF dep], of "csv_Permissions (rv_CSV reg) @ csv_ClusterPermissions (rv_CSV reg)"]
  show ?thesis unfolding service_accounts_def Let_def by auto
qed

lemma Convert_Ok:
  assumes "Convert iter IsS Enc sha reg ins0 ts0 = Ok objs"
  obtains ins ts perms cperms rs crs others where "ins = install_namespace reg ins0"
    "ts = default_targets (supported_install_modes (rv_CSV reg)) ins ts0"
    "validateTargetNamespaces (supported_install_modes (rv_CSV reg)) ins ts = None"
    "csv_OwnedAPIServices (rv_CSV reg) = []" "csv_WebhookDefinitions (rv_CSV reg) = []"
    "promoted_permissions ts (csv_Permissions (rv_CSV reg)) (csv_ClusterPermissions (rv_CSV reg)) = (perms, cperms)"
    "list_all2 (\<lambda>np rb. role_and_binding Enc sha reg ins np = Ok rb) (concat (map (\<lambda>ns. map (Pair ns) perms) ts)) rs"
    "list_all2 (\<lambda>p crb. cluster_role_and_binding Enc sha reg ins p = Ok crb) cperms crs"
    "list_all2 (\<lambda>x y. convert_other IsS ins x = Ok y) (rv_Others reg) others"
    "objs = map PServiceAccount (filter (\<lambda>sa. sa_Name sa \<noteq> ''default'') (map snd (iter (service_accounts reg ins))))
              @ map (PRole \<circ> fst) rs @ map (PRoleBinding \<circ> snd) rs
              @ map (PClusterRole \<circ> fst) crs @ map (PClusterRoleBinding \<circ> snd) crs
              @ map PCRD (rv_CRDs reg) @ map POther others
              @ map (PDeployment \<circ> new_deployment reg ins ts) (csv_DeploymentSpecs (rv_CSV reg))"
  using assms unfolding Convert_def Let_def
  by (auto simp: case_error_Ok if_error_Ok omap_Ok_iff split: prod.splits)

lemma role_and_binding_Ok:
  "role_and_binding Enc sha reg ins (ns, p) = Ok (r, b) \<Longrightarrow>
     \<exists>name. r = newRole ns name (perm_Rules p)
       \<and> b = newRoleBinding ns name name ins [saNameOrDefault (perm_ServiceAccountName p)]"
  by (auto simp: role_and_binding_def Let_def)

lemma cluster_role_and_binding_Ok:
  "cluster_role_and_binding Enc sha reg ins p = Ok (r, b) \<Longrightarrow>
     \<exists>name. r = newClusterRole name (perm_Rules p)
       \<and> b = newClusterRoleBinding name name ins [saNameOrDefault (perm_ServiceAccountName p)]"
  by (auto simp: cluster_role_and_binding_def Let_def)

lemma list_all2_right: "list_all2 P xs ys \<Longrightarrow> y \<in> set ys \<Longrightarrow> \<exists>x \<in> set xs. P x y"
  by (induction rule: list_all2_induct) auto

lemma list_all2_left: "list_all2 P xs ys \<Longrightarrow> x \<in> set xs \<Longrightarrow> \<exists>y \<in> set ys. P x y"
  by (induction rule: list_all2_induct) auto

lemma promoted_permissions_set:
  "promoted_permissions ts ps cs = (perms, cperms) \<Longrightarrow> set perms \<union> set cperms = set ps \<union> set cs"
  by (auto simp: promoted_permissions_def split: if_splits)

text \<open>A service account that something of the bundle names is generated, unless it is the default one.\<close>

lemma account_generated:
  assumes "\<And>xs. mset (iter xs) = mset xs" and "n \<in> fst ` set (service_accounts reg ins)" and "n \<noteq> ''default''"
  shows "PServiceAccount \<lparr>sa_Namespace = ins, sa_Name = n\<rparr>
     \<in> set (map PServiceAccount (filter (\<lambda>sa. sa_Name sa \<noteq> ''default'') (map snd (iter (service_accounts reg ins)))))"
proof -
  have "set (iter (service_accounts reg ins)) = set (service_accounts reg ins)" using assms(1) mset_eq_setD by metis
  moreover from assms(2) obtain sa where "(n, sa) \<in> set (service_accounts reg ins)" by auto
  moreover from this service_accounts_ok [of ins reg] have "sa = newServiceAccount ins n" by (auto simp: accounts_ok_def)
  ultimately show ?thesis using assms(3) by (force simp: newServiceAccount_def)
qed

section \<open>Properties\<close>

definition account_available :: "plain_object list \<Rightarrow> string \<Rightarrow> string \<Rightarrow> bool" where
  "account_available objs ns n \<longleftrightarrow> n = ''default'' \<or> PServiceAccount \<lparr>sa_Namespace = ns, sa_Name = n\<rparr> \<in> set objs"

text \<open>C21. The generated objects fit together: every role binding refers to a generated role of its namespace, every cluster
  role binding to a generated cluster role, and every service account that a binding or a deployment uses is generated in
  the install namespace, unless it is the default one.\<close>

theorem converted_objects_resolve:
  assumes iter: "\<And>xs. mset (iter xs) = mset xs" and conv: "Convert iter IsS Enc sha reg ins0 ts0 = Ok objs"
  shows "(\<forall>b. PRoleBinding b \<in> set objs \<longrightarrow>
            (\<exists>r. PRole r \<in> set objs \<and> role_Namespace r = rb_Namespace b \<and> role_Name r = rb_RoleName b)
            \<and> list_all (\<lambda>s. account_available objs (sub_Namespace s) (sub_Name s)) (rb_Subjects b))
       \<and> (\<forall>b. PClusterRoleBinding b \<in> set objs \<longrightarrow>
            (\<exists>r. PClusterRole r \<in> set objs \<and> cr_Name r = crb_RoleName b)
            \<and> list_all (\<lambda>s. account_available objs (sub_Namespace s) (sub_Name s)) (crb_Subjects b))
       \<and> (\<forall>d. PDeployment d \<in> set objs \<longrightarrow>
            account_available objs (dep_Namespace d) (saNameOrDefault (ds_ServiceAccountName (dep_Spec d))))"
proof (rule Convert_Ok [OF conv])
  fix ins ts perms cperms rs crs others
  assume prom: "promoted_permissions ts (csv_Permissions (rv_CSV reg)) (csv_ClusterPermissions (rv_CSV reg)) = (perms, cperms)"
    and rs: "list_all2 (\<lambda>np rb. role_and_binding Enc sha reg ins np = Ok rb) (concat (map (\<lambda>ns. map (Pair ns) perms) ts)) rs"
    and crs: "list_all2 (\<lambda>p crb. cluster_role_and_binding Enc sha reg ins p = Ok crb) cperms crs"
    and objs: "objs = map PServiceAccount (filter (\<lambda>sa. sa_Name sa \<noteq> ''default'') (map snd (iter (service_accounts reg ins))))
              @ map (PRole \<circ> fst) rs @ map (PRoleBinding \<circ> snd) rs
              @ map (PClusterRole \<circ> fst) crs @ map (PClusterRoleBinding \<circ> snd) crs
              @ map PCRD (rv_CRDs reg) @ map POther others
              @ map (PDeployment \<circ> new_deployment reg ins ts) (csv_DeploymentSpecs (rv_CSV reg))"
  have acc: "account_available objs ins n" if "n \<in> fst ` set (service_accounts reg ins)" for n
    using account_generated [OF iter that] objs by (auto simp: account_available_def)
  have perm_acc: "account_available objs ins (saNameOrDefault (perm_ServiceAccountName p))" if "p \<in> set perms \<union> set cperms" for p
    using that promoted_permissions_set [OF prom] service_accounts_ok [of ins reg] by (intro acc) auto
  have "(\<exists>r. PRole r \<in> set objs \<and> role_Namespace r = rb_Namespace b \<and> role_Name r = rb_RoleName b)
      \<and> list_all (\<lambda>s. account_available objs (sub_Namespace s) (sub_Name s)) (rb_Subjects b)" if "PRoleBinding b \<in> set objs" for b
  proof -
    from that objs obtain r where mem: "(r, b) \<in> set rs" by auto
    with list_all2_right [OF rs] obtain ns p where "p \<in> set perms" "role_and_binding Enc sha reg ins (ns, p) = Ok (r, b)" by force
    moreover from imageI [OF mem, of "PRole \<circ> fst"] objs have "PRole r \<in> set objs" by simp
    ultimately show ?thesis using perm_acc
      by (auto dest!: role_and_binding_Ok simp: newRole_def newRoleBinding_def sa_subjects_def)
  qed
  moreover have "(\<exists>r. PClusterRole r \<in> set objs \<and> cr_Name r = crb_RoleName b)
      \<and> list_all (\<lambda>s. account_available objs (sub_Namespace s) (sub_Name s)) (crb_Subjects b)" if "PClusterRoleBinding b \<in> set objs" for b
  proof -
    from that objs obtain r where mem: "(r, b) \<in> set crs" by auto
    with list_all2_right [OF crs] obtain p where "p \<in> set cperms" "cluster_role_and_binding Enc sha reg ins p = Ok (r, b)" by force
    moreover from imageI [OF mem, of "PClusterRole \<circ> fst"] objs have "PClusterRole r \<in> set objs" by simp
    ultimately show ?thesis using perm_acc
      by (auto dest!: cluster_role_and_binding_Ok simp: newClusterRole_def newClusterRoleBinding_def sa_subjects_def)
  qed
  moreover have "account_available objs (dep_Namespace d) (saNameOrDefault (ds_ServiceAccountName (dep_Spec d)))"
    if "PDeployment d \<in> set objs" for d
  proof -
    from that objs obtain ds where "ds \<in> set (csv_DeploymentSpecs (rv_CSV reg))" "d = new_deployment reg ins ts ds" by auto
    moreover from this(1) service_accounts_ok [of ins reg]
    have "saNameOrDefault (ds_ServiceAccountName (sds_Spec ds)) \<in> fst ` set (service_accounts reg ins)" by blast
    ultimately show ?thesis using acc by (simp add: new_deployment_def)
  qed
  ultimately show ?thesis by blast
qed

definition demo_rule :: PolicyRule where
  "demo_rule = \<lparr>pr_Verbs = [''get''], pr_APIGroups = [[]], pr_Resources = [''pods'']\<rparr>"

definition demo_csv :: ClusterServiceVersion where
  "demo_csv = empty_csv\<lparr>csv_Name := ''op.v1'', csv_InstallModes := [(''SingleNamespace'', True), (''AllNamespaces'', False)],
     csv_DeploymentSpecs := [\<lparr>sds_Name = ''op'', sds_Label = Map.empty,
        sds_Spec = \<lparr>ds_TemplateAnnotations = Map.empty, ds_ServiceAccountName = ''op-sa'', ds_Rest = JNull\<rparr>\<rparr>],
     csv_Permissions := [\<lparr>perm_ServiceAccountName = ''op-sa'', perm_Rules = [demo_rule]\<rparr>]\<rparr>"

definition demo_registry_v1 :: RegistryV1 where
  "demo_registry_v1 = \<lparr>rv_PackageName = ''op'', rv_CSV = demo_csv, rv_CRDs = [], rv_Others = []\<rparr>"

definition demo_sha :: "string \<Rightarrow> nat list" where
  "demo_sha s = replicate 28 (length s mod 256)"

lemma demo_sha_law: "digest_law demo_sha"
  by (simp add: digest_law_def demo_sha_def list_all_iff)

lemma demo_generateName:
  "\<exists>name. generateName (\<lambda>_. Inr ''x'') demo_sha base (p :: Permission) = Ok name"
proof -
  obtain h where h: "DeepHashObject (\<lambda>_ :: Permission. Inr ''x'') demo_sha p = Ok h" by (simp add: DeepHashObject_def)
  have "length h \<le> 44"
  proof -
    have "length (demo_sha ''x'') = 28" "list_all (\<lambda>b. b < 256) (demo_sha ''x'')" by (simp_all add: demo_sha_def list_all_iff)
    then have "bytes_number (demo_sha ''x'') < 256 ^ 28" using bytes_number_less by metis
    also have "(256 :: nat) ^ 28 \<le> 36 ^ 44" by simp
    finally show ?thesis using h by (auto simp: DeepHashObject_def intro: digits_in_length)
  qed
  with h show ?thesis by (auto simp: generateName_def slice_to_def maxNameLength_def)
qed

lemma demo_Convert:
  "\<exists>objs. Convert id (\<lambda>_. (True, True)) (\<lambda>_. Inr ''x'') demo_sha demo_registry_v1 ''sys'' [''team''] = Ok objs"
proof -
  obtain name where "generateName (\<lambda>_. Inr ''x'') demo_sha ''op.v1-op-sa'' (\<lparr>perm_ServiceAccountName = ''op-sa'', perm_Rules = [demo_rule]\<rparr>) = Ok name"
    using demo_generateName by blast
  moreover have "supported_install_modes demo_csv = {''SingleNamespace''}"
    by (auto simp: supported_install_modes_def demo_csv_def empty_csv_def image_iff)
  ultimately show ?thesis
    by (simp add: Convert_def demo_registry_v1_def demo_csv_def empty_csv_def install_namespace_def
        default_targets_def validateTargetNamespaces_def InstallModeTypeSingleNamespace_def promoted_permissions_def
        role_and_binding_def saNameOrDefault_def Let_def)
qed

theorem converted_objects_resolve_witness:
  "\<exists>objs. Convert id (\<lambda>_. (True, True)) (\<lambda>_. Inr ''x'') demo_sha demo_registry_v1 ''sys'' [''team''] = Ok objs
     \<and> (\<forall>b. PRoleBinding b \<in> set objs \<longrightarrow>
          (\<exists>r. PRole r \<in> set objs \<and> role_Namespace r = rb_Namespace b \<and> role_Name r = rb_RoleName b))"
proof -
  obtain objs where run: "Convert id (\<lambda>_. (True, True)) (\<lambda>_. Inr ''x'') demo_sha demo_registry_v1 ''sys'' [''team''] = Ok objs"
    using demo_Convert by blast
  from converted_objects_resolve [OF _ this] run show ?thesis by auto
qed

text \<open>C22. The conversion grants nothing the bundle does not ask for: a generated role is in a target namespace and carries the rules
  of one of the bundle's permissions; a generated cluster role carries the rules of one of its cluster permissions, or,
  only when all namespaces are targeted, of one of its permissions, and then there are no roles.\<close>

theorem converted_rbac_bounded:
  assumes "Convert iter IsS Enc sha reg ins0 ts0 = Ok objs"
  shows "\<exists>ts. ts = default_targets (supported_install_modes (rv_CSV reg)) (install_namespace reg ins0) ts0
     \<and> (\<forall>r. PRole r \<in> set objs \<longrightarrow> ts \<noteq> [[]] \<and> role_Namespace r \<in> set ts
            \<and> role_Rules r \<in> perm_Rules ` set (csv_Permissions (rv_CSV reg)))
     \<and> (\<forall>r. PClusterRole r \<in> set objs \<longrightarrow>
            cr_Rules r \<in> perm_Rules ` set (csv_ClusterPermissions (rv_CSV reg))
            \<or> (ts = [[]] \<and> cr_Rules r \<in> perm_Rules ` set (csv_Permissions (rv_CSV reg))))"
proof (rule Convert_Ok [OF assms])
  fix ins ts perms cperms rs crs others
  assume ins: "ins = install_namespace reg ins0" and ts: "ts = default_targets (supported_install_modes (rv_CSV reg)) ins ts0"
    and prom: "promoted_permissions ts (csv_Permissions (rv_CSV reg)) (csv_ClusterPermissions (rv_CSV reg)) = (perms, cperms)"
    and rs: "list_all2 (\<lambda>np rb. role_and_binding Enc sha reg ins np = Ok rb) (concat (map (\<lambda>ns. map (Pair ns) perms) ts)) rs"
    and crs: "list_all2 (\<lambda>p crb. cluster_role_and_binding Enc sha reg ins p = Ok crb) cperms crs"
    and objs: "objs = map PServiceAccount (filter (\<lambda>sa. sa_Name sa \<noteq> ''default'') (map snd (iter (service_accounts reg ins))))
              @ map (PRole \<circ> fst) rs @ map (PRoleBinding \<circ> snd) rs
              @ map (PClusterRole \<circ> fst) crs @ map (PClusterRoleBinding \<circ> snd) crs
              @ map PCRD (rv_CRDs reg) @ map POther others
              @ map (PDeployment \<circ> new_deployment reg ins ts) (csv_DeploymentSpecs (rv_CSV reg))"
  have "ts \<noteq> [[]] \<and> role_Namespace r \<in> set ts \<and> role_Rules r \<in> perm_Rules ` set (csv_Permissions (rv_CSV reg))"
    if "PRole r \<in> set objs" for r
  proof -
    from that objs obtain b where "(r, b) \<in> set rs" by auto
    with list_all2_right [OF rs] obtain ns p where np: "ns \<in> set ts" "p \<in> set perms"
      and "role_and_binding Enc sha reg ins (ns, p) = Ok (r, b)" by force
    then obtain name where "r = newRole ns name (perm_Rules p)" using role_and_binding_Ok by blast
    with np prom show ?thesis by (auto simp: promoted_permissions_def newRole_def split: if_splits)
  qed
  moreover have "cr_Rules r \<in> perm_Rules ` set (csv_ClusterPermissions (rv_CSV reg))
      \<or> (ts = [[]] \<and> cr_Rules r \<in> perm_Rules ` set (csv_Permissions (rv_CSV reg)))" if "PClusterRole r \<in> set objs" for r
  proof -
    from that objs obtain b where "(r, b) \<in> set crs" by auto
    with list_all2_right [OF crs] obtain p where "p \<in> set cperms" "cluster_role_and_binding Enc sha reg ins p = Ok (r, b)" by force
    moreover from this(2) obtain name where "r = newClusterRole name (perm_Rules p)" using cluster_role_and_binding_Ok by blast
    ultimately show ?thesis using prom by (auto simp: promoted_permissions_def newClusterRole_def split: if_splits)
  qed
  ultimately show ?thesis using ins ts by blast
qed

theorem converted_rbac_bounded_witness:
  "\<exists>objs. Convert id (\<lambda>_. (True, True)) (\<lambda>_. Inr ''x'') demo_sha demo_registry_v1 ''sys'' [''team''] = Ok objs
     \<and> (\<forall>r. PRole r \<in> set objs \<longrightarrow> role_Namespace r = ''team'')"
proof -
  obtain objs where run: "Convert id (\<lambda>_. (True, True)) (\<lambda>_. Inr ''x'') demo_sha demo_registry_v1 ''sys'' [''team''] = Ok objs"
    using demo_Convert by blast
  from converted_rbac_bounded [OF this] run show ?thesis by (auto simp: default_targets_def)
qed

text \<open>The install-mode check accepts exactly the target namespaces that a supported mode covers: all of them, one, the
  install namespace, or several.\<close>

theorem validateTargetNamespaces_iff:
  "validateTargetNamespaces modes ins ts = None \<longleftrightarrow>
     (set ts \<subseteq> {[]} \<and> InstallModeTypeAllNamespaces \<in> modes)
     \<or> (\<exists>ns. ns \<noteq> [] \<and> set ts = {ns} \<and> (InstallModeTypeSingleNamespace \<in> modes \<or> (InstallModeTypeOwnNamespace \<in> modes \<and> ns = ins)))
     \<or> (card (set ts) \<ge> 2 \<and> [] \<notin> set ts \<and> InstallModeTypeMultiNamespace \<in> modes)"
proof -
  consider (none) "set ts = {}" | (one) ns where "set ts = {ns}" | (many) "card (set ts) \<ge> 2"
  proof -
    have "card (set ts) = 0 \<or> card (set ts) = 1 \<or> card (set ts) \<ge> 2" by linarith
    then show ?thesis using none one many by (auto simp: card_1_singleton_iff)
  qed
  then show ?thesis
  proof cases
    case none
    then show ?thesis by (simp add: validateTargetNamespaces_def)
  next
    case one
    then have "hd ts = ns" by (cases ts) auto
    with one show ?thesis by (auto simp: validateTargetNamespaces_def Let_def)
  next
    case many
    have one: "set ts \<noteq> {ns}" for ns
    proof
      assume "set ts = {ns}"
      then have "card (set ts) = 1" by simp
      with many show False by simp
    qed
    have "\<not> set ts \<subseteq> {[]}"
    proof
      assume "set ts \<subseteq> {[]}"
      then have "set ts = {} \<or> set ts = {[]}" by (rule subset_singletonD)
      with many one show False by auto
    qed
    with many one show ?thesis by (auto simp: validateTargetNamespaces_def Let_def)
  qed
qed

text \<open>C40. The length of a generated name: it never fails for an object that can be encoded, it ends in the object's hash, and it
  has at most 63 characters except when base and hash have 63 together, where the hyphen makes it 64.\<close>

theorem generateName_length:
  assumes "digest_law sha224" and "Encode obj = Inr x"
  shows "\<exists>h pre. DeepHashObject Encode sha224 obj = Ok h \<and> generateName Encode sha224 base obj = Ok (pre @ ''-'' @ h)
     \<and> HasPrefix base pre
     \<and> length (pre @ ''-'' @ h) = (if length base + length h > 63 then 63 else length base + length h + 1)"
proof -
  define h where "h = digits_in 36 (bytes_number (sha224 x))"
  have "length (sha224 x) = 28" "list_all (\<lambda>b. b < 256) (sha224 x)" using assms(1) by (auto simp: digest_law_def)
  then have "bytes_number (sha224 x) < 256 ^ 28" using bytes_number_less by metis
  also have "(256 :: nat) ^ 28 \<le> 36 ^ 44" by simp
  finally have len: "length h \<le> 44" unfolding h_def by (intro digits_in_length) auto
  have h: "DeepHashObject Encode sha224 obj = Ok h" using assms(2) by (simp add: DeepHashObject_def h_def)
  show ?thesis
  proof (cases "length base + length h > 63")
    case True
    then have lb: "62 - length h \<le> length base" by simp
    have "nat (62 - int (length h)) = 62 - length h" using len by simp
    with h len True have "generateName Encode sha224 base obj = Ok (take (62 - length h) base @ ''-'' @ h)"
      by (simp add: generateName_def slice_to_def maxNameLength_def)
    moreover have "HasPrefix base (take (62 - length h) base)" using lb by (simp add: HasPrefix_def)
    moreover have "length (take (62 - length h) base @ ''-'' @ h) = 63" using lb len by simp
    ultimately show ?thesis using h True by auto
  next
    case False
    with h have "generateName Encode sha224 base obj = Ok (base @ ''-'' @ h)"
      by (simp add: generateName_def maxNameLength_def)
    moreover have "HasPrefix base base" by (simp add: HasPrefix_def)
    ultimately show ?thesis using h False by auto
  qed
qed

theorem generateName_length_witness:
  "\<exists>h pre. generateName Inr demo_sha ''op.v1-sa'' ''x'' = Ok (pre @ ''-'' @ h) \<and> HasPrefix ''op.v1-sa'' pre"
  using generateName_length [OF demo_sha_law, of Inr "''x''" "''x''" "''op.v1-sa''"] by auto

end
