(* ===== verification/Provisioners.thy ===== *)
theory Provisioners
  imports Convert Util_FS
begin

text \<open>
  The provisioners (pkg/provisioner): the handlers that turn the files of a bundle into a
  chart and its values, for plain bundles (plain.go), registry+v1 bundles (registry.go)
  and Helm charts (helm.go), and the interface \<open>Handler\<close> (pkg/handler) as the locale
  \<open>bundle_handler\<close>. Helm's loader and validator, YAML and the resource builder are
  parameters.
\<close>

section \<open>The interface\<close>

record chart =
  ch_Name :: string
  ch_Templates :: "(string \<times> string) list"

type_synonym handler = "fs_FS \<Rightarrow> BundleDeployment \<Rightarrow> (chart \<times> json option) outcome"

text \<open>
  What the controller relies on: the chart is determined by the bundle's files and by what the
  user asked for, so reconciling again, with another status or other metadata, gives the
  same chart.
\<close>

locale bundle_handler =
  fixes handle :: handler
  assumes spec_only: "bd_Spec bd = bd_Spec bd' \<Longrightarrow> handle fsys bd = handle fsys bd'"
begin

lemma status_irrelevant: "handle fsys (bd\<lparr>bd_Status := st\<rparr>) = handle fsys bd"
  by (rule spec_only) simp

lemma meta_irrelevant: "handle fsys (bd\<lparr>bd_Meta := m\<rparr>) = handle fsys bd"
  by (rule spec_only) simp

end

section \<open>Plain bundles\<close>

definition plain_ProvisionerID :: string where "plain_ProvisionerID = ''core-rukpak-io-plain''"
definition registry_ProvisionerID :: string where "registry_ProvisionerID = ''core-rukpak-io-registry''"
definition helm_ProvisionerID :: string where "helm_ProvisionerID = ''core-rukpak-io-helm''"

text \<open>An opened file is a reader: its content, or the error of reading it, which the builder reports.\<close>

type_synonym reader_builder = "string result \<Rightarrow> string \<Rightarrow> gerror option \<times> kobject option list result"

definition getObjects :: "reader_builder \<Rightarrow> fs_FS \<Rightarrow> DirEntry \<Rightarrow> kobject list outcome" where
  "getObjects builder bundle manifest =
     (let manifestPath = Join [manifestsDir, de_Name manifest] in
      case fs_Open bundle manifestPath of
        Inl err \<Rightarrow> Err err
      | Inr manifestReader \<Rightarrow> ManifestObjects (\<lambda>_. builder (file_Data manifestReader)) [] manifestPath)"

definition getBundleObjects :: "reader_builder \<Rightarrow> fs_FS \<Rightarrow> kobject list outcome" where
  "getBundleObjects builder bundleFS =
     (case fs_ReadDir bundleFS manifestsDir of
        Inl err \<Rightarrow> Err err
      | Inr entries \<Rightarrow>
          obind (omap (\<lambda>e. if de_IsDir e then Err (subdirectory_error (de_Name e)) else getObjects builder bundleFS e) entries)
            (\<lambda>objs. Ok (concat objs)))"

definition prefix_error :: "string \<Rightarrow> 'a outcome \<Rightarrow> 'a outcome" where
  "prefix_error msg r = (case r of Err e \<Rightarrow> Err (Msg (msg @ Error e)) | x \<Rightarrow> x)"

definition ValidateBundle :: "reader_builder \<Rightarrow> fs_FS \<Rightarrow> unit outcome" where
  "ValidateBundle builder fsys =
     obind (prefix_error ''get objects from bundle manifests: '' (getBundleObjects builder fsys)) (\<lambda>objects.
       if objects = []
       then Err (Msg ''invalid bundle: found zero objects: plain+v0 bundles are required to contain at least one object'')
       else Ok ())"

definition hex_bytes :: "nat list \<Rightarrow> string" where
  "hex_bytes bs = concat (map (\<lambda>b. [digit_char (b div 16), digit_char (b mod 16)]) bs)"

definition object_template :: "(kobject \<Rightarrow> string result) \<Rightarrow> (string \<Rightarrow> nat list) \<Rightarrow> kobject \<Rightarrow> (string \<times> string) outcome" where
  "object_template Marshal sha256 obj =
     (case Marshal obj of
        Inl err \<Rightarrow> Err err
      | Inr yamlData \<Rightarrow> Ok (''object-'' @ hex_bytes (take 8 (sha256 yamlData)) @ ''.yaml'', yamlData))"

definition chartFromBundle :: "(kobject \<Rightarrow> string result) \<Rightarrow> (string \<Rightarrow> nat list) \<Rightarrow> reader_builder \<Rightarrow> fs_FS \<Rightarrow> chart outcome" where
  "chartFromBundle Marshal sha256 builder fsys =
     obind (prefix_error ''read bundle objects from bundle: '' (getBundleObjects builder fsys)) (\<lambda>objects.
     obind (omap (object_template Marshal sha256) objects) (\<lambda>templates.
       Ok \<lparr>ch_Name = [], ch_Templates = templates\<rparr>))"

definition plain_HandleBundleDeployment ::
  "(kobject \<Rightarrow> string result) \<Rightarrow> (string \<Rightarrow> nat list) \<Rightarrow> reader_builder \<Rightarrow> handler" where
  "plain_HandleBundleDeployment Marshal sha256 builder fsys bd =
     obind (ValidateBundle builder fsys) (\<lambda>_.
     obind (chartFromBundle Marshal sha256 builder fsys) (\<lambda>chrt. Ok (chrt, None)))"

section \<open>Registry bundles\<close>

definition registry_HandleBundleDeployment ::
  "convert_libs \<Rightarrow> (kobject \<Rightarrow> string result) \<Rightarrow> (string \<Rightarrow> nat list) \<Rightarrow> reader_builder \<Rightarrow> handler" where
  "registry_HandleBundleDeployment L Marshal sha256 builder fsys bd =
     obind (prefix_error ''convert registry+v1 bundle to plain+v0 bundle: '' (RegistryV1ToPlain L fsys (spec_InstallNamespace (bd_Spec bd)) [[]])) (\<lambda>plainFS.
       plain_HandleBundleDeployment Marshal sha256 builder plainFS bd)"

section \<open>Helm charts\<close>

text \<open>\<open>json.Unmarshal\<close> into a map of strings: null leaves the map nil, an object's members must be strings or
  null, and of equal names the last counts.\<close>

fun string_members :: "(string \<times> json) list \<Rightarrow> (string \<rightharpoonup> string) option" where
  "string_members [] = Some Map.empty"
| "string_members ((k, v) # kvs) =
     (case string_members kvs of
        None \<Rightarrow> None
      | Some m \<Rightarrow>
          (case v of
             JStr s \<Rightarrow> Some (if m k = None then m(k \<mapsto> s) else m)
           | JNull \<Rightarrow> Some (if m k = None then m(k \<mapsto> []) else m)
           | _ \<Rightarrow> None))"

definition unmarshal_string_map :: "json \<Rightarrow> (string \<rightharpoonup> string) result" where
  "unmarshal_string_map j =
     (case j of
        JNull \<Rightarrow> Inr Map.empty
      | JObj kvs \<Rightarrow> (case string_members kvs of None \<Rightarrow> Inl (Msg ''json: cannot unmarshal into Go value of type string'') | Some m \<Rightarrow> Inr m)
      | _ \<Rightarrow> Inl (Msg ''json: cannot unmarshal into Go value of type map[string]string''))"

definition loadValues :: "(json \<Rightarrow> json result) \<Rightarrow> (string \<Rightarrow> json result) \<Rightarrow> BundleDeployment \<Rightarrow> json option outcome" where
  "loadValues Marshal ReadValues bd =
     (case Marshal (spec_Config (bd_Spec bd)) of
        Inl err \<Rightarrow> Err (Msg (''marshal JSON for deployment config: '' @ Error err))
      | Inr data \<Rightarrow>
          (case unmarshal_string_map data of
             Inl err \<Rightarrow> Err (Msg (''parse deployment config: '' @ Error err))
           | Inr config \<Rightarrow>
               (let valuesString = (case config ''values'' of None \<Rightarrow> [] | Some v \<Rightarrow> v) in
                if valuesString = [] then Ok None
                else
                  (case ReadValues valuesString of
                     Inl err \<Rightarrow> Err (Msg (''read chart values: '' @ Error err))
                   | Inr values \<Rightarrow> Ok (Some values)))))"

text \<open>
  The archive goes through a pipe from one goroutine to another. \<open>LoadArchive\<close> sees what was written: the whole
  archive, or the error the writer closed the pipe with. Its result comes with whether it has read all that was
  written. When it has not, the writer waits for a reader that never comes (the reading end
  is not closed), and so does \<open>Wait\<close>. The writing goroutine itself returns nil, since \<open>CloseWithError\<close> does.
\<close>

type_synonym archive_loader = "tar_entry list result \<Rightarrow> chart result \<times> bool"

definition load_written :: "archive_loader \<Rightarrow> (chart \<Rightarrow> gerror option) \<Rightarrow> tar_entry list result \<Rightarrow> chart outcome" where
  "load_written LoadArchive Validate written =
     (case LoadArchive written of
        (r, drained) \<Rightarrow>
          if \<not> drained then Diverge
          else
            (case r of
               Inl err \<Rightarrow> Err err
             | Inr chrt \<Rightarrow> (case Validate chrt of Some err \<Rightarrow> Err err | None \<Rightarrow> Ok chrt)))"

definition getChart :: "nat \<Rightarrow> archive_loader \<Rightarrow> (chart \<Rightarrow> gerror option) \<Rightarrow> fs_FS \<Rightarrow> chart outcome" where
  "getChart depth LoadArchive Validate chartfs =
     (case FSToTarGZ depth (\<lambda>_. None) chartfs of
        Ok es \<Rightarrow> load_written LoadArchive Validate (Inr es)
      | Err e \<Rightarrow> load_written LoadArchive Validate (Inl e)
      | Panic p \<Rightarrow> Panic p
      | Diverge \<Rightarrow> Diverge)"

definition helm_HandleBundleDeployment ::
  "nat \<Rightarrow> archive_loader \<Rightarrow> (chart \<Rightarrow> gerror option) \<Rightarrow> (json \<Rightarrow> json result) \<Rightarrow> (string \<Rightarrow> json result) \<Rightarrow> handler" where
  "helm_HandleBundleDeployment depth LoadArchive Validate Marshal ReadValues fsys bd =
     obind (EnsureBaseDirFS fsys ''chart'') (\<lambda>chartFS.
     obind (loadValues Marshal ReadValues bd) (\<lambda>values.
     obind (getChart depth LoadArchive Validate chartFS) (\<lambda>chrt. Ok (chrt, values))))"

section \<open>The provisioners meet the interface\<close>

interpretation plain_handler: bundle_handler "plain_HandleBundleDeployment Marshal sha256 builder"
  for Marshal sha256 builder
  by unfold_locales (simp add: plain_HandleBundleDeployment_def)

interpretation registry_handler: bundle_handler "registry_HandleBundleDeployment L Marshal sha256 builder"
  for L Marshal sha256 builder
  by unfold_locales (simp add: registry_HandleBundleDeployment_def plain_HandleBundleDeployment_def)

interpretation helm_handler: bundle_handler "helm_HandleBundleDeployment depth LoadArchive Validate Marshal ReadValues"
  for depth LoadArchive Validate Marshal ReadValues
  by unfold_locales (simp add: helm_HandleBundleDeployment_def loadValues_def)

section \<open>Lemmas\<close>

lemma prefix_error_Ok [simp]: "prefix_error msg r = Ok x \<longleftrightarrow> r = Ok x"
  by (cases r) (auto simp: prefix_error_def)

lemma plain_handle_Ok:
  "plain_HandleBundleDeployment Marshal sha256 builder fsys bd = Ok (chrt, v) \<longleftrightarrow>
     v = None \<and> (\<exists>objs. getBundleObjects builder fsys = Ok objs \<and> objs \<noteq> []
        \<and> list_all2 (\<lambda>obj t. object_template Marshal sha256 obj = Ok t) objs (ch_Templates chrt) \<and> ch_Name chrt = [])"
  by (cases chrt) (auto simp: plain_HandleBundleDeployment_def ValidateBundle_def chartFromBundle_def omap_Ok_iff split: if_splits)

lemma object_template_Ok:
  "object_template Marshal sha256 obj = Ok t \<longleftrightarrow>
     Marshal obj = Inr (snd t) \<and> fst t = ''object-'' @ hex_bytes (take 8 (sha256 (snd t))) @ ''.yaml''"
  by (cases t) (auto simp: object_template_def split: sum.splits)

text \<open>The file system that a registry bundle is converted to has one manifest.\<close>

definition converted_fs :: "string \<Rightarrow> fs_FS" where
  "converted_fs data = MapFS [(''.'', \<lparr>mf_Data = [], mf_Type = Directory, mf_Perm = 493\<rparr>),
     (''manifests'', \<lparr>mf_Data = [], mf_Type = Directory, mf_Perm = 493\<rparr>),
     (''manifests/manifest.yaml'', \<lparr>mf_Data = data, mf_Type = RegularFile, mf_Perm = 420\<rparr>)]"

lemma converted_fs_children:
  "mapfs_children [(''.'', a), (''manifests'', b), (''manifests/manifest.yaml'', c)] ''manifests'' = [''manifest.yaml'']"
proof -
  have "sorted_list_of_set (set (map (\<lambda>k. hd (path_elems (drop (length (dir_prefix ''manifests'')) k)))
       (filter (\<lambda>k. k \<noteq> ''.'' \<and> HasPrefix k (dir_prefix ''manifests'')) [''.'', ''manifests'', ''manifests/manifest.yaml''])))
     = [''manifest.yaml'']" by code_simp
  then show ?thesis by (simp only: mapfs_children_def list.map fst_conv)
qed

lemma converted_fs_listing:
  "fs_ReadDir (converted_fs data) ''manifests'' = Inr [FileInfoToDirEntry (plain_info ''manifest.yaml'' RegularFile 420)]"
proof -
  have "ValidPath ''manifests''" by code_simp
  then show ?thesis
    by (simp add: converted_fs_def MapFS_ReadDir_def MapFS_Open_def mapfs_dir_info_def plain_info_def converted_fs_children
        mapfs_entry_def dir_prefix_def)
qed

lemma converted_fs_open:
  "\<exists>st. fs_Open (converted_fs data) ''manifests/manifest.yaml'' = Inr \<lparr>file_Stat = st, file_Data = Inr data\<rparr>"
proof -
  have "ValidPath ''manifests/manifest.yaml''" by code_simp
  then show ?thesis by (simp add: converted_fs_def MapFS_Open_def)
qed

lemma converted_fs_objects:
  "getBundleObjects builder (converted_fs data) =
     obind (ManifestObjects (\<lambda>_. builder (Inr data)) [] ''manifests/manifest.yaml'') (\<lambda>objs. Ok objs)"
proof -
  have "Join [''manifests'', ''manifest.yaml''] = ''manifests/manifest.yaml''" by code_simp
  then show ?thesis
    using converted_fs_listing [of data] converted_fs_open [of data]
    by (auto simp: getBundleObjects_def manifestsDir_def getObjects_def FileInfoToDirEntry_def plain_info_def Let_def simp del: Join.simps)
      (cases "ManifestObjects (\<lambda>_. builder (Inr data)) [] ''manifests/manifest.yaml''"; simp)
qed

section \<open>Properties\<close>

text \<open>What the objects of a manifest are, without reference to the code: the file opens, and the builder reads them from its content, each of them a client object.\<close>

definition manifest_has :: "reader_builder \<Rightarrow> fs_FS \<Rightarrow> DirEntry \<Rightarrow> kobject list \<Rightarrow> bool" where
  "manifest_has builder fsys e objs \<longleftrightarrow>
     \<not> de_IsDir e \<and> (\<exists>f. fs_Open fsys (Join [''manifests'', de_Name e]) = Inr f \<and>
        builder (file_Data f) (Join [''manifests'', de_Name e]) = (None, Inr (map Some objs)))"

lemma getObjects_Ok:
  "(if de_IsDir e then Err (subdirectory_error (de_Name e)) else getObjects builder fsys e) = Ok objs \<longleftrightarrow> manifest_has builder fsys e objs"
  by (auto simp: getObjects_def manifest_has_def Let_def manifestsDir_def ManifestObjects_Ok simp del: Join.simps split: sum.splits)

lemma getBundleObjects_Ok:
  "getBundleObjects builder fsys = Ok objs \<longleftrightarrow>
     (\<exists>entries objss. fs_ReadDir fsys ''manifests'' = Inr entries \<and> list_all2 (manifest_has builder fsys) entries objss \<and> objs = concat objss)"
  by (auto simp: getBundleObjects_def manifestsDir_def omap_Ok_iff getObjects_Ok split: sum.splits)

text \<open>C31. A plain bundle's chart is the bundle's objects. Handling the bundle succeeds exactly when its manifests directory lists, has no directories in it, every file
  in it opens and is read by the builder, there is at least one object in them, and every object has a YAML form; then the chart has one
  template for each object of each file, in the order of the listing and of the files, with the object's YAML as data and a name from the hash of that data, and there are no values.\<close>

theorem plain_chart_complete:
  "plain_HandleBundleDeployment Marshal sha256 builder fsys bd = Ok (chrt, v) \<longleftrightarrow>
     v = None \<and> ch_Name chrt = [] \<and>
     (\<exists>entries objss. fs_ReadDir fsys ''manifests'' = Inr entries
       \<and> list_all2 (\<lambda>e objs. \<not> de_IsDir e \<and> (\<exists>f. fs_Open fsys (Join [''manifests'', de_Name e]) = Inr f \<and>
           builder (file_Data f) (Join [''manifests'', de_Name e]) = (None, Inr (map Some objs)))) entries objss
       \<and> concat objss \<noteq> []
       \<and> list_all2 (\<lambda>obj t. Marshal obj = Inr (snd t) \<and> fst t = ''object-'' @ hex_bytes (take 8 (sha256 (snd t))) @ ''.yaml'') (concat objss) (ch_Templates chrt))"
  unfolding manifest_has_def [symmetric] plain_handle_Ok object_template_Ok getBundleObjects_Ok by blast

definition demo_plain_fs :: fs_FS where
  "demo_plain_fs = converted_fs ''kind: Pod''"

definition demo_builder :: reader_builder where
  "demo_builder r path = (case r of Inl e \<Rightarrow> (Some e, Inr []) | Inr d \<Rightarrow> (None, Inr [Some (demo_pod (JStr d))]))"

text \<open>How the documents of a registry bundle are sorted: the last cluster service version counts, definitions and other objects keep their order.\<close>

abbreviation of_kind :: "string \<Rightarrow> kobject \<Rightarrow> bool" where
  "of_kind k obj \<equiv> gvk_Kind (ko_GVK obj) = k"

lemma classify_all_Ok:
  assumes "classify_all L docs reg = Ok reg'"
  shows "rv_PackageName reg' = rv_PackageName reg \<and>
    (\<exists>crds. rv_CRDs reg' = rv_CRDs reg @ crds \<and> list_all2 (\<lambda>d crd. vl_CRD L d = Inr crd) (filter (of_kind ''CustomResourceDefinition'') docs) crds) \<and>
    rv_Others reg' = rv_Others reg @ filter (\<lambda>d. \<not> of_kind ''ClusterServiceVersion'' d \<and> \<not> of_kind ''CustomResourceDefinition'' d) docs \<and>
    (case filter (of_kind ''ClusterServiceVersion'') docs of [] \<Rightarrow> rv_CSV reg' = rv_CSV reg | d # ds \<Rightarrow> vl_CSV L (last (d # ds)) = Inr (rv_CSV reg'))"
  using assms
proof (induction docs arbitrary: reg)
  case (Cons d docs)
  then obtain reg1 where c: "classify L d reg = Ok reg1" and run: "classify_all L docs reg1 = Ok reg'" by auto
  note IH = Cons.IH [OF run]
  consider (csv) "of_kind ''ClusterServiceVersion'' d" | (crd) "of_kind ''CustomResourceDefinition'' d"
    | (other) "\<not> of_kind ''ClusterServiceVersion'' d" "\<not> of_kind ''CustomResourceDefinition'' d" by blast
  then show ?case
  proof cases
    case csv
    with c IH show ?thesis by (auto simp: classify_def split: sum.splits list.splits)
  next
    case crd
    with c obtain x where "vl_CRD L d = Inr x" "reg1 = reg\<lparr>rv_CRDs := rv_CRDs reg @ [x]\<rparr>" by (auto simp: classify_def split: sum.splits)
    with crd IH show ?thesis by (auto split: list.splits)
  next
    case other
    with c IH show ?thesis by (auto simp: classify_def split: list.splits)
  qed
qed simp

lemma manifest_documents_Ok:
  "manifest_documents L fsys e = Ok ds \<longleftrightarrow>
     \<not> de_IsDir e \<and> (\<exists>data. fs_ReadFile fsys (Join [''manifests'', de_Name e]) = Inr data \<and> vl_Decode L data = (ds, None))"
  by (auto simp: manifest_documents_def manifestsDir_def simp del: Join.simps split: sum.splits prod.splits option.splits)

text \<open>What a registry bundle is, without reference to the code: the package name in the annotations, and the documents of the manifests, sorted by kind.\<close>

definition bundle_is :: "convert_libs \<Rightarrow> fs_FS \<Rightarrow> RegistryV1 \<Rightarrow> bool" where
  "bundle_is L fsys reg \<longleftrightarrow>
     (\<exists>ann entries docss. fs_ReadFile fsys (Join [''metadata'', ''annotations.yaml'']) = Inr ann \<and> vl_PackageName L ann = Inr (rv_PackageName reg)
       \<and> fs_ReadDir fsys ''manifests'' = Inr entries
       \<and> list_all2 (\<lambda>e ds. \<not> de_IsDir e \<and> (\<exists>data. fs_ReadFile fsys (Join [''manifests'', de_Name e]) = Inr data \<and> vl_Decode L data = (ds, None))) entries docss
       \<and> list_all2 (\<lambda>d crd. vl_CRD L d = Inr crd) (filter (of_kind ''CustomResourceDefinition'') (concat docss)) (rv_CRDs reg)
       \<and> rv_Others reg = filter (\<lambda>d. \<not> of_kind ''ClusterServiceVersion'' d \<and> \<not> of_kind ''CustomResourceDefinition'' d) (concat docss)
       \<and> (case filter (of_kind ''ClusterServiceVersion'') (concat docss) of [] \<Rightarrow> rv_CSV reg = empty_csv | d # ds \<Rightarrow> vl_CSV L (last (d # ds)) = Inr (rv_CSV reg)))"

lemma read_registry_v1_Ok:
  assumes "read_registry_v1 L fsys = Ok reg"
  shows "bundle_is L fsys reg"
proof -
  obtain ann pkg entries docss where rd: "fs_ReadFile fsys (Join [''metadata'', ''annotations.yaml'']) = Inr ann" "vl_PackageName L ann = Inr pkg"
    "fs_ReadDir fsys ''manifests'' = Inr entries" "omap (manifest_documents L fsys) entries = Ok docss"
    and cl: "classify_all L (concat docss) \<lparr>rv_PackageName = pkg, rv_CSV = empty_csv, rv_CRDs = [], rv_Others = []\<rparr> = Ok reg"
    using assms by (auto simp: read_registry_v1_def manifestsDir_def simp del: Join.simps split: sum.splits)
  then show ?thesis
    using classify_all_Ok [OF cl] unfolding bundle_is_def omap_Ok_iff manifest_documents_Ok
    by (intro exI [of _ ann] exI [of _ entries] exI [of _ docss]) (auto simp del: Join.simps split: list.splits)
qed

text \<open>C30. A registry bundle, end to end. When handling it succeeds, the bundle read from the files (the package name of its annotations, the last cluster service version, the custom resource
  definitions and the other objects of its manifests, no directories among them) supports all namespaces, and the chart has one template for each object that the conversion of this bundle to the
  install namespace generates, in order, with the YAML of what the manifest reads back as. The assumption is that the builder reads the manifest of the generated
  objects, their YAML documents one after the other, as one object for each.\<close>

theorem registry_chart_complete:
  assumes run: "registry_HandleBundleDeployment L Marshal sha256 builder fsys bd = Ok (chrt, v)"
    and reads: "\<And>reg objs yamls. bundle_is L fsys reg \<Longrightarrow>
           Convert (vl_iter L) (vl_IsSupported L) (vl_Encode L) (vl_sha224 L) reg (spec_InstallNamespace (bd_Spec bd)) [[]] = Ok objs \<Longrightarrow>
           list_all2 (\<lambda>obj y. vl_Marshal L obj = Inr y) objs yamls \<Longrightarrow>
           builder (Inr (concat (map (\<lambda>y. ''---'' @ [CHR 0x0A] @ y @ [CHR 0x0A]) yamls))) ''manifests/manifest.yaml'' = (None, Inr (map (Some \<circ> parse) yamls))"
  shows "v = None \<and> (\<exists>reg objs yamls. bundle_is L fsys reg
     \<and> (''AllNamespaces'', True) \<in> set (csv_InstallModes (rv_CSV reg))
     \<and> Convert (vl_iter L) (vl_IsSupported L) (vl_Encode L) (vl_sha224 L) reg (spec_InstallNamespace (bd_Spec bd)) [[]] = Ok objs
     \<and> list_all2 (\<lambda>obj y. vl_Marshal L obj = Inr y) objs yamls
     \<and> list_all2 (\<lambda>y t. Marshal (parse y) = Inr (snd t) \<and> fst t = ''object-'' @ hex_bytes (take 8 (sha256 (snd t))) @ ''.yaml'') yamls (ch_Templates chrt))"
proof -
  from run obtain reg objs yamls where reg: "read_registry_v1 L fsys = Ok reg"
    and conv: "Convert (vl_iter L) (vl_IsSupported L) (vl_Encode L) (vl_sha224 L) reg (spec_InstallNamespace (bd_Spec bd)) [[]] = Ok objs"
    and ys: "list_all2 (\<lambda>obj y. vl_Marshal L obj = Inr y) objs yamls"
    and pl: "plain_HandleBundleDeployment Marshal sha256 builder (converted_fs (plain_manifest yamls)) bd = Ok (chrt, v)"
    by (auto simp: registry_HandleBundleDeployment_def RegistryV1ToPlain_def omap_Ok_iff converted_fs_def)
  note reg_is = read_registry_v1_Ok [OF reg]
  have "getBundleObjects builder (converted_fs (plain_manifest yamls)) = Ok (map parse yamls)"
    using reads [OF reg_is conv ys] by (simp add: converted_fs_objects ManifestObjects_def plain_manifest_def infosToObjects_Ok)
  with pl have "v = None" "list_all2 (\<lambda>y t. Marshal (parse y) = Inr (snd t) \<and> fst t = ''object-'' @ hex_bytes (take 8 (sha256 (snd t))) @ ''.yaml'') yamls (ch_Templates chrt)"
    unfolding plain_handle_Ok by (auto simp: list_all2_map1 object_template_Ok)
  moreover have "InstallModeTypeAllNamespaces \<in> supported_install_modes (rv_CSV reg)"
    by (rule Convert_Ok [OF conv])
      (auto simp: default_targets_def validateTargetNamespaces_def Let_def split: if_splits)
  then have "(''AllNamespaces'', True) \<in> set (csv_InstallModes (rv_CSV reg))"
    by (auto simp: supported_install_modes_def InstallModeTypeAllNamespaces_def)
  ultimately show ?thesis using reg_is conv ys by blast
qed

definition demo_all_csv :: ClusterServiceVersion where
  "demo_all_csv = empty_csv\<lparr>csv_Name := ''op.v1'', csv_InstallModes := [(''AllNamespaces'', True)],
     csv_DeploymentSpecs := [\<lparr>sds_Name = ''op'', sds_Label = Map.empty,
        sds_Spec = \<lparr>ds_TemplateAnnotations = Map.empty, ds_ServiceAccountName = [], ds_Rest = JNull\<rparr>\<rparr>]\<rparr>"

definition demo_convert_libs :: convert_libs where
  "demo_convert_libs = \<lparr>vl_PackageName = (\<lambda>_. Inr ''op''),
     vl_Decode = (\<lambda>_. ([(demo_pod JNull)\<lparr>ko_GVK := \<lparr>gvk_Group = [], gvk_Version = [], gvk_Kind = ''ClusterServiceVersion''\<rparr>\<rparr>], None)),
     vl_CSV = (\<lambda>_. Inr demo_all_csv), vl_CRD = Inr, vl_Marshal = (\<lambda>_. Inr ''y''), vl_iter = id, vl_IsSupported = (\<lambda>_. (True, True)),
     vl_Encode = (\<lambda>_. Inr ''x''), vl_sha224 = demo_sha\<rparr>"

lemma demo_convert_libs_sel [simp]:
  "vl_Marshal demo_convert_libs = (\<lambda>_. Inr ''y'')" "vl_iter demo_convert_libs = id"
  "vl_Encode demo_convert_libs = (\<lambda>_. Inr ''x'')" "vl_sha224 demo_convert_libs = demo_sha"
  by (simp_all add: demo_convert_libs_def)

definition demo_registry_fs :: fs_FS where
  "demo_registry_fs = \<lparr>fs_Open = (\<lambda>n. Inr \<lparr>file_Stat = Inr (plain_info n RegularFile 420), file_Data = Inr ''doc''\<rparr>),
     fs_ReadDir = (\<lambda>_. Inr [FileInfoToDirEntry (plain_info ''csv.yaml'' RegularFile 420)])\<rparr>"

definition counting_builder :: reader_builder where
  "counting_builder r path = (None, Inr (replicate (case r of Inl e \<Rightarrow> 0 | Inr d \<Rightarrow> length d div 6) (Some (demo_pod JNull))))"

lemma counting_builder_reads:
  assumes "list_all2 (\<lambda>obj y. vl_Marshal demo_convert_libs obj = Inr y) objs yamls"
  shows "counting_builder (Inr (concat (map (\<lambda>y. ''---'' @ [CHR 0x0A] @ y @ [CHR 0x0A]) yamls))) path = (None, Inr (map (Some \<circ> (\<lambda>_. demo_pod JNull)) yamls))"
proof -
  have "length (plain_manifest yamls) = 6 * length yamls"
    using assms by (induction rule: list_all2_induct) (auto simp: plain_manifest_def demo_convert_libs_def)
  moreover have "replicate (length yamls) (Some (demo_pod JNull)) = map (Some \<circ> (\<lambda>_. demo_pod JNull)) yamls"
    by (induction yamls) auto
  ultimately show ?thesis unfolding plain_manifest_def by (simp add: counting_builder_def)
qed

lemma demo_registry_handle:
  "\<exists>chrt v. registry_HandleBundleDeployment demo_convert_libs (\<lambda>_. Inr ''y'') (\<lambda>_. [1]) counting_builder demo_registry_fs demo_owner = Ok (chrt, v)"
proof -
  have modes: "supported_install_modes demo_all_csv = {''AllNamespaces''}"
    by (auto simp: supported_install_modes_def demo_all_csv_def empty_csv_def image_iff)
  have reg: "read_registry_v1 demo_convert_libs demo_registry_fs
      = Ok \<lparr>rv_PackageName = ''op'', rv_CSV = demo_all_csv, rv_CRDs = [], rv_Others = []\<rparr>"
    by (simp add: read_registry_v1_def demo_registry_fs_def fs_ReadFile_def demo_convert_libs_def manifest_documents_def
        FileInfoToDirEntry_def plain_info_def classify_def del: Join.simps)
  have "RegistryV1ToPlain demo_convert_libs demo_registry_fs (spec_InstallNamespace (bd_Spec demo_owner)) [[]] = Ok (converted_fs (plain_manifest [''y'']))"
    using modes by (simp add: RegistryV1ToPlain_def reg Convert_def default_targets_def validateTargetNamespaces_def InstallModeTypeAllNamespaces_def
        Let_def demo_all_csv_def empty_csv_def promoted_permissions_def service_accounts_def saNameOrDefault_def newServiceAccount_def
        converted_fs_def)
  then show ?thesis
    by (simp add: registry_HandleBundleDeployment_def prefix_error_def plain_HandleBundleDeployment_def ValidateBundle_def chartFromBundle_def
        converted_fs_objects ManifestObjects_def counting_builder_def infosToObjects_def plain_manifest_def object_template_def)
qed

theorem registry_chart_complete_witness:
  "\<exists>chrt v reg. registry_HandleBundleDeployment demo_convert_libs (\<lambda>_. Inr ''y'') (\<lambda>_. [1]) counting_builder demo_registry_fs demo_owner = Ok (chrt, v)
     \<and> bundle_is demo_convert_libs demo_registry_fs reg
     \<and> (''AllNamespaces'', True) \<in> set (csv_InstallModes (rv_CSV reg))"
proof -
  obtain chrt v where run: "registry_HandleBundleDeployment demo_convert_libs (\<lambda>_. Inr ''y'') (\<lambda>_. [1]) counting_builder demo_registry_fs demo_owner = Ok (chrt, v)"
    using demo_registry_handle by blast
  from registry_chart_complete [OF this, of "\<lambda>_. demo_pod JNull"] counting_builder_reads run show ?thesis by blast
qed

text \<open>A loader that stops before the end of the archive leaves the handler waiting for ever.\<close>

lemma helm_early_stop_hangs:
  assumes "EnsureBaseDirFS fsys ''chart'' = Ok chartFS" and "loadValues Marshal ReadValues bd = Ok values"
    and "FSToTarGZ depth (\<lambda>_. None) chartFS = Ok es" and "LoadArchive (Inr es) = (r, False)"
  shows "helm_HandleBundleDeployment depth LoadArchive Validate Marshal ReadValues fsys bd = Diverge"
  using assms by (simp add: helm_HandleBundleDeployment_def getChart_def load_written_def)

text \<open>A Helm bundle: when handling it succeeds, the chart is what the loader made of the archive of a tree with one directory in its
  root, it validated, and the values are those of the configuration's \<open>values\<close> string (none when that is missing or empty).\<close>

theorem helm_chart_loaded:
  assumes "helm_HandleBundleDeployment depth LoadArchive Validate Marshal ReadValues fsys bd = Ok (chrt, values)"
  shows "\<exists>chartFS written. EnsureBaseDirFS fsys ''chart'' = Ok chartFS
     \<and> (\<exists>d. fs_ReadDir chartFS ''.'' = Inr [d] \<and> de_IsDir d)
     \<and> LoadArchive written = (Inr chrt, True) \<and> Validate chrt = None
     \<and> (\<forall>es. written = Inr es \<longrightarrow> FSToTarGZ depth (\<lambda>_. None) chartFS = Ok es)
     \<and> (\<exists>cfg config. Marshal (spec_Config (bd_Spec bd)) = Inr cfg \<and> unmarshal_string_map cfg = Inr config
          \<and> (case values of
               None \<Rightarrow> config ''values'' = None \<or> config ''values'' = Some []
             | Some v \<Rightarrow> (\<exists>str. config ''values'' = Some str \<and> str \<noteq> [] \<and> ReadValues str = Inr v)))"
proof -
  from assms obtain chartFS where ens: "EnsureBaseDirFS fsys ''chart'' = Ok chartFS"
    and vals: "loadValues Marshal ReadValues bd = Ok values" and get: "getChart depth LoadArchive Validate chartFS = Ok chrt"
    by (auto simp: helm_HandleBundleDeployment_def)
  have "\<exists>d. fs_ReadDir chartFS ''.'' = Inr [d] \<and> de_IsDir d"
    using ens by (rule EnsureBaseDirFS_root [rotated]) (simp add: plain_name_def)
  moreover have "\<exists>written. LoadArchive written = (Inr chrt, True) \<and> Validate chrt = None
      \<and> (\<forall>es. written = Inr es \<longrightarrow> FSToTarGZ depth (\<lambda>_. None) chartFS = Ok es)"
    using get by (auto simp: getChart_def load_written_def split: outcome.splits prod.splits if_splits sum.splits option.splits)
  moreover have "\<exists>cfg config. Marshal (spec_Config (bd_Spec bd)) = Inr cfg \<and> unmarshal_string_map cfg = Inr config
      \<and> (case values of None \<Rightarrow> config ''values'' = None \<or> config ''values'' = Some []
          | Some v \<Rightarrow> (\<exists>str. config ''values'' = Some str \<and> str \<noteq> [] \<and> ReadValues str = Inr v))"
    using vals by (auto simp: loadValues_def Let_def case_result_Ok split: if_splits option.splits)
  ultimately show ?thesis using ens by blast
qed

definition demo_loader :: archive_loader where
  "demo_loader written = (case written of Inl e \<Rightarrow> (Inl e, True) | Inr es \<Rightarrow> (Inr \<lparr>ch_Name = ''c'', ch_Templates = []\<rparr>, True))"

definition demo_tree :: fs_FS where
  "demo_tree = MapFS [(''chart/Chart.yaml'', \<lparr>mf_Data = ''name: c'', mf_Type = RegularFile, mf_Perm = 420\<rparr>)]"

theorem helm_chart_loaded_witness:
  "helm_HandleBundleDeployment 4 demo_loader (\<lambda>_. None) Inr (\<lambda>_. Inr JNull) demo_tree demo_owner = Ok (\<lparr>ch_Name = ''c'', ch_Templates = []\<rparr>, None)
   \<and> (\<exists>d. fs_ReadDir demo_tree ''.'' = Inr [d] \<and> de_IsDir d)"
proof -
  have ls: "fs_ReadDir demo_tree ''.'' = Inr [FileInfoToDirEntry (plain_info ''chart'' Directory 365)]" by code_simp
  then have ens: "EnsureBaseDirFS demo_tree ''chart'' = Ok demo_tree"
    by (subst EnsureBaseDirFS_plain) (simp_all add: plain_name_def FileInfoToDirEntry_def plain_info_def)
  have "is_ok (FSToTarGZ 4 (\<lambda>_. None) demo_tree)" by code_simp
  then obtain es where es: "FSToTarGZ 4 (\<lambda>_. None) demo_tree = Ok es" by (cases "FSToTarGZ 4 (\<lambda>_. None) demo_tree") auto
  have run: "helm_HandleBundleDeployment 4 demo_loader (\<lambda>_. None) Inr (\<lambda>_. Inr JNull) demo_tree demo_owner = Ok (\<lparr>ch_Name = ''c'', ch_Templates = []\<rparr>, None)"
    by (simp add: helm_HandleBundleDeployment_def ens getChart_def es load_written_def demo_loader_def loadValues_def demo_owner_def mk_bd_def
        unmarshal_string_map_def)
  from helm_chart_loaded [OF this] run ens show ?thesis by auto
qed

end
