(* ===== verification/Release.thy ===== *)
theory Release
  imports CRD_Validation Provisioners
begin

text \<open>
  The Helm release of a bundle deployment (internal/controllers/bundledeployment/bundledeployment.go): the
  post-renderer that labels every object, the test for a missing resource, and the state of
  the release. Helm's action client, the YAML decoder and the encoder are parameters.
\<close>

section \<open>The post-renderer\<close>

record postrenderer =
  pr_labels :: "string \<rightharpoonup> string"
  pr_cascade :: "(string \<Rightarrow> string outcome) option"

text \<open>The decoder gives the objects of a stream up to its end, or up to an error.\<close>

type_synonym stream_decoder = "string \<Rightarrow> kobject list \<times> gerror option"

definition set_labels :: "(string \<rightharpoonup> string) \<Rightarrow> kobject \<Rightarrow> kobject" where
  "set_labels labels obj = obj\<lparr>ko_Meta := (ko_Meta obj)\<lparr>om_Labels := labels\<rparr>\<rparr>"

definition render_object :: "(kobject \<Rightarrow> string result) \<Rightarrow> postrenderer \<Rightarrow> kobject \<Rightarrow> string outcome" where
  "render_object MarshalJSON p obj = lift_result (MarshalJSON (set_labels (MergeMaps [om_Labels (ko_Meta obj), pr_labels p]) obj))"

definition postrenderer_Run :: "stream_decoder \<Rightarrow> (kobject \<Rightarrow> string result) \<Rightarrow> postrenderer \<Rightarrow> string \<Rightarrow> string outcome" where
  "postrenderer_Run Decode MarshalJSON p renderedManifests =
     (case Decode renderedManifests of
        (objs, err) \<Rightarrow>
          obind (omap (render_object MarshalJSON p) objs) (\<lambda>bs.
            (case err of
               Some e \<Rightarrow> Err e
             | None \<Rightarrow> (case pr_cascade p of Some cascade \<Rightarrow> cascade (concat bs) | None \<Rightarrow> Ok (concat bs)))))"

text \<open>The post-renderer the controller makes for a bundle deployment.\<close>

definition owner_postrenderer :: "BundleDeployment \<Rightarrow> postrenderer" where
  "owner_postrenderer bd =
     \<lparr>pr_labels = [CoreOwnerKindKey \<mapsto> BundleDeploymentKind, CoreOwnerNameKey \<mapsto> bd_Name bd], pr_cascade = None\<rparr>"

section \<open>Missing resources\<close>

lemma err_chain_size: "x \<in> set (err_chain e) \<Longrightarrow> size x \<le> size e"
  by (induction e rule: err_chain.induct) (auto, fastforce dest: size_list_estimation' [OF _ order.refl, where f = size])

lemma aggregate_member_size:
  assumes "errors_As is_aggregate e = Some (Aggregate s (x # xs))"
  shows "size x < size e"
proof -
  have "Aggregate s (x # xs) \<in> set (err_chain e)"
    using assms by (auto simp: errors_As_def find_Some_iff)
  from err_chain_size [OF this] show ?thesis by simp
qed

text \<open>
  The loop over the errors of an aggregate returns in its first turn: only the first error counts, and an aggregate
  without errors falls through to the tests of the aggregate itself.
\<close>

function isResourceNotFoundErr :: "gerror \<Rightarrow> bool" where
  "isResourceNotFoundErr err =
     (case errors_As is_aggregate err of
        Some (Aggregate s (e # es)) \<Rightarrow> isResourceNotFoundErr e
      | _ \<Rightarrow>
          if errors_As is_no_kind_match err \<noteq> None then True
          else if IsNotFound err then True
          else if Contains (Error err) ''no matches for kind'' then True
          else Contains (Error err) ''the server could not find the requested resource'')"
  by pat_completeness auto
termination
  by (relation "measure size") (auto intro: aggregate_member_size)

declare isResourceNotFoundErr.simps [simp del]

definition classify_release_error :: "gerror \<Rightarrow> gerror" where
  "classify_release_error err = (if isResourceNotFoundErr err then RequiredResourceNotFound err else err)"

section \<open>The action client\<close>

text \<open>
  The options the controller passes to an install or upgrade: the functions that set a field of the action, and
  the post-renderer that is appended.
\<close>

datatype action_option = CreateNamespace bool | DryRun bool | AppendPostRenderer postrenderer

record 'w ActionInterface =
  ai_Get :: "string \<Rightarrow> ('w, release) M"
  ai_Install :: "string \<Rightarrow> string \<Rightarrow> chart \<Rightarrow> json option \<Rightarrow> action_option list \<Rightarrow> ('w, release) M"
  ai_Upgrade :: "string \<Rightarrow> string \<Rightarrow> chart \<Rightarrow> json option \<Rightarrow> action_option list \<Rightarrow> ('w, release) M"
  ai_Reconcile :: "release \<Rightarrow> ('w, unit) M"

definition StatusFailed :: string where "StatusFailed = ''failed''"
definition StatusSuperseded :: string where "StatusSuperseded = ''superseded''"

type_synonym releaseState = string

definition stateNeedsInstall :: releaseState where "stateNeedsInstall = ''NeedsInstall''"
definition stateNeedsUpgrade :: releaseState where "stateNeedsUpgrade = ''NeedsUpgrade''"
definition stateUnchanged :: releaseState where "stateUnchanged = ''Unchanged''"
definition stateError :: releaseState where "stateError = ''Error''"

lemma release_states_distinct [simp]:
  "stateNeedsInstall \<noteq> stateNeedsUpgrade" "stateNeedsInstall \<noteq> stateUnchanged" "stateNeedsUpgrade \<noteq> stateUnchanged"
  "stateNeedsUpgrade \<noteq> stateNeedsInstall" "stateUnchanged \<noteq> stateNeedsInstall" "stateUnchanged \<noteq> stateNeedsUpgrade"
  by (simp_all add: stateNeedsInstall_def stateNeedsUpgrade_def stateUnchanged_def)

definition needs_upgrade :: "release \<Rightarrow> release \<Rightarrow> bool" where
  "needs_upgrade currentRelease desiredRelease \<longleftrightarrow>
     rel_Manifest desiredRelease \<noteq> rel_Manifest currentRelease
     \<or> rel_Status currentRelease = StatusFailed \<or> rel_Status currentRelease = StatusSuperseded"

text \<open>The four results: the current release, the desired one, the state and the error.\<close>

type_synonym release_info = "release option \<times> release option \<times> releaseState \<times> gerror option"

definition getReleaseState ::
  "'w ActionInterface \<Rightarrow> BundleDeployment \<Rightarrow> chart \<Rightarrow> json option \<Rightarrow> postrenderer \<Rightarrow> ('w, release_info) M" where
  "getReleaseState cl bd chrt values post w =
     (case ai_Get cl (bd_Name bd) w of
        (Err err, w1) \<Rightarrow>
          if \<not> IsReleaseNotFound err then (Ok (None, None, stateError, Some err), w1)
          else
            (case ai_Install cl (bd_Name bd) (spec_InstallNamespace (bd_Spec bd)) chrt values [DryRun True, AppendPostRenderer post] w1 of
               (Err err, w2) \<Rightarrow> (Ok (None, None, stateError, Some err), w2)
             | (Ok desiredRelease, w2) \<Rightarrow> (Ok (None, Some desiredRelease, stateNeedsInstall, None), w2)
             | (Panic p, w2) \<Rightarrow> (Panic p, w2)
             | (Diverge, w2) \<Rightarrow> (Diverge, w2))
      | (Ok currentRelease, w1) \<Rightarrow>
          (case ai_Upgrade cl (bd_Name bd) (spec_InstallNamespace (bd_Spec bd)) chrt values [DryRun True, AppendPostRenderer post] w1 of
             (Err err, w2) \<Rightarrow> (Ok (Some currentRelease, None, stateError, Some err), w2)
           | (Ok desiredRelease, w2) \<Rightarrow>
               (Ok (Some currentRelease, Some desiredRelease,
                    if needs_upgrade currentRelease desiredRelease then stateNeedsUpgrade else stateUnchanged, None), w2)
           | (Panic p, w2) \<Rightarrow> (Panic p, w2)
           | (Diverge, w2) \<Rightarrow> (Diverge, w2))
      | (Panic p, w1) \<Rightarrow> (Panic p, w1)
      | (Diverge, w1) \<Rightarrow> (Diverge, w1))"

section \<open>Lemmas\<close>

lemma aggregate_first_decides: "isResourceNotFoundErr (Aggregate s (e # es)) = isResourceNotFoundErr e"
  by (subst isResourceNotFoundErr.simps) (simp add: errors_As_def)

text \<open>A missing kind that is not the first error of an aggregate is not recognised.\<close>

lemma later_missing_kind_unrecognised:
  "\<not> isResourceNotFoundErr (Aggregate ''[timeout, no matches for kind Foo]'' [Msg ''timeout'', NoKindMatch ''no matches for kind Foo''])
   \<and> isResourceNotFoundErr (NoKindMatch ''no matches for kind Foo'')"
  unfolding aggregate_first_decides
  by (simp add: isResourceNotFoundErr.simps [of "Msg _"] isResourceNotFoundErr.simps [of "NoKindMatch _"] errors_As_def IsNotFound_def HasPrefix_def)

text \<open>What the tests of one error, and the message of a classified one, come to.\<close>

lemma single_not_found:
  assumes "errors_As is_aggregate err = None"
  shows "isResourceNotFoundErr err \<longleftrightarrow>
     errors_As is_no_kind_match err \<noteq> None \<or> IsNotFound err \<or> Contains (Error err) ''no matches for kind''
     \<or> Contains (Error err) ''the server could not find the requested resource''"
  using assms by (subst isResourceNotFoundErr.simps) simp

text \<open>The labels of a rendered object: its own, with the post-renderer's on top.\<close>

definition labelled :: "postrenderer \<Rightarrow> kobject \<Rightarrow> kobject" where
  "labelled p obj = set_labels (om_Labels (ko_Meta obj) ++ pr_labels p) obj"

lemma postrenderer_Run_Ok:
  assumes "postrenderer_Run Decode MarshalJSON p manifests = Ok out" and "pr_cascade p = None"
  obtains objs bs where "Decode manifests = (objs, None)" "list_all2 (\<lambda>obj b. MarshalJSON (labelled p obj) = Inr b) objs bs" "out = concat bs"
  using assms
  by (auto simp: postrenderer_Run_def omap_Ok_iff render_object_def labelled_def MergeMaps_def split: prod.splits option.splits)

text \<open>What is documented of the decoder and the encoder: encoded objects, one after the other, decode to the objects.\<close>

definition stream_law :: "stream_decoder \<Rightarrow> (kobject \<Rightarrow> string result) \<Rightarrow> bool" where
  "stream_law Decode MarshalJSON \<longleftrightarrow>
     (\<forall>objs bs. list_all2 (\<lambda>obj b. MarshalJSON obj = Inr b) objs bs \<longrightarrow> Decode (concat bs) = (objs, None))"

text \<open>C18. What the post-renderer of a bundle deployment writes decodes to the objects of the rendered manifests, in order, each
  unchanged but for its labels, and each selected by the label selector of the bundle deployment.\<close>

theorem rendered_objects_owned:
  assumes "stream_law Decode MarshalJSON" and "requirement_law NewRequirement"
    and "NewBundleDeploymentLabelSelector NewRequirement bd = Some selector"
    and run: "postrenderer_Run Decode MarshalJSON (owner_postrenderer bd) manifests = Ok out"
  shows "\<exists>objs. Decode manifests = (objs, None) \<and> Decode out = (map (labelled (owner_postrenderer bd)) objs, None) \<and>
     (\<forall>obj\<in>set objs. list_all (\<lambda>r. r (om_Labels (ko_Meta (labelled (owner_postrenderer bd) obj)))) selector)"
proof -
  obtain objs bs where "Decode manifests = (objs, None)"
    and bs: "list_all2 (\<lambda>obj b. MarshalJSON (labelled (owner_postrenderer bd) obj) = Inr b) objs bs" "out = concat bs"
    using run by (rule postrenderer_Run_Ok) (simp add: owner_postrenderer_def)
  moreover have "Decode out = (map (labelled (owner_postrenderer bd)) objs, None)"
    using assms(1) bs by (simp add: stream_law_def list_all2_map1)
  moreover have "list_all (\<lambda>r. r (om_Labels (ko_Meta (labelled (owner_postrenderer bd) obj)))) selector" for obj
    by (simp add: selector_selects_owned [OF assms(2,3)] labelled_def set_labels_def owner_postrenderer_def
        CoreOwnerKindKey_def CoreOwnerNameKey_def)
  ultimately show ?thesis by blast
qed

definition demo_obj :: kobject where
  "demo_obj = \<lparr>ko_GVK = CRD_GVK, ko_Meta = empty_meta ''ns'' ''o'', ko_Status = None, ko_Body = JNull\<rparr>"

definition demo_Marshal :: "kobject \<Rightarrow> string result" where
  "demo_Marshal obj = (if obj = labelled (owner_postrenderer demo_owner) demo_obj then Inr ''x'' else Inl (Msg ''unknown object''))"

definition demo_Decode :: stream_decoder where
  "demo_Decode s = (if s = ''in'' then ([demo_obj], None) else (map (\<lambda>_. labelled (owner_postrenderer demo_owner) demo_obj) s, None))"

lemma demo_stream_law: "stream_law demo_Decode demo_Marshal"
proof -
  have "list_all2 (\<lambda>obj b. demo_Marshal obj = Inr b) objs bs \<Longrightarrow>
      concat bs = replicate (length objs) CHR ''x'' \<and> map (\<lambda>_. labelled (owner_postrenderer demo_owner) demo_obj) (concat bs) = objs" for objs bs
    by (induction objs bs rule: list_all2_induct) (auto simp: demo_Marshal_def split: if_splits)
  moreover have "replicate n CHR ''x'' \<noteq> ''in''" for n
    by (cases n) auto
  ultimately have "list_all2 (\<lambda>obj b. demo_Marshal obj = Inr b) objs bs \<Longrightarrow> demo_Decode (concat bs) = (objs, None)" for objs bs
    unfolding demo_Decode_def by metis
  then show ?thesis
    by (simp add: stream_law_def)
qed

theorem rendered_objects_owned_witness:
  "\<exists>objs out. postrenderer_Run demo_Decode demo_Marshal (owner_postrenderer demo_owner) ''in'' = Ok out \<and>
     demo_Decode out = (map (labelled (owner_postrenderer demo_owner)) objs, None) \<and> demo_Decode ''in'' = (objs, None)"
proof -
  let ?NR = "\<lambda>k v. Inr (\<lambda>labels. labels k = Some v)"
  have "render_object demo_Marshal (owner_postrenderer demo_owner) demo_obj = Ok ''x''"
    by (simp add: render_object_def demo_Marshal_def labelled_def MergeMaps_def)
  then have run: "postrenderer_Run demo_Decode demo_Marshal (owner_postrenderer demo_owner) ''in'' = Ok ''x''"
    by (simp add: postrenderer_Run_def demo_Decode_def owner_postrenderer_def)
  have law: "requirement_law ?NR"
    by (simp add: requirement_law_def)
  have sel: "NewBundleDeploymentLabelSelector ?NR demo_owner
      = Some [\<lambda>labels. labels CoreOwnerKindKey = Some BundleDeploymentKind, \<lambda>labels. labels CoreOwnerNameKey = Some (bd_Name demo_owner)]"
    by (simp add: NewBundleDeploymentLabelSelector_def newLabelSelector_def)
  from rendered_objects_owned [OF demo_stream_law law sel run] run show ?thesis
    by blast
qed

section \<open>The state of the release\<close>

text \<open>
  What is documented of the action client, for a view of the world (the releases and what they installed): reading a
  release and dry runs keep the view.
\<close>

definition release_client :: "('w \<Rightarrow> 'v) \<Rightarrow> 'w ActionInterface \<Rightarrow> bool" where
  "release_client view cl \<longleftrightarrow>
     (\<forall>n w. view (snd (ai_Get cl n w)) = view w) \<and>
     (\<forall>n ns c v opts w. DryRun True \<in> set opts \<longrightarrow>
        view (snd (ai_Install cl n ns c v opts w)) = view w \<and> view (snd (ai_Upgrade cl n ns c v opts w)) = view w)"

lemma release_client_keeps:
  assumes "release_client view cl"
  shows "ai_Get cl n w = (r, w') \<Longrightarrow> view w' = view w"
    and "ai_Install cl n ns c v (DryRun True # opts) w = (r, w') \<Longrightarrow> view w' = view w"
    and "ai_Upgrade cl n ns c v (DryRun True # opts) w = (r, w') \<Longrightarrow> view w' = view w"
  using assms unfolding release_client_def by (metis snd_conv list.set_intros(1))+

lemma getReleaseState_keeps:
  assumes "release_client view cl" and "getReleaseState cl bd chrt values post w = (r, w')"
  shows "view w' = view w"
  using assms(2)
  by (auto simp: getReleaseState_def dest!: release_client_keeps [OF assms(1)] split: prod.splits outcome.splits if_splits)

definition release_ok :: "release_info \<Rightarrow> bool" where
  "release_ok info \<longleftrightarrow>
     (case info of (rel, desired, state, err) \<Rightarrow>
        (err \<noteq> None \<longrightarrow> state = stateError \<and> desired = None) \<and>
        (err = None \<longrightarrow>
           (\<exists>d. desired = Some d \<and>
              (state = stateNeedsInstall \<and> rel = None \<or>
               (\<exists>cur. rel = Some cur \<and> state = (if needs_upgrade cur d then stateNeedsUpgrade else stateUnchanged))))))"

lemma getReleaseState_ok: "getReleaseState cl bd chrt values post w = (Ok info, w') \<Longrightarrow> release_ok info"
  by (auto simp: getReleaseState_def release_ok_def split: prod.splits outcome.splits if_splits)

lemma getReleaseState_no_error: "fst (getReleaseState cl bd chrt values post w) \<noteq> Err e"
  by (auto simp: getReleaseState_def split: prod.splits outcome.splits)

text \<open>C19. The state of a release is read without changing anything: with a client whose reads and dry runs keep a view of the
  world, it keeps the view, and it is \<open>NeedsInstall\<close> exactly when the client knows no release of the name, and
  otherwise \<open>NeedsUpgrade\<close> or \<open>Unchanged\<close> according to the current release and the desired manifest.\<close>

theorem release_state_correct:
  assumes "release_client view cl"
    and run: "getReleaseState cl bd chrt values post w = (Ok (rel, desired, state, None), w')"
  shows "view w' = view w \<and>
     (case ai_Get cl (bd_Name bd) w of
        (Ok cur, w1) \<Rightarrow> rel = Some cur \<and> (\<exists>d. desired = Some d \<and>
            state = (if rel_Manifest d \<noteq> rel_Manifest cur \<or> rel_Status cur \<in> {StatusFailed, StatusSuperseded}
                     then stateNeedsUpgrade else stateUnchanged))
      | (Err e, w1) \<Rightarrow> IsReleaseNotFound e \<and> rel = None \<and> state = stateNeedsInstall \<and> desired \<noteq> None
      | _ \<Rightarrow> False)"
proof
  show "view w' = view w"
    using getReleaseState_keeps [OF assms] .
qed (use run in \<open>auto simp: getReleaseState_def needs_upgrade_def split: prod.splits outcome.splits if_splits\<close>)

text \<open>A client over the installed releases, by name. The manifest of a rendered release is the name of its chart.\<close>

type_synonym helm_world = "string \<rightharpoonup> release"

definition demo_render :: "string \<Rightarrow> chart \<Rightarrow> release" where
  "demo_render n c = \<lparr>rel_Name = n, rel_Manifest = ch_Name c, rel_Status = ''deployed''\<rparr>"

definition demo_put :: "string \<Rightarrow> string \<Rightarrow> chart \<Rightarrow> json option \<Rightarrow> action_option list \<Rightarrow> (helm_world, release) M" where
  "demo_put n ns c v opts w = (Ok (demo_render n c), if DryRun True \<in> set opts then w else w(n \<mapsto> demo_render n c))"

definition demo_client :: "helm_world ActionInterface" where
  "demo_client = \<lparr>ai_Get = (\<lambda>n w. (case w n of None \<Rightarrow> Err (ReleaseNotFound ''release: not found'') | Some r \<Rightarrow> Ok r, w)),
     ai_Install = demo_put, ai_Upgrade = demo_put, ai_Reconcile = (\<lambda>r w. (Ok (), w))\<rparr>"

lemma demo_release_client: "release_client id demo_client"
  by (auto simp: release_client_def demo_client_def demo_put_def)

theorem release_state_correct_witness:
  "\<exists>r. getReleaseState demo_client demo_owner \<lparr>ch_Name = ''c'', ch_Templates = []\<rparr> None (owner_postrenderer demo_owner) Map.empty
      = (Ok (None, Some r, stateNeedsInstall, None), Map.empty)
    \<and> id (Map.empty :: helm_world) = id Map.empty"
proof -
  have run: "getReleaseState demo_client demo_owner \<lparr>ch_Name = ''c'', ch_Templates = []\<rparr> None (owner_postrenderer demo_owner) Map.empty
      = (Ok (None, Some (demo_render (bd_Name demo_owner) \<lparr>ch_Name = ''c'', ch_Templates = []\<rparr>), stateNeedsInstall, None), Map.empty)"
    by (simp add: getReleaseState_def demo_client_def demo_put_def IsReleaseNotFound_def errors_As_def)
  from release_state_correct [OF demo_release_client run] run show ?thesis
    by blast
qed

end
