(* ===== verification/Image_Sources.thy ===== *)
theory Image_Sources
  imports Sources Util
begin

text \<open>
  The two image sources of pkg/source: \<open>ImageRegistry\<close>, which pulls an image and keeps it
  unpacked in a cache directory (image_registry.go), and \<open>Image\<close>, which runs a pod that
  prints the image's content (image.go); and the default mapping of source types to
  sources (unpacker.go). The registry client, the layer archiver and the Kubernetes
  clients are parameters.
\<close>

section \<open>The cache on disk\<close>

text \<open>
  The unpacked directories by path, with the file tree below each, and the faults of the
  moment. \<open>os.RemoveAll\<close> removes a path and everything below it, or, when it fails, what it can: the fault
  says what is left.
\<close>

record cache =
  ca_Dirs :: "string \<rightharpoonup> fs_FS"
  ca_StatFault :: "string \<Rightarrow> string option"
  ca_RemoveFault :: "string \<Rightarrow> (string \<times> (string \<rightharpoonup> fs_FS)) option"
  ca_MkdirFault :: "string \<Rightarrow> string option"

definition empty_tree :: fs_FS where
  "empty_tree = MapFS []"

definition below :: "string \<Rightarrow> string \<Rightarrow> bool" where
  "below root p \<longleftrightarrow> p = root \<or> HasPrefix p (root @ ''/'')"

definition os_Stat_dir :: "cache \<Rightarrow> string \<Rightarrow> unit result" where
  "os_Stat_dir c p =
     (case ca_StatFault c p of
        Some e \<Rightarrow> Inl (Msg e)
      | None \<Rightarrow> (case ca_Dirs c p of None \<Rightarrow> Inl (NotExist (''stat '' @ p @ '': no such file or directory'')) | Some _ \<Rightarrow> Inr ()))"

definition os_RemoveAll :: "string \<Rightarrow> cache \<Rightarrow> gerror option \<times> cache" where
  "os_RemoveAll p c =
     (case ca_RemoveFault c p of
        Some (e, left) \<Rightarrow> (Some (Msg e), c\<lparr>ca_Dirs := (\<lambda>q. if below p q then left q else ca_Dirs c q)\<rparr>)
      | None \<Rightarrow> (None, c\<lparr>ca_Dirs := (\<lambda>q. if below p q then None else ca_Dirs c q)\<rparr>))"

definition os_MkdirAll :: "string \<Rightarrow> cache \<Rightarrow> gerror option \<times> cache" where
  "os_MkdirAll p c =
     (case ca_MkdirFault c p of
        Some e \<Rightarrow> (Some (Msg e), c)
      | None \<Rightarrow> (None, if ca_Dirs c p = None then c\<lparr>ca_Dirs := (ca_Dirs c)(p \<mapsto> empty_tree)\<rparr> else c))"

section \<open>The registry source\<close>

text \<open>A parsed image reference: its digest if it is one, its full text, and the repository's name.\<close>

record image_ref =
  ir_Digest :: "string option"
  ir_String :: string
  ir_Context :: string
  ir_Name :: string

record 'k remote_opts =
  ro_Keychain :: "'k option"
  ro_TLS :: tls_config

text \<open>
  The libraries: parsing a reference, the cluster's key chain, the digest of the image that a reference names when it is asked for (the
  hexadecimal part), the image itself, which is known by its digest, its layers, the TLS configuration of the default transport, applying a layer to a tree under a filter on the headers
  (the tree so far when it fails), the system's certificates and adding PEM certificates.
\<close>

record ('k, 'l) registry_lib =
  rl_ParseReference :: "string \<Rightarrow> image_ref result"
  rl_Keychain :: "string \<Rightarrow> string \<Rightarrow> 'k result"
  rl_Head :: "image_ref \<Rightarrow> 'k remote_opts \<Rightarrow> string result"
  rl_Image :: "image_ref \<Rightarrow> 'k remote_opts \<Rightarrow> string result"
  rl_Layers :: "string \<Rightarrow> 'l list result"
  rl_TLSClientConfig :: "tls_config option"
  rl_Uncompressed :: "'l \<Rightarrow> unit result"
  rl_Apply :: "(tar_entry \<Rightarrow> tar_entry) \<Rightarrow> fs_FS \<Rightarrow> 'l \<Rightarrow> fs_FS result \<times> fs_FS"
  rl_SystemCertPool :: "string list result"
  rl_AppendCerts :: "string list \<Rightarrow> string \<Rightarrow> string list"

record ImageRegistry =
  reg_BaseCachePath :: string
  reg_AuthNamespace :: string

definition owner_filter :: "nat \<Rightarrow> nat \<Rightarrow> tar_entry \<Rightarrow> tar_entry" where
  "owner_filter uid gid th = th\<lparr>te_Uid := uid, te_Gid := gid\<rparr>"

text \<open>The layer loop works on the tree at the unpack path: its error, if any, and the tree it leaves.\<close>

fun apply_layers :: "('k, 'l) registry_lib \<Rightarrow> nat \<Rightarrow> nat \<Rightarrow> 'l list \<Rightarrow> fs_FS \<Rightarrow> gerror option \<times> fs_FS" where
  "apply_layers lib uid gid [] tree = (None, tree)"
| "apply_layers lib uid gid (layer # rest) tree =
     (case rl_Uncompressed lib layer of
        Inl err \<Rightarrow> (Some (Wrap (''error getting uncompressed layer data: '' @ Error err) err), tree)
      | Inr _ \<Rightarrow>
          (case rl_Apply lib (owner_filter uid gid) tree layer of
             (Inl err, tree') \<Rightarrow> (Some (Wrap (''error applying layer to archive: '' @ Error err) err), tree')
           | (Inr tree', _) \<Rightarrow> apply_layers lib uid gid rest tree'))"

definition unpackImage :: "('k, 'l) registry_lib \<Rightarrow> nat \<Rightarrow> nat \<Rightarrow> image_ref \<Rightarrow> 'k remote_opts \<Rightarrow> fs_FS \<Rightarrow> gerror option \<times> fs_FS" where
  "unpackImage lib uid gid imgRef opts tree =
     (case rl_Image lib imgRef opts of
        Inl err \<Rightarrow> (Some (Wrap (''error fetching remote image '' @ fmt_q (ir_Name imgRef) @ '': '' @ Error err) err), tree)
      | Inr img \<Rightarrow>
          (case rl_Layers lib img of
             Inl err \<Rightarrow> (Some (Wrap (''error getting image layers: '' @ Error err) err), tree)
           | Inr layers \<Rightarrow> apply_layers lib uid gid layers tree))"

definition NewUnrecoverable :: "gerror \<Rightarrow> gerror" where
  "NewUnrecoverable err = Unrecoverable err"

declare NewUnrecoverable_def [simp]

definition wrapUnrecoverable :: "gerror \<Rightarrow> bool \<Rightarrow> gerror" where
  "wrapUnrecoverable err isUnrecoverable = (if isUnrecoverable then NewUnrecoverable err else err)"

definition unpackedResult :: "fs_FS \<Rightarrow> ImageSource \<Rightarrow> string \<Rightarrow> Result" where
  "unpackedResult fsys img ref =
     \<lparr>res_Bundle = Some fsys,
      res_ResolvedSource = Some ((empty_source SourceTypeImage)\<lparr>src_Image := Some (img\<lparr>img_Ref := ref\<rparr>)\<rparr>),
      res_State = StateUnpacked, res_Message = []\<rparr>"

definition ImageRegistry_Cleanup :: "ImageRegistry \<Rightarrow> BundleDeployment \<Rightarrow> (cache, unit) M" where
  "ImageRegistry_Cleanup i bundle c =
     (case os_RemoveAll (Join [reg_BaseCachePath i, bd_Name bundle]) c of
        (Some e, c') \<Rightarrow> (Err e, c')
      | (None, c') \<Rightarrow> (Ok (), c'))"

definition registry_tls :: "('k, 'l) registry_lib \<Rightarrow> ImageSource \<Rightarrow> tls_config" where
  "registry_tls lib img =
     (let t0 = (case rl_TLSClientConfig lib of
                  None \<Rightarrow> \<lparr>tls_MinVersion = VersionTLS12, tls_InsecureSkipVerify = False, tls_RootCAs = None\<rparr>
                | Some t \<Rightarrow> t);
          t1 = (if img_InsecureSkipTLSVerify img then t0\<lparr>tls_InsecureSkipVerify := True\<rparr> else t0)
      in if img_CertificateData img \<noteq> []
         then t1\<lparr>tls_RootCAs := Some (rl_AppendCerts lib (case rl_SystemCertPool lib of Inl e \<Rightarrow> [] | Inr pool \<Rightarrow> pool) (img_CertificateData img))\<rparr>
         else t1)"

definition registry_opts :: "('k, 'l) registry_lib \<Rightarrow> ImageRegistry \<Rightarrow> ImageSource \<Rightarrow> 'k remote_opts outcome" where
  "registry_opts lib i img =
     obind (if img_ImagePullSecretName img \<noteq> []
            then (case rl_Keychain lib (img_ImagePullSecretName img) (reg_AuthNamespace i) of
                    Inl err \<Rightarrow> Err (Wrap (''error getting auth keychain: '' @ Error err) err)
                  | Inr chain \<Rightarrow> Ok (Some chain))
            else Ok None)
       (\<lambda>chain. Ok \<lparr>ro_Keychain = chain, ro_TLS = registry_tls lib img\<rparr>)"

text \<open>The path of a digest that is already unpacked.\<close>

definition cached_path :: "ImageRegistry \<Rightarrow> BundleDeployment \<Rightarrow> image_ref \<Rightarrow> cache \<Rightarrow> string option" where
  "cached_path i bundle imgRef c =
     (case ir_Digest imgRef of
        None \<Rightarrow> None
      | Some digest \<Rightarrow>
          (let unpackPath = Join [reg_BaseCachePath i, bd_Name bundle, TrimPrefix digest ''sha256:''] in
           case os_Stat_dir c unpackPath of Inl e \<Rightarrow> None | Inr _ \<Rightarrow> Some unpackPath))"

text \<open>\<open>os.DirFS\<close> on an unpacked directory reads the tree below it.\<close>

definition cache_DirFS :: "cache \<Rightarrow> string \<Rightarrow> fs_FS" where
  "cache_DirFS c p = (case ca_Dirs c p of None \<Rightarrow> empty_tree | Some t \<Rightarrow> t)"

text \<open>Unpacking into a path that does not exist yet: clean up the bundle's directory, make the path,
  unpack, and remove the path again when that fails.\<close>

definition fresh_unpack ::
  "new_aggregate \<Rightarrow> ('k, 'l) registry_lib \<Rightarrow> nat \<Rightarrow> nat \<Rightarrow> ImageRegistry \<Rightarrow> BundleDeployment \<Rightarrow> image_ref \<Rightarrow> 'k remote_opts
   \<Rightarrow> string \<Rightarrow> (cache, unit) M" where
  "fresh_unpack NewAggregate lib uid gid i bundle imgRef opts unpackPath c =
     (case ImageRegistry_Cleanup i bundle c of
        (Err err, c1) \<Rightarrow> (Err (Wrap (''error cleaning up bundle cache: '' @ Error err) err), c1)
      | (Panic p, c1) \<Rightarrow> (Panic p, c1)
      | (Diverge, c1) \<Rightarrow> (Diverge, c1)
      | (Ok _, c1) \<Rightarrow>
          (case os_MkdirAll unpackPath c1 of
             (Some err, c2) \<Rightarrow> (Err (Wrap (''error creating unpack path: '' @ Error err) err), c2)
           | (None, c2) \<Rightarrow>
               (case unpackImage lib uid gid imgRef opts (cache_DirFS c2 unpackPath) of
                  (None, tree) \<Rightarrow> (Ok (), c2\<lparr>ca_Dirs := (ca_Dirs c2)(unpackPath \<mapsto> tree)\<rparr>)
                | (Some err, tree) \<Rightarrow>
                    (case os_RemoveAll unpackPath (c2\<lparr>ca_Dirs := (ca_Dirs c2)(unpackPath \<mapsto> tree)\<rparr>) of
                       (cleanupErr, c4) \<Rightarrow>
                         (let err' = (case cleanupErr of
                                        None \<Rightarrow> err
                                      | Some ce \<Rightarrow>
                                          (case NewAggregate [err, Wrap (''error cleaning up unpack path after unpack failed: '' @ Error ce) ce] of
                                             None \<Rightarrow> err | Some agg \<Rightarrow> agg))
                          in (Err (wrapUnrecoverable (Wrap (''error unpacking image: '' @ Error err') err') (ir_Digest imgRef \<noteq> None)), c4))))))"

definition pull_image ::
  "new_aggregate \<Rightarrow> ('k, 'l) registry_lib \<Rightarrow> nat \<Rightarrow> nat \<Rightarrow> ImageRegistry \<Rightarrow> BundleDeployment \<Rightarrow> ImageSource \<Rightarrow> image_ref
   \<Rightarrow> 'k remote_opts \<Rightarrow> (cache, Result) M" where
  "pull_image NewAggregate lib uid gid i bundle img imgRef opts c =
     (case rl_Head lib imgRef opts of
        Inl err \<Rightarrow> (Err (Wrap (''error fetching image descriptor: '' @ Error err) err), c)
      | Inr hex \<Rightarrow>
          (let unpackPath = Join [reg_BaseCachePath i, bd_Name bundle, hex];
               resolvedRef = ir_Context imgRef @ ''@sha256:'' @ hex
           in case os_Stat_dir c unpackPath of
                Inr _ \<Rightarrow> (Ok (unpackedResult (cache_DirFS c unpackPath) img resolvedRef), c)
              | Inl err \<Rightarrow>
                  (if IsNotExist err then
                     (case fresh_unpack NewAggregate lib uid gid i bundle imgRef opts unpackPath c of
                        (r, c') \<Rightarrow> (obind r (\<lambda>_. Ok (unpackedResult (cache_DirFS c' unpackPath) img resolvedRef)), c'))
                   else (Err (Wrap (''error checking if image is in filesystem cache: '' @ Error err) err), c))))"

definition ImageRegistry_Unpack ::
  "new_aggregate \<Rightarrow> ('k, 'l) registry_lib \<Rightarrow> nat \<Rightarrow> nat \<Rightarrow> ImageRegistry \<Rightarrow> BundleDeployment \<Rightarrow> (cache, Result) M" where
  "ImageRegistry_Unpack NewAggregate lib uid gid i bundle c =
     (if src_Type (bd_Source bundle) \<noteq> SourceTypeImage
      then (Panic (''programmer error: source type '' @ fmt_q SourceTypeImage
                   @ '' is unable to handle specified bundle source type '' @ fmt_q (src_Type (bd_Source bundle))), c)
      else
        (case src_Image (bd_Source bundle) of
           None \<Rightarrow> (Err (NewUnrecoverable (Msg (''error parsing bundle, bundle '' @ bd_Name bundle @ '' has a nil image source''))), c)
         | Some img \<Rightarrow>
             (case rl_ParseReference lib (img_Ref img) of
                Inl err \<Rightarrow> (Err (NewUnrecoverable (Wrap (''error parsing image reference: '' @ Error err) err)), c)
              | Inr imgRef \<Rightarrow>
                  (case registry_opts lib i img of
                     Ok opts \<Rightarrow>
                       (case cached_path i bundle imgRef c of
                          Some unpackPath \<Rightarrow> (Ok (unpackedResult (cache_DirFS c unpackPath) img (ir_String imgRef)), c)
                        | None \<Rightarrow> pull_image NewAggregate lib uid gid i bundle img imgRef opts c)
                   | Err e \<Rightarrow> (Err e, c)
                   | Panic p \<Rightarrow> (Panic p, c)
                   | Diverge \<Rightarrow> (Diverge, c)))))"

section \<open>Lemmas on the registry source\<close>

lemma path_base_Join3:
  assumes "root \<noteq> []" and "plain_name hex"
  shows "path_base (Join [root, n, hex]) = hex"
proof -
  have "Join [root, n, hex] = Join [root @ ''/'' @ n, hex]" using assms(1) by simp
  then show ?thesis using path_base_Join [OF assms(2)] by metis
qed

text \<open>
  What is documented of a registry: images are addressed by content. \<open>content\<close> is the tree of
  the image with a digest; the layers of an image, applied one after the other to an empty
  directory, give the tree of its digest; a reference by digest names the image with that digest; the
  hexadecimal part of a digest is a plain file name. A tag may name another image each time it is asked for.
\<close>

definition registry_law :: "('k, 'l) registry_lib \<Rightarrow> nat \<Rightarrow> nat \<Rightarrow> (string \<Rightarrow> fs_FS) \<Rightarrow> bool" where
  "registry_law lib uid gid content \<longleftrightarrow>
     (\<forall>ref opts hex. rl_Head lib ref opts = Inr hex \<longrightarrow> plain_name hex)
     \<and> (\<forall>hex layers tree. rl_Layers lib hex = Inr layers \<and> apply_layers lib uid gid layers empty_tree = (None, tree) \<longrightarrow> tree = content hex)
     \<and> (\<forall>s ref d. rl_ParseReference lib s = Inr ref \<and> ir_Digest ref = Some d
          \<longrightarrow> plain_name (TrimPrefix d ''sha256:'') \<and> ir_String ref = ir_Context ref @ ''@sha256:'' @ TrimPrefix d ''sha256:''
            \<and> (\<forall>opts hex. rl_Head lib ref opts = Inr hex \<or> rl_Image lib ref opts = Inr hex \<longrightarrow> hex = TrimPrefix d ''sha256:''))"

text \<open>Every directory of the cache holds the whole tree of the image it is named after.\<close>

definition cache_ok :: "(string \<Rightarrow> fs_FS) \<Rightarrow> cache \<Rightarrow> bool" where
  "cache_ok content c \<longleftrightarrow> (\<forall>p t. ca_Dirs c p = Some t \<longrightarrow> t = content (path_base p))"

lemma cache_ok_subset: "cache_ok content c \<Longrightarrow> ca_Dirs c' \<subseteq>\<^sub>m ca_Dirs c \<Longrightarrow> cache_ok content c'"
  by (auto simp: cache_ok_def map_le_def dom_def)

lemma cache_ok_DirFS: "cache_ok content c \<Longrightarrow> ca_Dirs c p = Some t \<Longrightarrow> cache_DirFS c p = content (path_base p)"
  by (auto simp: cache_ok_def cache_DirFS_def)

text \<open>What can go wrong: a removal of the bundle's directory or of the image's fails, or a tag names another image when the layers are fetched than when its digest was.\<close>

definition removal_failed :: "ImageRegistry \<Rightarrow> BundleDeployment \<Rightarrow> cache \<Rightarrow> string \<Rightarrow> bool" where
  "removal_failed i b c p \<longleftrightarrow>
     (\<exists>q. (q = Join [reg_BaseCachePath i, bd_Name b] \<or> (\<exists>hex. q = Join [reg_BaseCachePath i, bd_Name b, hex])) \<and> ca_RemoveFault c q \<noteq> None \<and> below q p)"

definition tag_moved :: "('k, 'l) registry_lib \<Rightarrow> image_ref \<Rightarrow> 'k remote_opts \<Rightarrow> string \<Rightarrow> string \<Rightarrow> bool" where
  "tag_moved lib ref opts hex hex' \<longleftrightarrow> ir_Digest ref = None \<and> rl_Head lib ref opts = Inr hex \<and> rl_Image lib ref opts = Inr hex' \<and> hex' \<noteq> hex"

lemma removal_failedI:
  "ca_RemoveFault c (Join [reg_BaseCachePath i, bd_Name b]) \<noteq> None \<Longrightarrow> below (Join [reg_BaseCachePath i, bd_Name b]) p \<Longrightarrow> removal_failed i b c p"
  "ca_RemoveFault c (Join [reg_BaseCachePath i, bd_Name b, hex]) \<noteq> None \<Longrightarrow> below (Join [reg_BaseCachePath i, bd_Name b, hex]) p \<Longrightarrow> removal_failed i b c p"
  unfolding removal_failed_def by blast+

lemma RemoveAll_dirs:
  assumes "os_RemoveAll q c = (e, c')" and "ca_Dirs c' p = Some t"
  shows "ca_Dirs c p = Some t \<and> \<not> below q p \<or> ca_RemoveFault c q \<noteq> None \<and> below q p"
  using assms by (auto simp: os_RemoveAll_def split: option.splits if_splits)

lemma Cleanup_dirs:
  assumes "ImageRegistry_Cleanup i b c = (r, c')"
  shows "ca_RemoveFault c' = ca_RemoveFault c"
    and "r = Ok () \<Longrightarrow> ca_Dirs c' = (\<lambda>q. if below (Join [reg_BaseCachePath i, bd_Name b]) q then None else ca_Dirs c q)"
    and "r \<noteq> Ok () \<Longrightarrow> \<exists>e. r = Err e" and "r \<noteq> Ok () \<Longrightarrow> ca_Dirs c' p = Some t \<Longrightarrow> ca_Dirs c p = Some t \<or> removal_failed i b c p"
  using assms removal_failedI(1) [of c i b p]
  by (auto simp: ImageRegistry_Cleanup_def os_RemoveAll_def simp del: Join.simps split: option.splits if_splits)

lemma Stat_dir_cases:
  "os_Stat_dir c p = Inr u \<Longrightarrow> ca_Dirs c p \<noteq> None"
  "os_Stat_dir c p = Inl e \<Longrightarrow> IsNotExist e \<Longrightarrow> ca_Dirs c p = None"
  by (auto simp: os_Stat_dir_def go_simps split: option.splits)

lemma unpackImage_content:
  assumes "registry_law lib uid gid content" and "rl_Head lib ref opts = Inr hex" and parsed: "rl_ParseReference lib txt = Inr ref"
    and "unpackImage lib uid gid ref opts empty_tree = (None, tree)"
  shows "\<exists>hex'. tree = content hex' \<and> (hex' = hex \<or> tag_moved lib ref opts hex hex')"
proof -
  obtain hex' where img: "rl_Image lib ref opts = Inr hex'" and "tree = content hex'"
    using assms unfolding registry_law_def unpackImage_def by (auto split: sum.splits)
  moreover have "hex' = hex" if "ir_Digest ref = Some d" for d
    using assms(1,2) parsed img that unfolding registry_law_def by metis
  ultimately show ?thesis
    using assms(2) by (cases "ir_Digest ref") (auto simp: tag_moved_def)
qed

text \<open>The cases of a fresh unpack, with the path not there.\<close>

lemma fresh_unpack_cases:
  assumes "ca_Dirs c path = None" and path: "path = Join [reg_BaseCachePath i, bd_Name b, hex]"
    and run: "fresh_unpack NA lib uid gid i b ref opts path c = (r, c')"
  obtains (failed) e where "r = Err e" "\<And>p t. ca_Dirs c' p = Some t \<Longrightarrow> ca_Dirs c p = Some t \<or> removal_failed i b c p"
    | (pulled) tree where "r = Ok ()" "unpackImage lib uid gid ref opts empty_tree = (None, tree)"
        "ca_Dirs c' = (\<lambda>q. if below (Join [reg_BaseCachePath i, bd_Name b]) q then None else ca_Dirs c q)(path \<mapsto> tree)"
proof -
  obtain r1 c1 where cl: "ImageRegistry_Cleanup i b c = (r1, c1)" by fastforce
  note dirs = Cleanup_dirs [OF cl]
  show ?thesis
  proof (cases "r1 = Ok ()")
    case False
    then obtain e where "r1 = Err e" using dirs(3) by blast
    with run cl dirs(4) [OF False] failed show ?thesis by (auto simp: fresh_unpack_def)
  next
    case True
    note c1 = dirs(2) [OF True]
    have keep: "ca_Dirs c p = Some t" if "ca_Dirs c1 p = Some t" for p t using that by (simp add: c1 split: if_splits)
    have none: "ca_Dirs c1 path = None" using assms(1) by (simp add: c1)
    show ?thesis
    proof (cases "ca_MkdirFault c1 path")
      case (Some e)
      with run cl True keep failed show ?thesis by (auto simp: fresh_unpack_def os_MkdirAll_def)
    next
      case None
      obtain err tree where up: "unpackImage lib uid gid ref opts empty_tree = (err, tree)" by fastforce
      let ?c2 = "c1\<lparr>ca_Dirs := (ca_Dirs c1)(path \<mapsto> tree)\<rparr>"
      show ?thesis
      proof (cases err)
        case n: None
        from run cl True None none up n have "r = Ok ()" "ca_Dirs c' = (ca_Dirs c1)(path \<mapsto> tree)"
          by (auto simp: fresh_unpack_def os_MkdirAll_def cache_DirFS_def)
        with pulled up n c1 show ?thesis by simp
      next
        case (Some e)
        obtain ce c4 where rm: "os_RemoveAll path ?c2 = (ce, c4)" by fastforce
        have c': "\<exists>e'. r = Err e'" "c' = c4"
          using run cl True None none up Some rm by (auto simp: fresh_unpack_def os_MkdirAll_def cache_DirFS_def Let_def split: prod.splits)
        have "ca_Dirs c p = Some t \<or> removal_failed i b c p" if "ca_Dirs c4 p = Some t" for p t
          using RemoveAll_dirs [OF rm that] keep [of p t] dirs(1) removal_failedI(2) [of c i b hex p]
          by (auto simp: below_def path simp del: Join.simps split: if_splits)
        with c' failed show ?thesis by blast
      qed
    qed
  qed
qed

lemma registry_opts_no_panic: "registry_opts lib i img \<noteq> Panic p" "registry_opts lib i img \<noteq> Diverge"
  by (auto simp: registry_opts_def split: sum.splits)

lemma cached_path_Some:
  "cached_path i b ref c = Some path \<Longrightarrow>
     \<exists>d t. ir_Digest ref = Some d \<and> path = Join [reg_BaseCachePath i, bd_Name b, TrimPrefix d ''sha256:''] \<and> ca_Dirs c path = Some t"
  by (auto simp: cached_path_def Let_def simp del: Join.simps dest!: Stat_dir_cases(1) split: option.splits sum.splits)

text \<open>What the directories of a cache hold, and what a result is.\<close>

definition dirs_sound :: "(string \<Rightarrow> fs_FS) \<Rightarrow> ('k, 'l) registry_lib \<Rightarrow> ImageRegistry \<Rightarrow> BundleDeployment \<Rightarrow> cache \<Rightarrow> Result outcome \<Rightarrow> cache \<Rightarrow> bool" where
  "dirs_sound content lib i b c res c' \<longleftrightarrow>
     (\<forall>p t. ca_Dirs c' p = Some t \<longrightarrow>
        t = content (path_base p) \<or> (\<exists>e. res = Err e) \<and> removal_failed i b c p \<or>
        (\<exists>ref opts hex hex'. tag_moved lib ref opts hex hex' \<and> p = Join [reg_BaseCachePath i, bd_Name b, hex] \<and> t = content hex'))"

definition result_sound :: "(string \<Rightarrow> fs_FS) \<Rightarrow> ('k, 'l) registry_lib \<Rightarrow> ImageSource \<Rightarrow> image_ref \<Rightarrow> Result \<Rightarrow> bool" where
  "result_sound content lib img ref r \<longleftrightarrow>
     (\<exists>opts hex hex'. r = unpackedResult (content hex') img (ir_Context ref @ ''@sha256:'' @ hex) \<and> (hex' = hex \<or> tag_moved lib ref opts hex hex'))"

lemma dirs_sound_same: "cache_ok content c \<Longrightarrow> dirs_sound content lib i b c res c"
  by (auto simp: dirs_sound_def cache_ok_def)

lemma pull_image_correct:
  assumes law: "registry_law lib uid gid content" and base: "reg_BaseCachePath i \<noteq> []" and ok: "cache_ok content c"
    and parsed: "rl_ParseReference lib txt = Inr ref" and run: "pull_image NA lib uid gid i b img ref opts c = (res, c')"
  shows "dirs_sound content lib i b c res c' \<and> (\<forall>r. res = Ok r \<longrightarrow> result_sound content lib img ref r)"
proof (cases "rl_Head lib ref opts")
  case (Inl e)
  with run ok show ?thesis by (auto simp: pull_image_def dirs_sound_same)
next
  case (Inr hex)
  define path where "path = Join [reg_BaseCachePath i, bd_Name b, hex]"
  have "plain_name hex" using law Inr unfolding registry_law_def by blast
  then have pb: "path_base path = hex" unfolding path_def by (rule path_base_Join3 [OF base])
  show ?thesis
  proof (cases "os_Stat_dir c path")
    case stat: (Inr u)
    with Stat_dir_cases(1) obtain t where "ca_Dirs c path = Some t" by blast
    with cache_ok_DirFS [OF ok] pb have "cache_DirFS c path = content hex" by simp
    with run Inr stat ok show ?thesis
      by (auto simp: pull_image_def Let_def dirs_sound_same result_sound_def simp del: Join.simps simp flip: path_def)
  next
    case stat: (Inl e)
    show ?thesis
    proof (cases "IsNotExist e")
      case False
      with run Inr stat ok show ?thesis
        by (auto simp: pull_image_def Let_def dirs_sound_same simp del: Join.simps simp flip: path_def)
    next
      case True
      obtain r c1 where fr: "fresh_unpack NA lib uid gid i b ref opts path c = (r, c1)" by fastforce
      with run Inr stat True have res: "res = obind r (\<lambda>_. Ok (unpackedResult (cache_DirFS c1 path) img (ir_Context ref @ ''@sha256:'' @ hex)))"
        and c': "c' = c1"
        by (auto simp: pull_image_def Let_def simp del: Join.simps simp flip: path_def)
      from Stat_dir_cases(2) [OF stat True] path_def fr show ?thesis
      proof (cases rule: fresh_unpack_cases)
        case (failed e)
        with res c' ok show ?thesis by (fastforce simp: dirs_sound_def cache_ok_def)
      next
        case (pulled tree)
        obtain hex' where t: "tree = content hex'" "hex' = hex \<or> tag_moved lib ref opts hex hex'"
          using unpackImage_content [OF law Inr parsed pulled(2)] by blast
        have "dirs_sound content lib i b c res c1"
          unfolding dirs_sound_def
        proof (intro allI impI)
          fix p t' assume "ca_Dirs c1 p = Some t'"
          with pulled(3) have "p = path \<and> t' = tree \<or> ca_Dirs c p = Some t'" by (auto split: if_splits)
          then show "t' = content (path_base p) \<or> (\<exists>e. res = Err e) \<and> removal_failed i b c p \<or>
              (\<exists>ref opts hex hex'. tag_moved lib ref opts hex hex' \<and> p = Join [reg_BaseCachePath i, bd_Name b, hex] \<and> t' = content hex')"
            using t pb ok unfolding path_def [symmetric] cache_ok_def by (metis path_def)
        qed
        moreover have "cache_DirFS c1 path = content hex'" using pulled(3) t(1) by (simp add: cache_DirFS_def)
        ultimately show ?thesis using pulled(1) t(2) res c' by (auto simp: result_sound_def)
      qed
    qed
  qed
qed

section \<open>Properties of the registry source\<close>

text \<open>C26. The image cache. From a cache whose directories hold the whole images they are named after, and whatever the registry and the disk do, unpacking leaves such a cache but for two
  cases: when it ends in an error, what a failed removal left of the bundle's directories; and when a tag came to name another image between the request for its digest and
  the request for the image, the directory of the first digest, which holds the second image. A result is the whole tree of the image that the resolved reference
  names by digest, but for the same case of a tag.\<close>

theorem image_cache_correct:
  assumes "registry_law lib uid gid content" and "reg_BaseCachePath i \<noteq> []" and "cache_ok content c"
    and "ImageRegistry_Unpack NA lib uid gid i bd c = (res, c')"
  shows "(\<forall>p t. ca_Dirs c' p = Some t \<longrightarrow>
            t = content (path_base p) \<or> (\<exists>e. res = Err e) \<and> removal_failed i bd c p \<or>
            (\<exists>ref opts hex hex'. tag_moved lib ref opts hex hex' \<and> p = Join [reg_BaseCachePath i, bd_Name bd, hex] \<and> t = content hex')) \<and>
         (\<forall>r. res = Ok r \<longrightarrow>
            (\<exists>img ref opts hex hex' src. src_Image (bd_Source bd) = Some img \<and> rl_ParseReference lib (img_Ref img) = Inr ref
              \<and> res_State r = StateUnpacked \<and> res_Bundle r = Some (content hex') \<and> (hex' = hex \<or> tag_moved lib ref opts hex hex')
              \<and> res_ResolvedSource r = Some src \<and> src_Image src = Some (img\<lparr>img_Ref := ir_Context ref @ ''@sha256:'' @ hex\<rparr>)))"
proof -
  have "dirs_sound content lib i bd c res c' \<and>
      (\<forall>r. res = Ok r \<longrightarrow> (\<exists>img ref. src_Image (bd_Source bd) = Some img \<and> rl_ParseReference lib (img_Ref img) = Inr ref \<and> result_sound content lib img ref r))"
  proof (cases "src_Type (bd_Source bd) = SourceTypeImage \<and> (\<exists>img ref opts. src_Image (bd_Source bd) = Some img \<and>
      rl_ParseReference lib (img_Ref img) = Inr ref \<and> registry_opts lib i img = Ok opts)")
    case True
    then obtain img ref opts where ref: "src_Type (bd_Source bd) = SourceTypeImage" "src_Image (bd_Source bd) = Some img"
      "rl_ParseReference lib (img_Ref img) = Inr ref" "registry_opts lib i img = Ok opts" by blast
    show ?thesis
    proof (cases "cached_path i bd ref c")
      case None
      with assms(4) ref have "pull_image NA lib uid gid i bd img ref opts c = (res, c')"
        by (simp add: ImageRegistry_Unpack_def)
      from pull_image_correct [OF assms(1-3) ref(3) this] ref show ?thesis by auto
    next
      case (Some path)
      from cached_path_Some [OF this] obtain d t where d: "ir_Digest ref = Some d" and t: "ca_Dirs c path = Some t"
        and path: "path = Join [reg_BaseCachePath i, bd_Name bd, TrimPrefix d ''sha256:'']" by blast
      from assms(1) ref d have hex: "plain_name (TrimPrefix d ''sha256:'')"
        and str: "ir_String ref = ir_Context ref @ ''@sha256:'' @ TrimPrefix d ''sha256:''"
        unfolding registry_law_def by blast+
      from path_base_Join3 [OF assms(2) hex] cache_ok_DirFS [OF assms(3) t] path
      have "cache_DirFS c path = content (TrimPrefix d ''sha256:'')" by (simp del: Join.simps)
      with Some assms(3,4) ref str show ?thesis by (auto simp: ImageRegistry_Unpack_def dirs_sound_same result_sound_def)
    qed
  next
    case False
    then have "c' = c \<and> (\<nexists>r. res = Ok r)"
      using assms(4) by (auto simp: ImageRegistry_Unpack_def split: if_splits option.splits sum.splits outcome.splits)
    then show ?thesis using dirs_sound_same [OF assms(3)] by auto
  qed
  then show ?thesis
    unfolding dirs_sound_def result_sound_def by (fastforce simp: unpackedResult_def)
qed

definition demo_registry :: "(unit, string) registry_lib" where
  "demo_registry = \<lparr>rl_ParseReference = (\<lambda>s. Inr \<lparr>ir_Digest = None, ir_String = s, ir_Context = ''h/r'', ir_Name = s\<rparr>),
     rl_Keychain = (\<lambda>_ _. Inr ()), rl_Head = (\<lambda>_ _. Inr ''d1''), rl_Image = (\<lambda>_ _. Inr ''d1''), rl_Layers = (\<lambda>_. Inr [''l'']), rl_TLSClientConfig = None,
     rl_Uncompressed = (\<lambda>_. Inr ()), rl_Apply = (\<lambda>_ _ _. (Inr demo_fs, demo_fs)), rl_SystemCertPool = Inr [], rl_AppendCerts = (\<lambda>p c. p @ [c])\<rparr>"

definition demo_cache :: cache where
  "demo_cache = \<lparr>ca_Dirs = Map.empty, ca_StatFault = (\<lambda>_. None), ca_RemoveFault = (\<lambda>_. None), ca_MkdirFault = (\<lambda>_. None)\<rparr>"

definition demo_image_bd :: BundleDeployment where
  "demo_image_bd = mk_bd ''b'' ''plain'' ((empty_source SourceTypeImage)\<lparr>src_Image :=
     Some \<lparr>img_Ref = ''h/r:v1'', img_ImagePullSecretName = [], img_InsecureSkipTLSVerify = False, img_CertificateData = []\<rparr>\<rparr>)"

lemma demo_registry_law: "registry_law demo_registry 0 0 (\<lambda>_. demo_fs)"
  by (auto simp: registry_law_def demo_registry_def plain_name_def)

lemma demo_image_pull:
  "\<exists>r c'. ImageRegistry_Unpack plain_aggregate demo_registry 0 0 \<lparr>reg_BaseCachePath = ''/c'', reg_AuthNamespace = ''sys''\<rparr> demo_image_bd demo_cache = (Ok r, c')"
  by (simp add: ImageRegistry_Unpack_def demo_image_bd_def mk_bd_def empty_source_def demo_registry_def registry_opts_def
      cached_path_def pull_image_def Let_def os_Stat_dir_def demo_cache_def go_simps fresh_unpack_def ImageRegistry_Cleanup_def
      os_RemoveAll_def os_MkdirAll_def unpackImage_def empty_meta_def del: Join.simps)

theorem image_cache_correct_witness:
  "\<exists>r c'. ImageRegistry_Unpack plain_aggregate demo_registry 0 0 \<lparr>reg_BaseCachePath = ''/c'', reg_AuthNamespace = ''sys''\<rparr> demo_image_bd demo_cache = (Ok r, c')
     \<and> cache_ok (\<lambda>_. demo_fs) c' \<and> res_Bundle r = Some demo_fs"
proof -
  let ?i = "\<lparr>reg_BaseCachePath = ''/c'', reg_AuthNamespace = ''sys''\<rparr>"
  obtain r c' where run: "ImageRegistry_Unpack plain_aggregate demo_registry 0 0 ?i demo_image_bd demo_cache = (Ok r, c')"
    using demo_image_pull by blast
  have start: "reg_BaseCachePath ?i \<noteq> []" "cache_ok (\<lambda>_. demo_fs) demo_cache" by (simp_all add: cache_ok_def demo_cache_def)
  have "\<not> tag_moved demo_registry ref opts hex hex'" for ref opts hex hex'
    by (auto simp: tag_moved_def demo_registry_def)
  then show ?thesis
    using run image_cache_correct [OF demo_registry_law start run] by (auto simp: cache_ok_def)
qed

text \<open>
  The two cases are real. When unpacking and then the removal of what was unpacked fail, the part that is left is taken for the image by the next request; and a tag that moves
  between the two requests leaves the wrong image under the right digest.
\<close>

definition spoiled_cache :: cache where
  "spoiled_cache = demo_cache\<lparr>ca_RemoveFault := (\<lambda>p. if p = ''/c/b/d1'' then Some (''busy'', [''/c/b/d1'' \<mapsto> empty_tree]) else None)\<rparr>"

lemma partial_image_served:
  "\<exists>e c' r. ImageRegistry_Unpack plain_aggregate (demo_registry\<lparr>rl_Uncompressed := (\<lambda>_. Inl (Msg ''cut''))\<rparr>) 0 0
       \<lparr>reg_BaseCachePath = ''/c'', reg_AuthNamespace = ''sys''\<rparr> demo_image_bd spoiled_cache = (Err e, c')
     \<and> ImageRegistry_Unpack plain_aggregate demo_registry 0 0 \<lparr>reg_BaseCachePath = ''/c'', reg_AuthNamespace = ''sys''\<rparr> demo_image_bd c' = (Ok r, c')
     \<and> res_Bundle r = Some empty_tree"
proof -
  have paths: "Join [''/c'', ''b'', ''d1''] = ''/c/b/d1''" "Join [''/c'', ''b''] = ''/c/b''" "below ''/c/b/d1'' ''/c/b/d1''"
    by code_simp+
  show ?thesis
    by (simp add: ImageRegistry_Unpack_def demo_image_bd_def mk_bd_def empty_source_def demo_registry_def registry_opts_def
      cached_path_def pull_image_def Let_def os_Stat_dir_def spoiled_cache_def demo_cache_def go_simps fresh_unpack_def ImageRegistry_Cleanup_def
      os_RemoveAll_def os_MkdirAll_def unpackImage_def empty_meta_def paths cache_DirFS_def unpackedResult_def plain_aggregate_def del: Join.simps)
qed

lemma moved_tag_served:
  "\<exists>r c'. ImageRegistry_Unpack plain_aggregate (demo_registry\<lparr>rl_Image := (\<lambda>_ _. Inr ''d2''), rl_Apply := (\<lambda>_ _ _. (Inr demo_base_fs, demo_base_fs))\<rparr>) 0 0
       \<lparr>reg_BaseCachePath = ''/c'', reg_AuthNamespace = ''sys''\<rparr> demo_image_bd demo_cache = (Ok r, c')
     \<and> ca_Dirs c' ''/c/b/d1'' = Some demo_base_fs"
proof -
  have paths: "Join [''/c'', ''b'', ''d1''] = ''/c/b/d1''" by code_simp
  show ?thesis
    by (simp add: ImageRegistry_Unpack_def demo_image_bd_def mk_bd_def empty_source_def demo_registry_def registry_opts_def
      cached_path_def pull_image_def Let_def os_Stat_dir_def demo_cache_def go_simps fresh_unpack_def ImageRegistry_Cleanup_def
      os_RemoveAll_def os_MkdirAll_def unpackImage_def empty_meta_def paths del: Join.simps)
qed

text \<open>A pull leaves one image of the bundle in the cache: after an unpack that changed the cache, the bundle's
  directory holds nothing but the image just unpacked.\<close>

theorem pull_keeps_one_image:
  assumes "ImageRegistry_Unpack NA lib uid gid i bd c = (Ok r, c')" and "c' \<noteq> c"
  shows "\<exists>path. ca_Dirs c' path \<noteq> None
           \<and> (\<forall>q. below (Join [reg_BaseCachePath i, bd_Name bd]) q \<and> q \<noteq> path \<longrightarrow> ca_Dirs c' q = None)"
proof -
  from assms(1,2) obtain img ref opts where "pull_image NA lib uid gid i bd img ref opts c = (Ok r, c')"
    by (auto simp: ImageRegistry_Unpack_def split: if_splits option.splits sum.splits outcome.splits)
  with assms(2) obtain path hex e u where path: "path = Join [reg_BaseCachePath i, bd_Name bd, hex]" and stat: "os_Stat_dir c path = Inl e" "IsNotExist e"
    and fr: "fresh_unpack NA lib uid gid i bd ref opts path c = (Ok u, c')"
    by (auto simp: pull_image_def Let_def simp del: Join.simps split: sum.splits if_splits prod.splits)
  from Stat_dir_cases(2) [OF stat] path fr show ?thesis
  proof (cases rule: fresh_unpack_cases)
    case (pulled tree)
    then show ?thesis by (intro exI [of _ path]) (auto simp del: Join.simps)
  qed simp
qed

theorem pull_keeps_one_image_witness:
  "\<exists>r c' path. ImageRegistry_Unpack plain_aggregate demo_registry 0 0 \<lparr>reg_BaseCachePath = ''/c'', reg_AuthNamespace = ''sys''\<rparr> demo_image_bd demo_cache = (Ok r, c')
     \<and> ca_Dirs c' path \<noteq> None"
proof -
  obtain r c' where run: "ImageRegistry_Unpack plain_aggregate demo_registry 0 0 \<lparr>reg_BaseCachePath = ''/c'', reg_AuthNamespace = ''sys''\<rparr> demo_image_bd demo_cache = (Ok r, c')"
    using demo_image_pull by blast
  then have "ca_Dirs c' \<noteq> Map.empty"
    by (auto simp: ImageRegistry_Unpack_def demo_image_bd_def mk_bd_def empty_source_def demo_registry_def registry_opts_def
      cached_path_def pull_image_def Let_def os_Stat_dir_def demo_cache_def go_simps fresh_unpack_def ImageRegistry_Cleanup_def
      os_RemoveAll_def os_MkdirAll_def unpackImage_def empty_meta_def simp del: Join.simps)
  then have "c' \<noteq> demo_cache" by (auto simp: demo_cache_def)
  from pull_keeps_one_image [OF run this] run show ?thesis by (auto simp: demo_cache_def)
qed

section \<open>The pod source\<close>

record SecurityContext =
  sc_AllowPrivilegeEscalation :: bool
  sc_Drop :: "string list"
  sc_RunAsUser :: "nat option"

record Container =
  c_Name :: string
  c_Image :: string
  c_ImagePullPolicy :: string
  c_Command :: "string list"
  c_VolumeMounts :: "(string \<times> string) list"
  c_Env :: "(string \<times> string) list"
  c_SecurityContext :: SecurityContext
  c_TerminationMessagePolicy :: string

record PodSpec =
  pod_AutomountServiceAccountToken :: bool
  pod_RestartPolicy :: string
  pod_InitContainers :: "Container list"
  pod_Containers :: "Container list"
  pod_EmptyDirVolumes :: "string list"
  pod_RunAsNonRoot :: bool
  pod_SeccompProfile :: string
  pod_ImagePullSecrets :: "string list"

record ContainerStatus =
  cs_Name :: string
  cs_ImageID :: string
  cs_Waiting :: "(string \<times> string) option"

record PodStatus =
  ps_Phase :: string
  ps_InitContainerStatuses :: "ContainerStatus list"
  ps_ContainerStatuses :: "ContainerStatus list"

record Pod =
  p_APIVersion :: string
  p_Kind :: string
  p_Meta :: ObjectMeta
  p_Spec :: "PodSpec option"
  p_Status :: PodStatus

definition empty_pod_status :: PodStatus where
  "empty_pod_status = \<lparr>ps_Phase = [], ps_InitContainerStatuses = [], ps_ContainerStatuses = []\<rparr>"

record Image =
  im_PodNamespace :: string
  im_UnpackImage :: string

definition imageBundleUnpackContainerName :: string where
  "imageBundleUnpackContainerName = ''bundle''"

text \<open>
  The cluster as the source uses it: reading a pod (into the pod it is given), applying a pod
  configuration, deleting a pod, and a pod's log (opening the stream, then copying it).
\<close>

record 'w kube =
  k_Get :: "NamespacedName \<Rightarrow> Pod \<Rightarrow> 'w \<Rightarrow> (gerror option \<times> Pod) \<times> 'w"
  k_Apply :: "Pod \<Rightarrow> 'w \<Rightarrow> Pod result \<times> 'w"
  k_Delete :: "Pod \<Rightarrow> 'w \<Rightarrow> gerror option \<times> 'w"
  k_Logs :: "string \<Rightarrow> string \<Rightarrow> 'w \<Rightarrow> string result result \<times> 'w"

text \<open>
  The desired pod. The two containers share one security-context object, so the user id that is set
  when the second container is built is also the first one's.
\<close>

definition unpack_security_context :: SecurityContext where
  "unpack_security_context = \<lparr>sc_AllowPrivilegeEscalation = False, sc_Drop = [''ALL''], sc_RunAsUser = Some 1001\<rparr>"

definition getDesiredPodApplyConfig :: "string \<Rightarrow> Image \<Rightarrow> BundleDeployment \<Rightarrow> ImageSource \<Rightarrow> Pod" where
  "getDesiredPodApplyConfig gocoverdirEnv i bundle img =
     \<lparr>p_APIVersion = ''v1'', p_Kind = ''Pod'',
      p_Meta = (empty_meta (im_PodNamespace i) (bd_Name bundle))
        \<lparr>om_Labels := [CoreOwnerKindKey \<mapsto> bd_Kind bundle, CoreOwnerNameKey \<mapsto> bd_Name bundle],
         om_OwnerReferences := [\<lparr>or_APIVersion = bd_APIVersion bundle, or_Kind = bd_Kind bundle, or_Name = bd_Name bundle,
                                 or_UID = om_UID (bd_Meta bundle), or_Controller = Some True\<rparr>]\<rparr>,
      p_Spec = Some
        \<lparr>pod_AutomountServiceAccountToken = False, pod_RestartPolicy = ''Never'',
         pod_InitContainers =
           [\<lparr>c_Name = ''install-unpacker'', c_Image = im_UnpackImage i, c_ImagePullPolicy = ''IfNotPresent'',
             c_Command = [''/cp'', ''-Rv'', ''/unpack'', ''/util/bin/unpack''], c_VolumeMounts = [(''util'', ''/util/bin'')], c_Env = [],
             c_SecurityContext = unpack_security_context, c_TerminationMessagePolicy = ''FallbackToLogsOnError''\<rparr>],
         pod_Containers =
           [\<lparr>c_Name = imageBundleUnpackContainerName, c_Image = img_Ref img, c_ImagePullPolicy = [],
             c_Command = [''/bin/unpack'', ''--bundle-dir'', ''/''],
             c_VolumeMounts = (if gocoverdirEnv \<noteq> [] then [(''test-coverage'', gocoverdirEnv)] else []) @ [(''util'', ''/bin'')],
             c_Env = [(''GOCOVERDIR'', gocoverdirEnv)],
             c_SecurityContext = unpack_security_context, c_TerminationMessagePolicy = ''FallbackToLogsOnError''\<rparr>],
         pod_EmptyDirVolumes = (if gocoverdirEnv \<noteq> [] then [''test-coverage''] else []) @ [''util''],
         pod_RunAsNonRoot = True, pod_SeccompProfile = ''RuntimeDefault'',
         pod_ImagePullSecrets = (if img_ImagePullSecretName img \<noteq> [] then [img_ImagePullSecretName img] else [])\<rparr>,
      p_Status = empty_pod_status\<rparr>"

definition unsetNonComparedPodFields :: "Pod \<Rightarrow> Pod" where
  "unsetNonComparedPodFields p = p\<lparr>p_APIVersion := [], p_Kind := [], p_Status := empty_pod_status\<rparr>"

definition pod_key :: "Pod \<Rightarrow> NamespacedName" where
  "pod_key p = \<lparr>nn_Namespace = om_Namespace (p_Meta p), nn_Name = om_Name (p_Meta p)\<rparr>"

definition named_pod :: "string \<Rightarrow> string \<Rightarrow> Pod" where
  "named_pod ns name = \<lparr>p_APIVersion = [], p_Kind = [], p_Meta = empty_meta ns name, p_Spec = None, p_Status = empty_pod_status\<rparr>"

text \<open>The application of the configuration; an invalid one (an immutable field changed) is retried after deleting
  the existing pod.\<close>

definition apply_pod :: "'w kube \<Rightarrow> Pod \<Rightarrow> Pod \<Rightarrow> ('w, Pod) M" where
  "apply_pod k cfg existingPod w =
     (case k_Apply k cfg w of
        (Inr p, w1) \<Rightarrow> (Ok p, w1)
      | (Inl err, w1) \<Rightarrow>
          (if \<not> IsInvalid err then (Err err, w1)
           else
             (case k_Delete k existingPod w1 of
                (Some e, w2) \<Rightarrow> (Err e, w2)
              | (None, w2) \<Rightarrow> (case k_Apply k cfg w2 of (Inl e, w3) \<Rightarrow> (Err e, w3) | (Inr p, w3) \<Rightarrow> (Ok p, w3)))))"

definition ensureUnpackPod ::
  "(Pod \<Rightarrow> Pod \<Rightarrow> bool) \<Rightarrow> 'w kube \<Rightarrow> string \<Rightarrow> Image \<Rightarrow> BundleDeployment \<Rightarrow> ImageSource \<Rightarrow> ('w, OperationResult \<times> Pod) M" where
  "ensureUnpackPod DeepEqual k gocoverdirEnv i bundle img w =
     (let pod0 = named_pod (im_PodNamespace i) (bd_Name bundle) in
      case k_Get k (pod_key pod0) pod0 w of
        ((err, existingPod), w1) \<Rightarrow>
          (case (case err of None \<Rightarrow> None | Some e \<Rightarrow> IgnoreNotFound e) of
             Some e \<Rightarrow> (Err e, w1)
           | None \<Rightarrow>
               (case apply_pod k (getDesiredPodApplyConfig gocoverdirEnv i bundle img) existingPod w1 of
                  (Ok updatedPod, w2) \<Rightarrow>
                    (Ok (if DeepEqual (unsetNonComparedPodFields existingPod) (unsetNonComparedPodFields updatedPod)
                         then OperationResultNone else OperationResultUpdated, updatedPod), w2)
                | (Err e, w2) \<Rightarrow> (Err e, w2)
                | (Panic p, w2) \<Rightarrow> (Panic p, w2)
                | (Diverge, w2) \<Rightarrow> (Diverge, w2))))"

definition getPodLogs :: "'w kube \<Rightarrow> Pod \<Rightarrow> ('w, string) M" where
  "getPodLogs k pod w =
     (case k_Logs k (om_Namespace (p_Meta pod)) (om_Name (p_Meta pod)) w of
        (Inl err, w1) \<Rightarrow> (Err (Msg (''get pod logs: '' @ Error err)), w1)
      | (Inr (Inl err), w1) \<Rightarrow> (Err err, w1)
      | (Inr (Inr data), w1) \<Rightarrow> (Ok data, w1))"

text \<open>\<open>Unmarshal\<close> reads the field \<open>content\<close> of the log's JSON object.\<close>

definition getBundleContents :: "tarfs_new \<Rightarrow> (string \<Rightarrow> blob result) \<Rightarrow> 'w kube \<Rightarrow> Pod \<Rightarrow> ('w, fs_FS) M" where
  "getBundleContents tarfs_New Unmarshal k pod w =
     (case getPodLogs k pod w of
        (Ok bundleData, w1) \<Rightarrow>
          ((case Unmarshal bundleData of
              Inl err \<Rightarrow> Err (Msg (''parse bundle data: '' @ Error err))
            | Inr content \<Rightarrow>
                (case gzip_NewReader content of
                   Inl err \<Rightarrow> Err (Msg (''read bundle content gzip: '' @ Error err))
                 | Inr gzr \<Rightarrow> lift_result (tarfs_New gzr))), w1)
      | (Err err, w1) \<Rightarrow> (Err (Msg (''get bundle contents: '' @ Error err)), w1)
      | (Panic p, w1) \<Rightarrow> (Panic p, w1)
      | (Diverge, w1) \<Rightarrow> (Diverge, w1))"

definition getBundleImageDigest :: "Pod \<Rightarrow> string result" where
  "getBundleImageDigest pod =
     (case List.find (\<lambda>ps. cs_Name ps = imageBundleUnpackContainerName \<and> cs_ImageID ps \<noteq> []) (ps_ContainerStatuses (p_Status pod)) of
        Some ps \<Rightarrow> Inr (cs_ImageID ps)
      | None \<Rightarrow> Inl (Msg ''bundle image digest not found''))"

definition failedPodResult :: "'w kube \<Rightarrow> Pod \<Rightarrow> ('w, gerror) M" where
  "failedPodResult k pod w =
     (case getPodLogs k pod w of
        (Ok logs, w1) \<Rightarrow> (case k_Delete k pod w1 of (_, w2) \<Rightarrow> (Ok (Msg (''unpack failed: '' @ logs)), w2))
      | (Err err, w1) \<Rightarrow> (Ok (Msg (''unpack failed: failed to retrieve failed pod logs: '' @ Error err)), w1)
      | (Panic p, w1) \<Rightarrow> (Panic p, w1)
      | (Diverge, w1) \<Rightarrow> (Diverge, w1))"

definition succeededPodResult :: "tarfs_new \<Rightarrow> (string \<Rightarrow> blob result) \<Rightarrow> 'w kube \<Rightarrow> Pod \<Rightarrow> ('w, Result) M" where
  "succeededPodResult tarfs_New Unmarshal k pod w =
     (case getBundleContents tarfs_New Unmarshal k pod w of
        (Ok bundleFS, w1) \<Rightarrow>
          ((case getBundleImageDigest pod of
              Inl err \<Rightarrow> Err (Msg (''get bundle image digest: '' @ Error err))
            | Inr digest \<Rightarrow>
                Ok \<lparr>res_Bundle = Some bundleFS,
                    res_ResolvedSource = Some ((empty_source SourceTypeImage)\<lparr>src_Image :=
                      Some \<lparr>img_Ref = digest, img_ImagePullSecretName = [], img_InsecureSkipTLSVerify = False, img_CertificateData = []\<rparr>\<rparr>),
                    res_State = StateUnpacked, res_Message = generateMessage ''image''\<rparr>), w1)
      | (Err err, w1) \<Rightarrow> (Err (Msg (''get bundle contents: '' @ Error err)), w1)
      | (Panic p, w1) \<Rightarrow> (Panic p, w1)
      | (Diverge, w1) \<Rightarrow> (Diverge, w1))"

definition handleUnexpectedPod :: "'w kube \<Rightarrow> Pod \<Rightarrow> ('w, gerror) M" where
  "handleUnexpectedPod k pod w =
     (case k_Delete k pod w of (_, w1) \<Rightarrow> (Ok (Msg (''unexpected pod phase: '' @ ps_Phase (p_Status pod))), w1))"

definition pull_messages :: "ContainerStatus list \<Rightarrow> string list" where
  "pull_messages css =
     concat (map (\<lambda>c. case cs_Waiting c of
        None \<Rightarrow> []
      | Some (reason, msg) \<Rightarrow> if reason = ''ErrImagePull'' \<or> reason = ''ImagePullBackOff'' then [msg] else []) css)"

definition state_result :: "string \<Rightarrow> string \<Rightarrow> Result" where
  "state_result st msg = \<lparr>res_Bundle = None, res_ResolvedSource = None, res_State = st, res_Message = msg\<rparr>"

definition pendingImagePodResult :: "Pod \<Rightarrow> Result" where
  "pendingImagePodResult pod =
     state_result StatePending
       (join_with ''; '' (pull_messages (ps_InitContainerStatuses (p_Status pod) @ ps_ContainerStatuses (p_Status pod))))"

definition pod_error :: "('w, gerror) M \<Rightarrow> ('w, 'a) M" where
  "pod_error m w = (case m w of
     (Ok err, w1) \<Rightarrow> (Err err, w1) | (Err e, w1) \<Rightarrow> (Err e, w1) | (Panic p, w1) \<Rightarrow> (Panic p, w1) | (Diverge, w1) \<Rightarrow> (Diverge, w1))"

text \<open>The switch over the pod's phase.\<close>

definition pod_phase_result :: "tarfs_new \<Rightarrow> (string \<Rightarrow> blob result) \<Rightarrow> 'w kube \<Rightarrow> Pod \<Rightarrow> ('w, Result) M" where
  "pod_phase_result tarfs_New Unmarshal k pod w =
     (let phase = ps_Phase (p_Status pod) in
      if phase = ''Pending'' then (Ok (pendingImagePodResult pod), w)
      else if phase = ''Running'' then (Ok (state_result StateUnpacking []), w)
      else if phase = ''Failed'' then pod_error (failedPodResult k pod) w
      else if phase = ''Succeeded'' then succeededPodResult tarfs_New Unmarshal k pod w
      else pod_error (handleUnexpectedPod k pod) w)"

definition Image_Unpack ::
  "tarfs_new \<Rightarrow> (string \<Rightarrow> blob result) \<Rightarrow> (Pod \<Rightarrow> Pod \<Rightarrow> bool) \<Rightarrow> 'w kube \<Rightarrow> string \<Rightarrow> Image \<Rightarrow> BundleDeployment \<Rightarrow> ('w, Result) M" where
  "Image_Unpack tarfs_New Unmarshal DeepEqual k gocoverdirEnv i bundle w =
     (if src_Type (bd_Source bundle) \<noteq> SourceTypeImage
      then (Err (Msg (''bundle source type '' @ fmt_q (src_Type (bd_Source bundle)) @ '' not supported'')), w)
      else
        (case src_Image (bd_Source bundle) of
           None \<Rightarrow> (Err (Msg ''bundle source image configuration is unset''), w)
         | Some img \<Rightarrow>
             (case ensureUnpackPod DeepEqual k gocoverdirEnv i bundle img w of
                (Ok (op, pod), w1) \<Rightarrow>
                  (if op = OperationResultCreated \<or> op = OperationResultUpdated \<or> om_DeletionTimestamp (p_Meta pod) \<noteq> None
                   then (Ok (state_result StatePending []), w1)
                   else pod_phase_result tarfs_New Unmarshal k pod w1)
              | (Err e, w1) \<Rightarrow> (Err e, w1)
              | (Panic p, w1) \<Rightarrow> (Panic p, w1)
              | (Diverge, w1) \<Rightarrow> (Diverge, w1))))"

section \<open>Both image sources meet the interface\<close>

lemma ImageRegistry_Unpack_Ok:
  "ImageRegistry_Unpack NA lib uid gid i bd c = (Ok r, c') \<Longrightarrow>
     src_Type (bd_Source bd) = SourceTypeImage \<and> (\<exists>t img ref. src_Image (bd_Source bd) = Some img \<and> r = unpackedResult t img ref)"
  by (auto simp: ImageRegistry_Unpack_def pull_image_def Let_def simp del: Join.simps
      split: if_splits option.splits sum.splits outcome.splits prod.splits)

interpretation registry_source: bundle_source "ImageRegistry_Unpack NA lib uid gid i" SourceTypeImage
  for NA lib uid gid i
  by unfold_locales (auto simp: result_ok_def unpackedResult_def empty_source_def dest!: ImageRegistry_Unpack_Ok)

lemma succeededPodResult_Ok:
  "succeededPodResult tarfs_New Unmarshal k pod w = (Ok r, w') \<Longrightarrow>
     res_State r = StateUnpacked \<and> res_Bundle r \<noteq> None
     \<and> (\<exists>img. res_ResolvedSource r = Some ((empty_source SourceTypeImage)\<lparr>src_Image := Some img\<rparr>) \<and> getBundleImageDigest pod = Inr (img_Ref img))"
  by (auto simp: succeededPodResult_def split: prod.splits outcome.splits sum.splits)

lemma pod_error_not_Ok: "pod_error m w \<noteq> (Ok r, w')"
  by (auto simp: pod_error_def split: prod.splits outcome.splits)

lemma pod_phase_result_Ok:
  assumes "pod_phase_result tarfs_New Unmarshal k pod w = (Ok r, w')"
  shows "(ps_Phase (p_Status pod) = ''Pending'' \<and> res_State r = StatePending)
       \<or> (ps_Phase (p_Status pod) = ''Running'' \<and> res_State r = StateUnpacking)
       \<or> (ps_Phase (p_Status pod) = ''Succeeded'' \<and> succeededPodResult tarfs_New Unmarshal k pod w = (Ok r, w'))"
  using assms by (auto simp: pod_phase_result_def Let_def pendingImagePodResult_def state_result_def pod_error_not_Ok split: if_splits)

lemma Image_Unpack_Ok:
  assumes "Image_Unpack tarfs_New Unmarshal DeepEqual k env i bd w = (Ok r, w')"
  obtains img op pod w1 where "src_Type (bd_Source bd) = SourceTypeImage" "src_Image (bd_Source bd) = Some img"
    "ensureUnpackPod DeepEqual k env i bd img w = (Ok (op, pod), w1)"
    "(r = state_result StatePending [] \<and> w' = w1)
     \<or> (op = OperationResultNone \<and> om_DeletionTimestamp (p_Meta pod) = None \<and> pod_phase_result tarfs_New Unmarshal k pod w1 = (Ok r, w'))"
proof -
  from assms obtain img where 1: "src_Type (bd_Source bd) = SourceTypeImage" "src_Image (bd_Source bd) = Some img"
    by (auto simp: Image_Unpack_def split: if_splits option.splits)
  obtain x w1 where x: "ensureUnpackPod DeepEqual k env i bd img w = (x, w1)" by fastforce
  with assms 1 obtain op pod where "x = Ok (op, pod)" by (cases x) (auto simp: Image_Unpack_def)
  with assms 1 x that [of img op pod w1] show ?thesis
    by (cases op) (auto simp: Image_Unpack_def split: if_splits)
qed

interpretation pod_source: bundle_source "Image_Unpack tarfs_New Unmarshal DeepEqual k env i" SourceTypeImage
  for tarfs_New Unmarshal DeepEqual k env i
proof
  fix bd w r w'
  assume "Image_Unpack tarfs_New Unmarshal DeepEqual k env i bd w = (Ok r, w')"
  then show "src_Type (bd_Source bd) = SourceTypeImage \<and> result_ok SourceTypeImage r"
    by (auto elim!: Image_Unpack_Ok dest!: pod_phase_result_Ok succeededPodResult_Ok
        simp: result_ok_def state_result_def empty_source_def)
qed

section \<open>The default sources\<close>

text \<open>The world the default unpacker works in: the cluster's reads, the network, the git hosts, and the image
  cache, which is the only part a source changes.\<close>

record ('s, 'k, 'r, 'a, 'l) source_world =
  sw_ConfigMap :: configmap_getter
  sw_Secret :: secret_getter
  sw_Do :: http_do
  sw_Git :: "('s, 'k, 'r) git_lib"
  sw_Registry :: "('a, 'l) registry_lib"
  sw_Cache :: cache

record ('s, 'k) source_libs =
  sl_NewAggregate :: new_aggregate
  sl_iter :: map_order
  sl_order :: "(string \<times> string set) list \<Rightarrow> (string \<times> string set) list"
  sl_tarfs :: tarfs_new
  sl_url_error :: "string \<Rightarrow> gerror option"
  sl_b64 :: "string \<Rightarrow> string"
  sl_ParsePrivateKey :: "string \<Rightarrow> 's result"
  sl_ParseKnownHosts :: "string \<Rightarrow> 'k result"
  sl_uid :: nat
  sl_gid :: nat

definition on_cache :: "(cache, 'b) M \<Rightarrow> (('s, 'k, 'r, 'a, 'l) source_world, 'b) M" where
  "on_cache m w = (case m (sw_Cache w) of (x, c) \<Rightarrow> (x, w\<lparr>sw_Cache := c\<rparr>))"

definition no_cleanup :: "BundleDeployment \<Rightarrow> ('w, unit) M" where
  "no_cleanup bd w = (Ok (), w)"

definition default_sources ::
  "('s, 'k) source_libs \<Rightarrow> string \<Rightarrow> string \<Rightarrow> (SourceType \<rightharpoonup> ('s, 'k, 'r, 'a, 'l) source_world Unpacker)" where
  "default_sources L namespace cacheDir =
       [SourceTypeImage \<mapsto>
          (let i = \<lparr>reg_BaseCachePath = cacheDir, reg_AuthNamespace = namespace\<rparr> in
           \<lparr>up_Unpack = (\<lambda>bd w. on_cache (ImageRegistry_Unpack (sl_NewAggregate L) (sw_Registry w) (sl_uid L) (sl_gid L) i bd) w),
            up_Cleanup = (\<lambda>bd. on_cache (ImageRegistry_Cleanup i bd))\<rparr>),
        SourceTypeGit \<mapsto>
          \<lparr>up_Unpack = reading (\<lambda>w. Git_Unpack (sw_Git w) (sl_ParsePrivateKey L) (sl_ParseKnownHosts L) (sw_Secret w) namespace),
           up_Cleanup = no_cleanup\<rparr>,
        SourceTypeConfigMaps \<mapsto>
          \<lparr>up_Unpack = reading (\<lambda>w. ConfigMaps_Unpack (sl_NewAggregate L) (sl_iter L) (sl_order L) (sw_ConfigMap w) namespace),
           up_Cleanup = no_cleanup\<rparr>,
        SourceTypeHTTP \<mapsto>
          \<lparr>up_Unpack = reading (\<lambda>w. HTTP_Unpack (sl_tarfs L) (sl_url_error L) (sw_Do w) (sl_b64 L) (sw_Secret w) namespace),
           up_Cleanup = no_cleanup\<rparr>]"

definition NewDefaultUnpacker ::
  "('s, 'k) source_libs \<Rightarrow> string \<Rightarrow> string \<Rightarrow> ('s, 'k, 'r, 'a, 'l) source_world Unpacker" where
  "NewDefaultUnpacker L namespace cacheDir = NewUnpacker (default_sources L namespace cacheDir)"

lemma default_source_contract:
  assumes "default_sources L ns dir t = Some u"
  shows "bundle_source (up_Unpack u) t"
proof -
  have reg: "bundle_source (\<lambda>bd w. on_cache (ImageRegistry_Unpack NA (sw_Registry w) uid gid i bd) w) SourceTypeImage" for NA uid gid i
    using registry_source.unpack_ok by unfold_locales (fastforce simp: on_cache_def split: prod.splits)+
  show ?thesis
    using assms unfolding default_sources_def
    by (auto simp: Let_def reg configmaps_source.bundle_source_axioms http_source.bundle_source_axioms
        git_source.bundle_source_axioms split: if_splits)
qed

lemma default_unpacker_result_ok:
  "up_Unpack (NewDefaultUnpacker L ns dir) bd w = (Ok r, w') \<Longrightarrow> result_ok (src_Type (bd_Source bd)) r"
  by (rule unpacker_result_ok [of "default_sources L ns dir"])
    (auto simp: NewDefaultUnpacker_def NewUnpacker_def intro: default_source_contract)

lemma fresh_unpack_no_panic: "fst (fresh_unpack NA lib uid gid i b ref opts path c) \<noteq> Panic p"
  by (auto simp: fresh_unpack_def ImageRegistry_Cleanup_def Let_def simp del: Join.simps split: prod.splits option.splits)

lemma pull_image_no_panic: "fst (pull_image NA lib uid gid i b img ref opts c) \<noteq> Panic p"
  using fresh_unpack_no_panic [of NA lib uid gid i b ref opts _ c]
  by (auto simp: pull_image_def Let_def simp del: Join.simps split: sum.split prod.split) (metis fst_conv)

lemma ImageRegistry_no_panic:
  "src_Type (bd_Source bd) = SourceTypeImage \<Longrightarrow> fst (ImageRegistry_Unpack NA lib uid gid i bd c) \<noteq> Panic p"
  by (auto simp: ImageRegistry_Unpack_def pull_image_no_panic registry_opts_no_panic split: option.split sum.split outcome.split)

lemma cm_loop_no_panic: "cm_loop iter Get ns refs st \<noteq> Panic p"
  by (induction refs arbitrary: st) (auto simp: Let_def split: sum.splits)

lemma ConfigMaps_no_panic: "aggregate_law NA \<Longrightarrow> ConfigMaps_Unpack NA iter order Get ns bd \<noteq> Panic p"
  by (auto simp: ConfigMaps_Unpack_def Let_def cm_loop_no_panic aggregate_law_def split: option.splits)

lemma http_response_fs_no_panic: "http_response_fs tarfs_New action resp \<noteq> Panic p"
  by (auto simp: http_response_fs_def split: sum.splits)

lemma HTTP_no_panic: "src_HTTP (bd_Source bd) \<noteq> None \<Longrightarrow> HTTP_Unpack tarfs_New url_error Do b64 Get ns bd \<noteq> Panic p"
  by (auto simp: HTTP_Unpack_def Let_def http_response_fs_no_panic split: sum.splits)

section \<open>Properties\<close>

text \<open>C28. The default unpacker keeps the contract the controller relies on: a result has one of the three known
  states, and a finished one comes with a bundle and with a resolved source of the type that was asked for.\<close>

theorem default_unpacker_contract:
  assumes "up_Unpack (NewDefaultUnpacker L ns dir) bd w = (Ok r, w')"
  shows "res_State r \<in> {StatePending, StateUnpacking, StateUnpacked}
         \<and> (res_State r = StateUnpacked \<longrightarrow>
              (\<exists>b s. res_Bundle r = Some b \<and> res_ResolvedSource r = Some s \<and> src_Type s = src_Type (bd_Source bd)))"
  using default_unpacker_result_ok [OF assms] by (auto simp: result_ok_def split: option.splits)

definition demo_libs :: "(unit, unit) source_libs" where
  "demo_libs = \<lparr>sl_NewAggregate = plain_aggregate, sl_iter = id, sl_order = id, sl_tarfs = tar_MapFS, sl_url_error = (\<lambda>_. None),
     sl_b64 = id, sl_ParsePrivateKey = (\<lambda>_. Inr ()), sl_ParseKnownHosts = (\<lambda>_. Inr ()), sl_uid = 0, sl_gid = 0\<rparr>"

definition demo_source_world :: "(unit, unit, string, unit, string) source_world" where
  "demo_source_world = \<lparr>sw_ConfigMap = demo_getter, sw_Secret = (\<lambda>_ _. Inl (Msg [])), sw_Do = demo_server, sw_Git = demo_git,
     sw_Registry = demo_registry, sw_Cache = demo_cache\<rparr>"

lemma demo_default_git:
  "up_Unpack (NewDefaultUnpacker demo_libs ''sys'' ''/c'') (demo_git_bd ''deploy'') demo_source_world
   = (Ok (git_result (demo_git_source ''deploy'') ''c1'' demo_billy), demo_source_world)"
proof -
  have ty: "src_Type (bd_Source (demo_git_bd ''deploy'')) = SourceTypeGit" by (simp add: demo_git_bd_def mk_bd_def empty_source_def)
  show ?thesis
    by (simp add: NewDefaultUnpacker_def default_sources_def NewUnpacker_def unpacker_Unpack_def ty reading_def demo_source_world_def demo_libs_def
        demo_git_unpack demo_git_subdirectory)
qed

theorem default_unpacker_contract_witness:
  "\<exists>r. up_Unpack (NewDefaultUnpacker demo_libs ''sys'' ''/c'') (demo_git_bd ''deploy'') demo_source_world = (Ok r, demo_source_world)
     \<and> (\<exists>b s. res_Bundle r = Some b \<and> res_ResolvedSource r = Some s \<and> src_Type s = src_Type (bd_Source (demo_git_bd ''deploy'')))"
  using default_unpacker_contract [OF demo_default_git] demo_default_git by (auto simp: git_result_def)

text \<open>The default unpacker panics on no bundle deployment whose \<open>http\<close> field is set for the type \<open>http\<close> and
  whose git directory, for the type \<open>git\<close>, is empty or has at least three bytes when cleaned.\<close>

theorem default_unpacker_no_panic:
  assumes "aggregate_law (sl_NewAggregate L)"
    and "src_Type (bd_Source bd) = SourceTypeHTTP \<Longrightarrow> src_HTTP (bd_Source bd) \<noteq> None"
    and "\<And>g. src_Type (bd_Source bd) = SourceTypeGit \<Longrightarrow> src_Git (bd_Source bd) = Some g
           \<Longrightarrow> git_Directory g = [] \<or> 3 \<le> length (Clean (git_Directory g))"
  shows "fst (up_Unpack (NewDefaultUnpacker L ns dir) bd w) \<noteq> Panic p"
proof -
  have git: "Git_Unpack lib PK KH Get ns bd \<noteq> Panic p" if "src_Type (bd_Source bd) = SourceTypeGit" for lib PK KH Get
    using assms(3) [OF that]
    by (auto simp: Git_Unpack_def unpack_repo_def git_auth_no_panic checkout_commit_no_panic subdirectory_no_panic
        split: option.splits sum.splits prod.splits)
  show ?thesis
    using assms(1,2) git ConfigMaps_no_panic [OF assms(1)] HTTP_no_panic
      ImageRegistry_no_panic [of bd "sl_NewAggregate L" "sw_Registry w" "sl_uid L" "sl_gid L"
        "\<lparr>reg_BaseCachePath = dir, reg_AuthNamespace = ns\<rparr>" "sw_Cache w" p]
    by (auto simp: NewDefaultUnpacker_def default_sources_def NewUnpacker_def unpacker_Unpack_def reading_def on_cache_def Let_def
        split: option.splits prod.splits if_splits)
qed

theorem default_unpacker_no_panic_witness:
  "\<forall>p. fst (up_Unpack (NewDefaultUnpacker demo_libs ''sys'' ''/c'') demo_cm_bd demo_source_world) \<noteq> Panic p"
  by (intro allI default_unpacker_no_panic) (auto simp: demo_libs_def plain_aggregate_law demo_cm_bd_source)

text \<open>The pod that was applied: by the first application, or, when that was invalid, by the second one, after the existing pod was deleted.\<close>

lemma apply_pod_Ok:
  assumes "apply_pod k cfg old w = (Ok pod, w')"
  shows "k_Apply k cfg w = (Inr pod, w') \<or>
    (\<exists>err w1 w2. k_Apply k cfg w = (Inl err, w1) \<and> IsInvalid err \<and> k_Delete k old w1 = (None, w2) \<and> k_Apply k cfg w2 = (Inr pod, w'))"
  using assms by (auto simp: apply_pod_def split: prod.splits sum.splits if_splits option.splits)

lemma ensureUnpackPod_None:
  assumes "ensureUnpackPod DeepEqual k env i bd img w = (Ok (OperationResultNone, pod), w')"
  shows "\<exists>err old w1. k_Get k \<lparr>nn_Namespace = im_PodNamespace i, nn_Name = bd_Name bd\<rparr> (named_pod (im_PodNamespace i) (bd_Name bd)) w = ((err, old), w1) \<and>
    (err = None \<or> (\<exists>e. err = Some e \<and> IgnoreNotFound e = None)) \<and> apply_pod k (getDesiredPodApplyConfig env i bd img) old w1 = (Ok pod, w') \<and>
    DeepEqual (old\<lparr>p_APIVersion := [], p_Kind := [], p_Status := empty_pod_status\<rparr>) (pod\<lparr>p_APIVersion := [], p_Kind := [], p_Status := empty_pod_status\<rparr>)"
  using assms
  by (auto simp: ensureUnpackPod_def Let_def pod_key_def named_pod_def empty_meta_def unsetNonComparedPodFields_def
      split: prod.splits option.splits outcome.splits if_splits)

lemma find_splits: "List.find P xs = Some x \<Longrightarrow> \<exists>pre post. xs = pre @ x # post \<and> P x \<and> (\<forall>y\<in>set pre. \<not> P y)"
proof (induction xs)
  case (Cons y ys)
  show ?case
  proof (cases "P y")
    case False
    with Cons obtain pre post where "ys = pre @ x # post" "P x" "\<forall>y\<in>set pre. \<not> P y" by auto
    with False show ?thesis by (intro exI [of _ "y # pre"] exI [of _ post]) auto
  qed (use Cons.prems in \<open>auto intro: exI [of _ "[]"]\<close>)
qed simp

lemma getBundleImageDigest_Inr:
  "getBundleImageDigest pod = Inr d \<Longrightarrow>
     \<exists>cs pre post. ps_ContainerStatuses (p_Status pod) = pre @ cs # post \<and> cs_Name cs = ''bundle'' \<and> cs_ImageID cs = d \<and> d \<noteq> [] \<and>
       (\<forall>c\<in>set pre. cs_Name c = ''bundle'' \<longrightarrow> cs_ImageID c = [])"
  by (fastforce simp: getBundleImageDigest_def imageBundleUnpackContainerName_def split: option.splits dest!: find_splits)

lemma getBundleContents_Ok:
  assumes "getBundleContents tarfs_New Unmarshal k pod w = (Ok b, w')"
  shows "\<exists>logs es. k_Logs k (om_Namespace (p_Meta pod)) (om_Name (p_Meta pod)) w = (Inr (Inr logs), w') \<and> Unmarshal logs = Inr (TarGz es) \<and> tarfs_New es = Inr b"
proof -
  obtain logs where logs: "getPodLogs k pod w = (Ok logs, w')"
    using assms by (auto simp: getBundleContents_def split: prod.splits outcome.splits)
  then obtain content where "Unmarshal logs = Inr content"
    using assms by (auto simp: getBundleContents_def split: sum.splits)
  with logs assms show ?thesis
    by (cases content) (auto simp: getBundleContents_def getPodLogs_def split: prod.splits sum.splits)
qed

text \<open>C29. The pod source reports a bundle as unpacked only from the pod it asked for. It read the pod of the bundle deployment's name in its namespace, then applied the desired
  configuration, again after deleting the old pod when that was invalid; the pod that this gave equals the one it read, but for version, kind and status, is not being
  deleted, and has succeeded. The bundle is the archive in the pod's log, and the resolved reference is the first image id that is set for a container
  with the name bundle in the pod's status.\<close>

theorem pod_source_unpacked_from_succeeded_pod:
  assumes "Image_Unpack tarfs_New Unmarshal DeepEqual k env i bd w = (Ok r, w')" and "res_State r = StateUnpacked"
  shows "\<exists>img err old pod w1 w2 logs es b cs pre post src. src_Image (bd_Source bd) = Some img
    \<and> k_Get k \<lparr>nn_Namespace = im_PodNamespace i, nn_Name = bd_Name bd\<rparr> (named_pod (im_PodNamespace i) (bd_Name bd)) w = ((err, old), w1)
    \<and> (err = None \<or> (\<exists>e. err = Some e \<and> IgnoreNotFound e = None))
    \<and> (k_Apply k (getDesiredPodApplyConfig env i bd img) w1 = (Inr pod, w2)
       \<or> (\<exists>inv v1 v2. k_Apply k (getDesiredPodApplyConfig env i bd img) w1 = (Inl inv, v1) \<and> IsInvalid inv \<and> k_Delete k old v1 = (None, v2)
            \<and> k_Apply k (getDesiredPodApplyConfig env i bd img) v2 = (Inr pod, w2)))
    \<and> DeepEqual (old\<lparr>p_APIVersion := [], p_Kind := [], p_Status := empty_pod_status\<rparr>) (pod\<lparr>p_APIVersion := [], p_Kind := [], p_Status := empty_pod_status\<rparr>)
    \<and> ps_Phase (p_Status pod) = ''Succeeded'' \<and> om_DeletionTimestamp (p_Meta pod) = None
    \<and> k_Logs k (om_Namespace (p_Meta pod)) (om_Name (p_Meta pod)) w2 = (Inr (Inr logs), w') \<and> Unmarshal logs = Inr (TarGz es)
    \<and> tarfs_New es = Inr b \<and> res_Bundle r = Some b
    \<and> ps_ContainerStatuses (p_Status pod) = pre @ cs # post \<and> cs_Name cs = ''bundle'' \<and> cs_ImageID cs \<noteq> []
    \<and> (\<forall>c\<in>set pre. cs_Name c = ''bundle'' \<longrightarrow> cs_ImageID c = [])
    \<and> res_ResolvedSource r = Some src \<and> src_Type src = SourceTypeImage \<and> map_option img_Ref (src_Image src) = Some (cs_ImageID cs)"
proof (rule Image_Unpack_Ok [OF assms(1)])
  fix img op pod w2
  assume img: "src_Image (bd_Source bd) = Some img" and en: "ensureUnpackPod DeepEqual k env i bd img w = (Ok (op, pod), w2)"
    and "(r = state_result StatePending [] \<and> w' = w2)
     \<or> (op = OperationResultNone \<and> om_DeletionTimestamp (p_Meta pod) = None \<and> pod_phase_result tarfs_New Unmarshal k pod w2 = (Ok r, w'))"
  with assms(2) have op: "op = OperationResultNone" "om_DeletionTimestamp (p_Meta pod) = None"
    and ph: "pod_phase_result tarfs_New Unmarshal k pod w2 = (Ok r, w')"
    by (auto simp: state_result_def)
  with pod_phase_result_Ok [OF ph] assms(2) have phase: "ps_Phase (p_Status pod) = ''Succeeded''"
    and succ: "succeededPodResult tarfs_New Unmarshal k pod w2 = (Ok r, w')" by auto
  obtain b d src where b: "getBundleContents tarfs_New Unmarshal k pod w2 = (Ok b, w')" "res_Bundle r = Some b"
    and d: "getBundleImageDigest pod = Inr d" and src: "res_ResolvedSource r = Some src" "src_Type src = SourceTypeImage" "map_option img_Ref (src_Image src) = Some d"
    using succ by (auto simp: succeededPodResult_def empty_source_def split: prod.splits outcome.splits sum.splits)
  note en = en [unfolded op(1)]
  obtain err old w1 where old: "k_Get k \<lparr>nn_Namespace = im_PodNamespace i, nn_Name = bd_Name bd\<rparr> (named_pod (im_PodNamespace i) (bd_Name bd)) w = ((err, old), w1)"
      "err = None \<or> (\<exists>e. err = Some e \<and> IgnoreNotFound e = None)"
    and ap: "apply_pod k (getDesiredPodApplyConfig env i bd img) old w1 = (Ok pod, w2)"
    and eq: "DeepEqual (old\<lparr>p_APIVersion := [], p_Kind := [], p_Status := empty_pod_status\<rparr>) (pod\<lparr>p_APIVersion := [], p_Kind := [], p_Status := empty_pod_status\<rparr>)"
    using ensureUnpackPod_None [OF en] by blast
  obtain logs es where "k_Logs k (om_Namespace (p_Meta pod)) (om_Name (p_Meta pod)) w2 = (Inr (Inr logs), w')" "Unmarshal logs = Inr (TarGz es)" "tarfs_New es = Inr b"
    using getBundleContents_Ok [OF b(1)] by blast
  moreover obtain cs pre post where "ps_ContainerStatuses (p_Status pod) = pre @ cs # post" "cs_Name cs = ''bundle''" "cs_ImageID cs = d" "d \<noteq> []"
    "\<forall>c\<in>set pre. cs_Name c = ''bundle'' \<longrightarrow> cs_ImageID c = []"
    using getBundleImageDigest_Inr [OF d] by blast
  ultimately show ?thesis
    using img old apply_pod_Ok [OF ap] eq phase op(2) b(2) src
    by (intro exI [of _ img] exI [of _ err] exI [of _ old] exI [of _ pod] exI [of _ w1] exI [of _ w2] exI [of _ logs] exI [of _ es] exI [of _ b] exI [of _ cs]
        exI [of _ pre] exI [of _ post] exI [of _ src]) simp
qed

definition demo_done_pod :: Pod where
  "demo_done_pod = (named_pod ''sys'' ''b'')\<lparr>p_Status := \<lparr>ps_Phase = ''Succeeded'', ps_InitContainerStatuses = [],
     ps_ContainerStatuses = [\<lparr>cs_Name = ''bundle'', cs_ImageID = ''h/r@sha256:d1'', cs_Waiting = None\<rparr>]\<rparr>\<rparr>"

definition demo_kube :: "unit kube" where
  "demo_kube = \<lparr>k_Get = (\<lambda>_ _ w. ((None, demo_done_pod), w)), k_Apply = (\<lambda>_ w. (Inr demo_done_pod, w)),
     k_Delete = (\<lambda>_ w. (None, w)), k_Logs = (\<lambda>_ _ w. (Inr (Inr ''log''), w))\<rparr>"

theorem pod_source_unpacked_from_succeeded_pod_witness:
  "\<exists>r. Image_Unpack tar_MapFS (\<lambda>_. Inr (TarGz demo_archive)) (=) demo_kube [] \<lparr>im_PodNamespace = ''sys'', im_UnpackImage = ''u''\<rparr> demo_image_bd ()
       = (Ok r, ()) \<and> res_State r = StateUnpacked \<and> res_ResolvedSource r \<noteq> None"
proof -
  let ?run = "Image_Unpack tar_MapFS (\<lambda>_. Inr (TarGz demo_archive)) (=) demo_kube [] \<lparr>im_PodNamespace = ''sys'', im_UnpackImage = ''u''\<rparr> demo_image_bd ()"
  have "\<exists>r. ?run = (Ok r, ()) \<and> res_State r = StateUnpacked"
    by (simp add: Image_Unpack_def demo_image_bd_def mk_bd_def empty_source_def ensureUnpackPod_def demo_kube_def apply_pod_def
        demo_done_pod_def named_pod_def empty_meta_def pod_phase_result_def succeededPodResult_def getBundleContents_def
        getPodLogs_def tar_MapFS_def getBundleImageDigest_def imageBundleUnpackContainerName_def Let_def)
  then obtain r where r: "?run = (Ok r, ())" "res_State r = StateUnpacked" by blast
  from pod_source_unpacked_from_succeeded_pod [OF this] r show ?thesis by auto
qed

text \<open>The pod the source asks for leads back to its bundle deployment: an event for an object with the pod's metadata
  enqueues exactly the bundle deployment, when that is of the provisioner's class.\<close>

theorem unpack_pod_event_reaches_bundle:
  assumes "PGV (bd_APIVersion bd) = Inr (gvk_Group g, gvk_Version g)" and "bd_Kind bd = gvk_Kind g"
    and "Get \<lparr>nn_Namespace = [], nn_Name = bd_Name bd\<rparr> owner = (None, bd)" and "ProvisionerClassName bd = prov"
    and "ko_Meta obj = p_Meta (getDesiredPodApplyConfig env i bd img)" and "GVKForObject obj = Inr gvk"
  shows "MapOwneeToOwnerProvisionerHandler PGV (Inr g) GVKForObject Get prov owner obj
         = ([\<lparr>nn_Namespace = [], nn_Name = bd_Name bd\<rparr>], bd)"
  using assms by (simp add: MapOwneeToOwnerProvisionerHandler_def getDesiredPodApplyConfig_def)

definition demo_unpack_pod :: kobject where
  "demo_unpack_pod = \<lparr>ko_GVK = \<lparr>gvk_Group = [], gvk_Version = ''v1'', gvk_Kind = ''Pod''\<rparr>,
     ko_Meta = p_Meta (getDesiredPodApplyConfig [] \<lparr>im_PodNamespace = ''sys'', im_UnpackImage = ''u''\<rparr> demo_image_bd (the (src_Image (bd_Source demo_image_bd)))),
     ko_Status = None, ko_Body = JNull\<rparr>"

theorem unpack_pod_event_reaches_bundle_witness:
  "MapOwneeToOwnerProvisionerHandler (\<lambda>_. Inr (''core.rukpak.io'', ''v1alpha2'')) (Inr BundleDeploymentGVK) (\<lambda>x. Inr (ko_GVK x))
     (\<lambda>_ _. (None, demo_image_bd)) ''plain'' demo_image_bd demo_unpack_pod = ([\<lparr>nn_Namespace = [], nn_Name = ''b''\<rparr>], demo_image_bd)"
proof -
  have 1: "bd_Kind demo_image_bd = gvk_Kind BundleDeploymentGVK" "ProvisionerClassName demo_image_bd = ''plain''" "bd_Name demo_image_bd = ''b''"
    by (simp_all add: demo_image_bd_def mk_bd_def BundleDeploymentGVK_def ProvisionerClassName_def empty_meta_def)
  from unpack_pod_event_reaches_bundle [of "\<lambda>_. Inr (''core.rukpak.io'', ''v1alpha2'')" demo_image_bd BundleDeploymentGVK
      "\<lambda>_ _. (None, demo_image_bd)" demo_image_bd "''plain''" demo_unpack_pod "[]" _ "the (src_Image (bd_Source demo_image_bd))"
      "\<lambda>x. Inr (ko_GVK x)" "ko_GVK demo_unpack_pod"] 1
  show ?thesis by (simp add: demo_unpack_pod_def BundleDeploymentGVK_def)
qed

text \<open>Every container of the pod runs as an unprivileged user with all capabilities dropped.\<close>

lemma unpack_pod_restricted:
  assumes "p_Spec (getDesiredPodApplyConfig env i bd img) = Some spec"
  shows "pod_RunAsNonRoot spec \<and> \<not> pod_AutomountServiceAccountToken spec
    \<and> (\<forall>c \<in> set (pod_InitContainers spec @ pod_Containers spec).
         \<not> sc_AllowPrivilegeEscalation (c_SecurityContext c) \<and> sc_Drop (c_SecurityContext c) = [''ALL'']
         \<and> sc_RunAsUser (c_SecurityContext c) = Some 1001
         \<and> set (map fst (c_VolumeMounts c)) \<subseteq> set (pod_EmptyDirVolumes spec))"
  using assms by (auto simp: getDesiredPodApplyConfig_def unpack_security_context_def)

end
