(* ===== verification/Controller.thy ===== *)
theory Controller
  imports BD_Status Healthchecks Release Image_Sources
begin

text \<open>
  The bundle deployment controller (internal/controllers/bundledeployment/bundledeployment.go): its
  options and their validation, one reconciliation of a bundle deployment, and the request handler
  around it; and the two finalizers (pkg/finalizer). The components the controller calls through
  interfaces (unpacker, storage, handler, preflights) are fields of the controller; the
  cluster, Helm and the finalizer registry are parameters.
\<close>

section \<open>The interfaces\<close>

text \<open>The interface \<open>Storage\<close>. A nil bundle can be handed to \<open>Store\<close>.\<close>

record 'w bundle_store =
  bs_Load :: "BundleDeployment \<Rightarrow> ('w, fs_FS) M"
  bs_Store :: "BundleDeployment \<Rightarrow> fs_FS option \<Rightarrow> ('w, unit) M"
  bs_Delete :: "BundleDeployment \<Rightarrow> ('w, unit) M"
  bs_URLFor :: "BundleDeployment \<Rightarrow> ('w, string) M"

record 'w release_check =
  rc_Install :: "release option \<Rightarrow> ('w, unit) M"
  rc_Upgrade :: "release option \<Rightarrow> ('w, unit) M"

text \<open>The registry of finalizers changes the object it is given, also when it ends with an error.\<close>

type_synonym 'w finalizers = "BundleDeployment \<Rightarrow> ('w, BundleDeployment \<times> gerror option) M"

type_synonym 'w action_getter = "BundleDeployment \<Rightarrow> ('w, 'w ActionInterface) M"

section \<open>The controller and its options\<close>

record 'w controller =
  c_handler :: "handler option"
  c_provisionerID :: string
  c_acg :: "'w action_getter option"
  c_storage :: "'w bundle_store option"
  c_preflights :: "'w release_check list"
  c_unpacker :: "'w Unpacker option"
  c_finalizers :: "'w finalizers option"

definition empty_controller :: "'w controller" where
  "empty_controller = \<lparr>c_handler = None, c_provisionerID = [], c_acg = None, c_storage = None, c_preflights = [],
     c_unpacker = None, c_finalizers = None\<rparr>"

definition WithHandler :: "handler option \<Rightarrow> 'w controller \<Rightarrow> 'w controller" where
  "WithHandler h c = c\<lparr>c_handler := h\<rparr>"

definition WithProvisionerID :: "string \<Rightarrow> 'w controller \<Rightarrow> 'w controller" where
  "WithProvisionerID provisionerID c = c\<lparr>c_provisionerID := provisionerID\<rparr>"

definition WithFinalizers :: "'w finalizers option \<Rightarrow> 'w controller \<Rightarrow> 'w controller" where
  "WithFinalizers f c = c\<lparr>c_finalizers := f\<rparr>"

definition WithStorage :: "'w bundle_store option \<Rightarrow> 'w controller \<Rightarrow> 'w controller" where
  "WithStorage s c = c\<lparr>c_storage := s\<rparr>"

definition WithUnpacker :: "'w Unpacker option \<Rightarrow> 'w controller \<Rightarrow> 'w controller" where
  "WithUnpacker u c = c\<lparr>c_unpacker := u\<rparr>"

definition WithActionClientGetter :: "'w action_getter option \<Rightarrow> 'w controller \<Rightarrow> 'w controller" where
  "WithActionClientGetter acg c = c\<lparr>c_acg := acg\<rparr>"

definition WithPreflights :: "'w release_check list \<Rightarrow> 'w controller \<Rightarrow> 'w controller" where
  "WithPreflights preflights c = c\<lparr>c_preflights := preflights\<rparr>"

definition config_errors :: "'w controller \<Rightarrow> gerror list" where
  "config_errors c =
     (if c_handler c = None then [Msg ''converter is unset''] else []) @
     (if c_provisionerID c = [] then [Msg ''provisioner ID is unset''] else []) @
     (case c_acg c of None \<Rightarrow> [Msg ''action client getter is unset''] | Some _ \<Rightarrow> []) @
     (case c_storage c of None \<Rightarrow> [Msg ''storage is unset''] | Some _ \<Rightarrow> []) @
     (case c_unpacker c of None \<Rightarrow> [Msg ''unpacker is unset''] | Some _ \<Rightarrow> []) @
     (case c_finalizers c of None \<Rightarrow> [Msg ''finalizer handler is unset''] | Some _ \<Rightarrow> [])"

definition validateConfig :: "new_aggregate \<Rightarrow> 'w controller \<Rightarrow> gerror option" where
  "validateConfig NewAggregate c = NewAggregate (config_errors c)"

text \<open>
  What the manager is asked to build: the name, the filter on bundle deployments, the provisioner the pod handler maps
  to, and the namespace and provisioner of the config map handler.
\<close>

record manager_setup =
  su_Name :: string
  su_For :: "BundleDeployment \<Rightarrow> bool"
  su_PodProvisioner :: string
  su_ConfigMaps :: "BundleDeployment list result \<Rightarrow> ConfigMap \<Rightarrow> NamespacedName list"

definition controller_setup :: "string \<Rightarrow> 'w controller \<Rightarrow> manager_setup" where
  "controller_setup systemNamespace c =
     \<lparr>su_Name = ''controller.bundledeployment.'' @ c_provisionerID c,
      su_For = BundleDeploymentProvisionerFilter (c_provisionerID c),
      su_PodProvisioner = c_provisionerID c,
      su_ConfigMaps = (\<lambda>items. MapConfigMapToBundleDeploymentHandler items systemNamespace (c_provisionerID c))\<rparr>"

definition SetupWithManager ::
  "new_aggregate \<Rightarrow> (manager_setup \<Rightarrow> gerror option) \<Rightarrow> string \<Rightarrow> ('w controller \<Rightarrow> 'w controller) list \<Rightarrow> 'w controller outcome" where
  "SetupWithManager NewAggregate Build systemNamespace opts =
     (let c = foldl (\<lambda>c f. f c) empty_controller opts in
      case validateConfig NewAggregate c of
        Some err \<Rightarrow> Err (Msg (''invalid configuration: '' @ Error err))
      | None \<Rightarrow>
          (case Build (controller_setup systemNamespace c) of
             Some err \<Rightarrow> Err err
           | None \<Rightarrow> Ok c))"

section \<open>The state of a reconciliation\<close>

text \<open>
  The bundle deployment being reconciled, the kinds the controller watches, and the world.
\<close>

record 'w rstate =
  rs_bd :: BundleDeployment
  rs_watched :: "GroupVersionKind set"
  rs_world :: 'w

text \<open>A watch on the objects of a kind.\<close>

record watch =
  wt_Object :: kobject
  wt_Owner :: BundleDeployment
  wt_OnlyControllerOwner :: bool
  wt_Predicate :: "dependent_event \<Rightarrow> bool"

record 'w ctrl_libs =
  k_setSC :: cond_setter
  k_gate :: bool
  k_builder :: manifest_builder
  k_ToUnstructured :: "kobject \<Rightarrow> kobject result"
  k_Watch :: "watch \<Rightarrow> ('w, unit) M"
  k_health :: "'w \<Rightarrow> health_libs"

definition on_world :: "('w, 'a) M \<Rightarrow> ('w rstate, 'a) M" where
  "on_world m s = (case m (rs_world s) of (r, w') \<Rightarrow> (r, s\<lparr>rs_world := w'\<rparr>))"

definition set_status :: "(BundleDeploymentStatus \<Rightarrow> BundleDeploymentStatus) \<Rightarrow> 'w rstate \<Rightarrow> 'w rstate" where
  "set_status f s = s\<lparr>rs_bd := (rs_bd s)\<lparr>bd_Status := f (bd_Status (rs_bd s))\<rparr>\<rparr>"

text \<open>
  A call whose error, made into the error that is returned, is recorded in the status before the early return; and a
  call through a field that may be nil.
\<close>

definition call ::
  "('w rstate, 'a) M \<Rightarrow> (gerror \<Rightarrow> gerror) \<Rightarrow> (gerror \<Rightarrow> BundleDeploymentStatus \<Rightarrow> BundleDeploymentStatus)
   \<Rightarrow> ('a \<Rightarrow> ('w rstate, 'b) M) \<Rightarrow> ('w rstate, 'b) M" where
  "call m wrap note k s =
     (case m s of
        (Ok x, s') \<Rightarrow> k x s'
      | (Err e, s') \<Rightarrow> (Err (wrap e), set_status (note (wrap e)) s')
      | (Panic p, s') \<Rightarrow> (Panic p, s')
      | (Diverge, s') \<Rightarrow> (Diverge, s'))"

definition deref :: "'a option \<Rightarrow> ('a \<Rightarrow> ('s, 'b) M) \<Rightarrow> ('s, 'b) M" where
  "deref p k s = (case p of None \<Rightarrow> (Panic ''nil pointer dereference'', s) | Some x \<Rightarrow> k x s)"

section \<open>One reconciliation\<close>

text \<open>
  The finalizers; an error may come with a changed object or without one. \<open>k\<close> is the rest of the function.
\<close>

definition finalizer_failed :: "'w ctrl_libs \<Rightarrow> gerror \<Rightarrow> BundleDeploymentStatus \<Rightarrow> BundleDeploymentStatus" where
  "finalizer_failed K e st =
     set_cond (k_setSC K) TypeUnpacked ConditionUnknown ReasonProcessingFinalizerFailed (Error e)
       (st\<lparr>st_ResolvedSource := None, st_ContentURL := []\<rparr>)"

definition finalize_stage :: "'w ctrl_libs \<Rightarrow> 'w controller \<Rightarrow> ('w rstate, unit) M \<Rightarrow> ('w rstate, unit) M" where
  "finalize_stage K c k =
     deref (c_finalizers c) (\<lambda>Finalize s.
       (case on_world (Finalize (rs_bd s)) s of
          (Ok (bd, Some e), s') \<Rightarrow> (Err e, set_status (finalizer_failed K e) (s'\<lparr>rs_bd := bd\<rparr>))
        | (Ok (bd, None), s') \<Rightarrow> k (s'\<lparr>rs_bd := bd\<rparr>)
        | (Err e, s') \<Rightarrow> (Err e, set_status (finalizer_failed K e) s')
        | (Panic p, s') \<Rightarrow> (Panic p, s')
        | (Diverge, s') \<Rightarrow> (Diverge, s')))"

definition failing :: "'w ctrl_libs \<Rightarrow> gerror \<Rightarrow> BundleDeploymentStatus \<Rightarrow> BundleDeploymentStatus" where
  "failing K e st = fst (updateStatusUnpackFailing (k_setSC K) st e)"

definition msg_prefix :: "string \<Rightarrow> gerror \<Rightarrow> gerror" where
  "msg_prefix p e = Msg (p @ Error e)"

definition store_stage :: "'w ctrl_libs \<Rightarrow> 'w bundle_store \<Rightarrow> Result \<Rightarrow> ('w rstate, unit) M \<Rightarrow> ('w rstate, unit) M" where
  "store_stage K sto unpackResult k s =
     call (on_world (bs_Store sto (rs_bd s) (res_Bundle unpackResult))) (msg_prefix ''persist bundle content: '') (failing K) (\<lambda>_ s.
       call (on_world (bs_URLFor sto (rs_bd s))) (msg_prefix ''get content URL: '') (failing K) (\<lambda>contentURL s.
         k (set_status (\<lambda>st. updateStatusUnpacked (k_setSC K) st (res_ResolvedSource unpackResult) (res_Message unpackResult) contentURL) s)) s) s"

definition unpack_stage :: "'w ctrl_libs \<Rightarrow> 'w controller \<Rightarrow> ('w rstate, unit) M \<Rightarrow> ('w rstate, unit) M" where
  "unpack_stage K c k =
     deref (c_unpacker c) (\<lambda>unpacker s.
       call (on_world (up_Unpack unpacker (rs_bd s))) (msg_prefix ''source bundle content: '') (failing K) (\<lambda>unpackResult s.
         if res_State unpackResult = StatePending
         then (Ok (), set_status (\<lambda>st. updateStatusUnpackPending (k_setSC K) st (res_Message unpackResult)) s)
         else if res_State unpackResult = StateUnpacking
         then (Ok (), set_status (\<lambda>st. updateStatusUnpacking (k_setSC K) st (res_Message unpackResult)) s)
         else if res_State unpackResult = StateUnpacked
         then deref (c_storage c) (\<lambda>sto. store_stage K sto unpackResult k) s
         else (let err = Msg (''unknown unpack state '' @ fmt_q (res_State unpackResult) @ '': <nil>'') in
               (Err err, set_status (failing K err) s))) s)"

definition not_installed :: "'w ctrl_libs \<Rightarrow> string \<Rightarrow> gerror \<Rightarrow> BundleDeploymentStatus \<Rightarrow> BundleDeploymentStatus" where
  "not_installed K reason e st = setInstalledAndHealthyFalse (k_setSC K) (k_gate K) st reason (Error e)"

definition load_stage :: "'w ctrl_libs \<Rightarrow> 'w controller \<Rightarrow> (chart \<times> json option \<Rightarrow> ('w rstate, unit) M) \<Rightarrow> ('w rstate, unit) M" where
  "load_stage K c k =
     deref (c_storage c) (\<lambda>sto s.
       call (on_world (bs_Load sto (rs_bd s))) id
         (\<lambda>e. set_cond (k_setSC K) TypeHasValidBundle ConditionFalse ReasonBundleLoadFailed (Error e)) (\<lambda>bundleFS.
         deref (c_handler c) (\<lambda>Handle s.
           call (\<lambda>s. (Handle bundleFS (rs_bd s), s)) id
             (\<lambda>e. set_cond (k_setSC K) TypeInstalled ConditionFalse ReasonInstallFailed (Error e)) k s)) s)"

text \<open>The client and the state of the release; its error is one of four results.\<close>

definition release_stage ::
  "'w ctrl_libs \<Rightarrow> 'w controller \<Rightarrow> chart \<times> json option
   \<Rightarrow> ('w ActionInterface \<Rightarrow> release option \<Rightarrow> release option \<Rightarrow> releaseState \<Rightarrow> ('w rstate, unit) M) \<Rightarrow> ('w rstate, unit) M" where
  "release_stage K c cv k =
     deref (c_acg c) (\<lambda>ActionClientFor s.
       call (on_world (ActionClientFor (rs_bd s))) id (not_installed K ReasonErrorGettingClient) (\<lambda>cl s.
         call (on_world (getReleaseState cl (rs_bd s) (fst cv) (snd cv) (owner_postrenderer (rs_bd s)))) id (\<lambda>_ st. st)
           (\<lambda>(rel, desiredRel, state, err) s.
              (case err of
                 Some e \<Rightarrow> (Err e, set_status (not_installed K ReasonErrorGettingReleaseState e) s)
               | None \<Rightarrow> k cl rel desiredRel state s)) s) s)"

fun preflight_stage ::
  "'w ctrl_libs \<Rightarrow> 'w release_check list \<Rightarrow> releaseState \<Rightarrow> release option \<Rightarrow> ('w rstate, unit) M \<Rightarrow> ('w rstate, unit) M" where
  "preflight_stage K [] state desiredRel k = k"
| "preflight_stage K (preflight # preflights) state desiredRel k =
     (if state = stateNeedsInstall
      then call (on_world (rc_Install preflight desiredRel)) id (not_installed K ReasonInstallFailed) (\<lambda>_. preflight_stage K preflights state desiredRel k)
      else if state = stateNeedsUpgrade
      then call (on_world (rc_Upgrade preflight desiredRel)) id (not_installed K ReasonInstallFailed) (\<lambda>_. preflight_stage K preflights state desiredRel k)
      else preflight_stage K preflights state desiredRel k)"

definition apply_stage ::
  "'w ctrl_libs \<Rightarrow> 'w ActionInterface \<Rightarrow> chart \<times> json option \<Rightarrow> postrenderer \<Rightarrow> release option \<Rightarrow> releaseState
   \<Rightarrow> (release option \<Rightarrow> ('w rstate, unit) M) \<Rightarrow> ('w rstate, unit) M" where
  "apply_stage K cl cv post rel state k s =
     (let name = bd_Name (rs_bd s); ns = spec_InstallNamespace (bd_Spec (rs_bd s)) in
      if state = stateNeedsInstall
      then call (on_world (ai_Install cl name ns (fst cv) (snd cv) [CreateNamespace False, AppendPostRenderer post]))
             classify_release_error (not_installed K ReasonInstallFailed) (\<lambda>rel. k (Some rel)) s
      else if state = stateNeedsUpgrade
      then call (on_world (ai_Upgrade cl name ns (fst cv) (snd cv) [AppendPostRenderer post]))
             classify_release_error (not_installed K ReasonUpgradeFailed) (\<lambda>rel. k (Some rel)) s
      else if state = stateUnchanged
      then deref rel (\<lambda>current. call (on_world (ai_Reconcile cl current))
             classify_release_error (not_installed K ReasonReconcileFailed) (\<lambda>_. k rel)) s
      else (Err (Msg (''unexpected release state '' @ fmt_q state)), s))"

text \<open>One object: watch its kind unless the controller does already.\<close>

definition watch_object :: "'w ctrl_libs \<Rightarrow> kobject \<Rightarrow> ('w rstate, unit) M" where
  "watch_object K obj s =
     (if ko_GVK obj \<in> rs_watched s then (Ok (), s)
      else
        (case on_world (k_Watch K \<lparr>wt_Object = obj, wt_Owner = rs_bd s, wt_OnlyControllerOwner = True, wt_Predicate = DependentPredicateFuncs\<rparr>) s of
           (Ok _, s') \<Rightarrow> (Ok (), s'\<lparr>rs_watched := insert (ko_GVK obj) (rs_watched s')\<rparr>)
         | r \<Rightarrow> r))"

fun watch_stage :: "'w ctrl_libs \<Rightarrow> kobject list \<Rightarrow> ('w rstate, unit) M \<Rightarrow> ('w rstate, unit) M" where
  "watch_stage K [] k = k"
| "watch_stage K (obj # objs) k =
     call (\<lambda>s. (lift_result (k_ToUnstructured K obj), s)) id (not_installed K ReasonCreateDynamicWatchFailed) (\<lambda>unstructuredObj.
       call (watch_object K unstructuredObj) id (not_installed K ReasonCreateDynamicWatchFailed) (\<lambda>_. watch_stage K objs k))"

definition health_stage :: "'w ctrl_libs \<Rightarrow> kobject list \<Rightarrow> ('w rstate, unit) M" where
  "health_stage K relObjects s =
     (let s = set_status (\<lambda>st. set_cond (k_setSC K) TypeInstalled ConditionTrue ReasonInstallationSucceeded
                                (''Instantiated bundle '' @ bd_Name (rs_bd s) @ '' successfully'') st) s in
      if k_gate K
      then call (\<lambda>s. (AreObjectsHealthy (k_health K (rs_world s)) relObjects, s)) id
             (\<lambda>e. set_cond (k_setSC K) TypeHealthy ConditionFalse ReasonUnhealthy (Error e))
             (\<lambda>_ s. (Ok (), set_status (set_cond (k_setSC K) TypeHealthy ConditionTrue ReasonHealthy ''BundleDeployment is healthy'') s)) s
      else (Ok (), s))"

definition objects_stage :: "'w ctrl_libs \<Rightarrow> release option \<Rightarrow> ('w rstate, unit) M" where
  "objects_stage K rel =
     deref rel (\<lambda>r.
       call (\<lambda>s. (ManifestObjects (k_builder K) (rel_Manifest r) (rel_Name r @ ''-release-manifest''), s)) id
         (not_installed K ReasonCreateDynamicWatchFailed) (\<lambda>relObjects.
         watch_stage K relObjects (health_stage K relObjects)))"

definition deploy_stage :: "'w ctrl_libs \<Rightarrow> 'w controller \<Rightarrow> chart \<times> json option \<Rightarrow> ('w rstate, unit) M" where
  "deploy_stage K c cv s =
     release_stage K c cv (\<lambda>cl rel desiredRel state.
       preflight_stage K (c_preflights c) state desiredRel
         (apply_stage K cl cv (owner_postrenderer (rs_bd s)) rel state (objects_stage K))) s"

definition reconcile :: "'w ctrl_libs \<Rightarrow> 'w controller \<Rightarrow> ('w rstate, unit) M" where
  "reconcile K c s =
     finalize_stage K c (unpack_stage K c (load_stage K c (deploy_stage K c)))
       (set_status (\<lambda>st. st\<lparr>st_ObservedGeneration := om_Generation (bd_Meta (rs_bd s))\<rparr>) s)"

section \<open>The request handler\<close>

text \<open>
  The client's calls on bundle deployments (an update gives the object as the server returned it) and the comparisons
  of \<open>equality.Semantic\<close>.
\<close>

record 'w bd_client =
  bc_Get :: "NamespacedName \<Rightarrow> ('w, BundleDeployment) M"
  bc_StatusUpdate :: "BundleDeployment \<Rightarrow> ('w, BundleDeployment) M"
  bc_Update :: "BundleDeployment \<Rightarrow> ('w, BundleDeployment) M"

record semantic =
  eq_Status :: "BundleDeploymentStatus \<Rightarrow> BundleDeploymentStatus \<Rightarrow> bool"
  eq_Finalizers :: "string list \<Rightarrow> string list \<Rightarrow> bool"
  eq_BD :: "BundleDeployment \<Rightarrow> BundleDeployment \<Rightarrow> bool"

text \<open>The object without its status and finalizers.\<close>

definition bd_core :: "BundleDeployment \<Rightarrow> BundleDeployment" where
  "bd_core a = a\<lparr>bd_Status := empty_status, bd_Meta := (bd_Meta a)\<lparr>om_Finalizers := []\<rparr>\<rparr>"

definition checkForUnexpectedFieldChange :: "semantic \<Rightarrow> BundleDeployment \<Rightarrow> BundleDeployment \<Rightarrow> bool" where
  "checkForUnexpectedFieldChange E a b = (\<not> eq_BD E (bd_core a) (bd_core b))"

definition err_option :: "gerror option \<Rightarrow> unit outcome" where
  "err_option err = (case err of None \<Rightarrow> Ok () | Some e \<Rightarrow> Err e)"

definition update_aggregate :: "new_aggregate \<Rightarrow> gerror option \<Rightarrow> gerror \<Rightarrow> unit outcome" where
  "update_aggregate NewAggregate reconcileErr updateErr =
     err_option (NewAggregate ((case reconcileErr of None \<Rightarrow> [] | Some e \<Rightarrow> [e]) @ [updateErr]))"

text \<open>A write of the object, if it is needed; its error is returned together with that of the reconciliation.\<close>

definition write_back ::
  "new_aggregate \<Rightarrow> gerror option \<Rightarrow> bool \<Rightarrow> (BundleDeployment \<Rightarrow> ('w, BundleDeployment) M) \<Rightarrow> BundleDeployment
   \<Rightarrow> (BundleDeployment \<Rightarrow> ('w, unit) M) \<Rightarrow> ('w, unit) M" where
  "write_back NewAggregate reconcileErr needed Write bd k w =
     (if \<not> needed then k bd w
      else
        (case Write bd w of
           (Ok bd', w') \<Rightarrow> k bd' w'
         | (Err updateErr, w') \<Rightarrow> (update_aggregate NewAggregate reconcileErr updateErr, w')
         | (Panic p, w') \<Rightarrow> (Panic p, w')
         | (Diverge, w') \<Rightarrow> (Diverge, w')))"

definition finish ::
  "new_aggregate \<Rightarrow> semantic \<Rightarrow> 'w bd_client \<Rightarrow> BundleDeployment \<Rightarrow> BundleDeployment \<Rightarrow> gerror option \<Rightarrow> ('w, unit) M" where
  "finish NewAggregate E cl existingBD reconciledBD reconcileErr =
     (let updateStatus = \<not> eq_Status E (bd_Status existingBD) (bd_Status reconciledBD);
          updateFinalizers = \<not> eq_Finalizers E (om_Finalizers (bd_Meta existingBD)) (om_Finalizers (bd_Meta reconciledBD));
          unexpectedFieldsChanged = checkForUnexpectedFieldChange E existingBD reconciledBD
      in write_back NewAggregate reconcileErr updateStatus (bc_StatusUpdate cl) reconciledBD (\<lambda>reconciledBD w.
           if unexpectedFieldsChanged then (Panic ''spec or metadata changed by reconciler'', w)
           else write_back NewAggregate reconcileErr updateFinalizers (bc_Update cl) reconciledBD (\<lambda>_ w.
             (err_option reconcileErr, w)) w))"

definition Reconcile ::
  "new_aggregate \<Rightarrow> semantic \<Rightarrow> 'w ctrl_libs \<Rightarrow> 'w bd_client \<Rightarrow> 'w controller \<Rightarrow> NamespacedName
   \<Rightarrow> (GroupVersionKind set \<times> 'w, unit) M" where
  "Reconcile NewAggregate E K cl c req x =
     (case x of (watched, w) \<Rightarrow>
        (case bc_Get cl req w of
           (Err err, w1) \<Rightarrow> (err_option (IgnoreNotFound err), (watched, w1))
         | (Panic p, w1) \<Rightarrow> (Panic p, (watched, w1))
         | (Diverge, w1) \<Rightarrow> (Diverge, (watched, w1))
         | (Ok existingBD, w1) \<Rightarrow>
             (case reconcile K c \<lparr>rs_bd = existingBD, rs_watched = watched, rs_world = w1\<rparr> of
                (Panic p, s) \<Rightarrow> (Panic p, (rs_watched s, rs_world s))
              | (Diverge, s) \<Rightarrow> (Diverge, (rs_watched s, rs_world s))
              | (Ok _, s) \<Rightarrow>
                  (case finish NewAggregate E cl existingBD (rs_bd s) None (rs_world s) of (r, w2) \<Rightarrow> (r, (rs_watched s, w2)))
              | (Err e, s) \<Rightarrow>
                  (case finish NewAggregate E cl existingBD (rs_bd s) (Some e) (rs_world s) of (r, w2) \<Rightarrow> (r, (rs_watched s, w2))))))"

section \<open>Finalizers\<close>

definition CleanupUnpackCacheKey :: string where "CleanupUnpackCacheKey = ''core.rukpak.io/cleanup-unpack-cache''"
definition DeleteCachedBundleKey :: string where "DeleteCachedBundleKey = ''core.rukpak.io/delete-cached-bundle''"

definition CleanupUnpackCache_Finalize :: "'w Unpacker \<Rightarrow> BundleDeployment \<Rightarrow> ('w, unit) M" where
  "CleanupUnpackCache_Finalize unpacker obj = up_Cleanup unpacker obj"

definition DeleteCachedBundle_Finalize :: "'w bundle_store \<Rightarrow> BundleDeployment \<Rightarrow> ('w, unit) M" where
  "DeleteCachedBundle_Finalize sto obj = bs_Delete sto obj"

section \<open>Rules for the stages\<close>

text \<open>
  Each rule reduces a statement about how a stage ends to statements about its exits.
\<close>

named_theorems exits \<open>rules that go from a stage to its exits\<close>

lemma call_exits [exits]:
  assumes "\<And>x s'. m s = (Ok x, s') \<Longrightarrow> Q (k x s')"
    and "\<And>e s'. m s = (Err e, s') \<Longrightarrow> Q (Err (wrap e), set_status (note (wrap e)) s')"
    and "\<And>p s'. m s = (Panic p, s') \<Longrightarrow> Q (Panic p, s')"
    and "\<And>s'. m s = (Diverge, s') \<Longrightarrow> Q (Diverge, s')"
  shows "Q (call m wrap note k s)"
  using assms unfolding call_def by (cases "m s"; cases "fst (m s)") auto

lemma deref_exits [exits]:
  assumes "p = None \<Longrightarrow> Q (Panic ''nil pointer dereference'', s)" and "\<And>x. p = Some x \<Longrightarrow> Q (k x s)"
  shows "Q (deref p k s)"
  using assms unfolding deref_def by (cases p) auto

lemma on_world_iff: "on_world m s = (r, s') \<longleftrightarrow> (\<exists>w'. m (rs_world s) = (r, w') \<and> s' = s\<lparr>rs_world := w'\<rparr>)"
  by (auto simp: on_world_def split: prod.splits)

lemma on_world_keeps:
  "on_world m s = (r, s') \<Longrightarrow> rs_bd s' = rs_bd s"
  "on_world m s = (r, s') \<Longrightarrow> rs_watched s' = rs_watched s"
  by (auto simp: on_world_iff)

lemma set_status_fields [simp]:
  "bd_Status (rs_bd (set_status f s)) = f (bd_Status (rs_bd s))"
  "rs_watched (set_status f s) = rs_watched s" "rs_world (set_status f s) = rs_world s"
  "bd_Meta (rs_bd (set_status f s)) = bd_Meta (rs_bd s)" "bd_Spec (rs_bd (set_status f s)) = bd_Spec (rs_bd s)"
  by (simp_all add: set_status_def)

lemma bd_core_set_status [simp]: "bd_core (rs_bd (set_status f s)) = bd_core (rs_bd s)"
  by (simp add: set_status_def bd_core_def)

lemma watch_object_cases:
  assumes "watch_object K obj s = (r, s')"
  obtains "s' = s" "ko_GVK obj \<in> rs_watched s" "r = Ok ()"
  | w' where "s' = s\<lparr>rs_world := w', rs_watched := insert (ko_GVK obj) (rs_watched s)\<rparr>" "r = Ok ()"
  | w' where "s' = s\<lparr>rs_world := w'\<rparr>" "\<not> is_ok r"
  using assms
  by (auto simp: watch_object_def on_world_iff split: if_splits prod.splits outcome.splits)

lemma finalize_exits:
  assumes "c_finalizers c = None \<Longrightarrow> Q (Panic ''nil pointer dereference'', s)"
    and "\<And>F bd s'. c_finalizers c = Some F \<Longrightarrow> on_world (F (rs_bd s)) s = (Ok (bd, None), s') \<Longrightarrow> Q (k (s'\<lparr>rs_bd := bd\<rparr>))"
    and "\<And>F bd e s'. c_finalizers c = Some F \<Longrightarrow> on_world (F (rs_bd s)) s = (Ok (bd, Some e), s')
           \<Longrightarrow> Q (Err e, set_status (finalizer_failed K e) (s'\<lparr>rs_bd := bd\<rparr>))"
    and "\<And>F e s'. c_finalizers c = Some F \<Longrightarrow> on_world (F (rs_bd s)) s = (Err e, s') \<Longrightarrow> Q (Err e, set_status (finalizer_failed K e) s')"
    and "\<And>F p s'. c_finalizers c = Some F \<Longrightarrow> on_world (F (rs_bd s)) s = (Panic p, s') \<Longrightarrow> Q (Panic p, s')"
    and "\<And>F s'. c_finalizers c = Some F \<Longrightarrow> on_world (F (rs_bd s)) s = (Diverge, s') \<Longrightarrow> Q (Diverge, s')"
  shows "Q (finalize_stage K c k s)"
proof (cases "c_finalizers c")
  case None
  then show ?thesis using assms(1) by (simp add: finalize_stage_def deref_def)
next
  case (Some F)
  show ?thesis
    using assms(2-) [OF Some] Some unfolding finalize_stage_def deref_def
    by (cases "on_world (F (rs_bd s)) s") (auto split: outcome.split option.split)
qed

text \<open>An unrecoverable error of the unpacker is returned as a plain error with its message.\<close>

lemma unrecoverable_error_requeued:
  assumes "c_unpacker c = Some u" and "up_Unpack u (rs_bd s) (rs_world s) = (Err (Unrecoverable e), w')"
  shows "unpack_stage K c k s = (Err (Msg (''source bundle content: '' @ Error e)),
     set_status (failing K (Msg (''source bundle content: '' @ Error e))) (s\<lparr>rs_world := w'\<rparr>))"
  using assms by (simp add: unpack_stage_def deref_def call_def on_world_def msg_prefix_def)

section \<open>What a reconciliation leaves alone\<close>

text \<open>
  A property of the state that every call a controller makes keeps: those through its unpacker, its storage, its Helm clients and its preflights, the
  watches, and the changes of the status. It is kept by every stage, however the stage ends.
\<close>

definition safe_call :: "('w rstate \<Rightarrow> bool) \<Rightarrow> ('w, 'a) M \<Rightarrow> bool" where
  "safe_call I m \<longleftrightarrow> (\<forall>s r w'. I s \<longrightarrow> m (rs_world s) = (r, w') \<longrightarrow> I (s\<lparr>rs_world := w'\<rparr>))"

definition safe_client :: "('w rstate \<Rightarrow> bool) \<Rightarrow> 'w ActionInterface \<Rightarrow> bool" where
  "safe_client I cl \<longleftrightarrow>
     (\<forall>n. safe_call I (ai_Get cl n)) \<and> (\<forall>n ns ch v opts. safe_call I (ai_Install cl n ns ch v opts) \<and> safe_call I (ai_Upgrade cl n ns ch v opts)) \<and>
     (\<forall>rel. safe_call I (ai_Reconcile cl rel))"

lemma safe_callD: "safe_call I m \<Longrightarrow> I s \<Longrightarrow> on_world m s = (r, s') \<Longrightarrow> I s'"
  by (auto simp: safe_call_def on_world_iff)

lemma safe_callD': "safe_call I m \<Longrightarrow> I s \<Longrightarrow> m (rs_world s) = (r, w') \<Longrightarrow> I (s\<lparr>rs_world := w'\<rparr>)"
  by (simp add: safe_call_def)

lemma safe_release_state:
  fixes I :: "'w rstate \<Rightarrow> bool"
  assumes cl: "safe_client I cl"
  shows "safe_call I (getReleaseState cl bd ch v post)"
proof -
  have keep: "I (s\<lparr>rs_world := w2\<rparr>)" if "I s" "ai_Get cl n (rs_world s) = (r1, w1)" "m w1 = (r2, w2)" "safe_call I m" for s n r1 w1 r2 w2 and m :: "('w, release) M"
    using that cl safe_callD' [of I m "s\<lparr>rs_world := w1\<rparr>"] safe_callD' [of I "ai_Get cl n" s] by (simp add: safe_client_def)
  have get: "I (s\<lparr>rs_world := w1\<rparr>)" if "I s" "ai_Get cl n (rs_world s) = (r1, w1)" for s n r1 w1
    using that cl safe_callD' [of I "ai_Get cl n" s] by (simp add: safe_client_def)
  have run: "safe_call I (ai_Install cl n ns ch v opts)" "safe_call I (ai_Upgrade cl n ns ch v opts)" for n ns ch v opts
    using cl by (simp_all add: safe_client_def)
  show ?thesis
    unfolding safe_call_def getReleaseState_def
    by (auto split: prod.splits outcome.splits if_splits intro: get keep [OF _ _ _ run(1)] keep [OF _ _ _ run(2)])
qed

locale call_invariant =
  fixes I :: "'w rstate \<Rightarrow> bool" and K :: "'w ctrl_libs" and c :: "'w controller"
  assumes status: "I s \<Longrightarrow> I (set_status f s)"
    and unpacker: "c_unpacker c = Some u \<Longrightarrow> safe_call I (up_Unpack u bd)"
    and storage: "c_storage c = Some sto \<Longrightarrow> safe_call I (bs_Store sto bd b)" "c_storage c = Some sto \<Longrightarrow> safe_call I (bs_URLFor sto bd)"
      "c_storage c = Some sto \<Longrightarrow> safe_call I (bs_Load sto bd)"
    and getter: "c_acg c = Some g \<Longrightarrow> safe_call I (g bd)" "c_acg c = Some g \<Longrightarrow> g bd w = (Ok cl, w') \<Longrightarrow> safe_client I cl"
    and checks: "p \<in> set (c_preflights c) \<Longrightarrow> safe_call I (rc_Install p rel) \<and> safe_call I (rc_Upgrade p rel)"
    and watch: "I s \<Longrightarrow> watch_object K obj s = (r, s') \<Longrightarrow> I s'"
begin

lemmas call_keeps = call_exits [where Q = "\<lambda>x. I (snd x)"]
lemmas deref_keeps = deref_exits [where Q = "\<lambda>x. I (snd x)"]

lemma call_world:
  assumes "safe_call I m" and "I s" and "\<And>x s'. I s' \<Longrightarrow> on_world m s = (Ok x, s') \<Longrightarrow> I (snd (k x s'))"
  shows "I (snd (call (on_world m) wrap rec k s))"
  by (rule call_keeps) (use safe_callD [OF assms(1,2)] assms(3) status in simp_all)

lemma call_pure: "I s \<Longrightarrow> (\<And>x s. I s \<Longrightarrow> I (snd (k x s))) \<Longrightarrow> I (snd (call (\<lambda>s. (f s, s)) wrap rec k s))"
  by (rule call_keeps) (auto intro: status)

lemma preflights:
  assumes "\<And>s. I s \<Longrightarrow> I (snd (k s))" and "I s" and "set ps \<subseteq> set (c_preflights c)"
  shows "I (snd (preflight_stage K ps state d k s))"
  using assms(2,3)
proof (induction ps arbitrary: s)
  case (Cons p ps)
  then show ?case
    using checks [of p] by (auto intro!: call_world)
qed (simp add: assms(1))

lemma watches:
  assumes "\<And>s. I s \<Longrightarrow> I (snd (k s))" and "I s"
  shows "I (snd (watch_stage K objs k s))"
  using assms(2)
proof (induction objs arbitrary: s)
  case (Cons obj objs)
  have "I (snd (call (watch_object K u) id rec (\<lambda>_. watch_stage K objs k) s'))" if "I s'" for u rec s'
    by (rule call_keeps) (use Cons.IH watch [OF that] status in simp_all)
  with Cons.prems show ?case by (simp add: call_pure)
qed (simp add: assms(1))

lemma health: "I s \<Longrightarrow> I (snd (health_stage K objs s))"
  by (auto simp: health_stage_def Let_def intro!: call_pure status)

lemma objects: "I s \<Longrightarrow> I (snd (objects_stage K rel s))"
  by (auto simp: objects_stage_def intro!: call_pure deref_keeps watches health)

lemma applies:
  assumes "safe_client I cl" and "\<And>rel s. I s \<Longrightarrow> I (snd (k rel s))" and "I s"
  shows "I (snd (apply_stage K cl cv post rel state k s))"
  using assms(1,3) unfolding safe_client_def
  by (auto simp: apply_stage_def Let_def intro!: call_world deref_keeps assms(2))

lemma deploys:
  assumes "I s"
  shows "I (snd (deploy_stage K c cv s))"
  unfolding deploy_stage_def release_stage_def
proof (rule deref_keeps, goal_cases)
  case (2 g)
  show ?case
  proof (rule call_world [OF getter(1) [OF 2] assms], goal_cases)
    case (1 cl s1)
    then have cl: "safe_client I cl" using getter(2) [OF 2] by (auto simp: on_world_iff)
    show ?case
      by (rule call_world [OF safe_release_state [OF cl] 1(1)])
         (auto split: option.split intro!: status preflights applies [OF cl] objects)
  qed
qed (simp add: assms)

lemma loads:
  assumes "\<And>cv s. I s \<Longrightarrow> I (snd (k cv s))" and "I s"
  shows "I (snd (load_stage K c k s))"
  using assms(2) by (auto simp: load_stage_def intro!: call_world call_pure deref_keeps assms(1) storage)

lemma stores:
  assumes "\<And>s. I s \<Longrightarrow> I (snd (k s))" and "I s" and "c_storage c = Some sto"
  shows "I (snd (store_stage K sto res k s))"
  using assms(2) by (auto simp: store_stage_def intro!: call_world assms(1) status storage [OF assms(3)])

lemma unpacks:
  assumes "\<And>s. I s \<Longrightarrow> I (snd (k s))" and "I s"
  shows "I (snd (unpack_stage K c k s))"
  using assms(2) by (auto simp: unpack_stage_def Let_def intro!: call_world deref_keeps stores assms(1) status unpacker)

lemma reconciles:
  assumes "\<And>F s r s'. c_finalizers c = Some F \<Longrightarrow> on_world (F (rs_bd s)) s = (r, s') \<Longrightarrow> I s
      \<Longrightarrow> I s' \<and> (\<forall>bd e. r = Ok (bd, e) \<longrightarrow> I (s'\<lparr>rs_bd := bd\<rparr>))" and "I s"
  shows "I (snd (reconcile K c s))"
proof -
  have "I (snd (finalize_stage K c k s))" if "\<And>s. I s \<Longrightarrow> I (snd (k s))" "I s" for k s
    by (rule finalize_exits [where Q = "\<lambda>x. I (snd x)"])
       (use that(2) in \<open>simp_all\<close>, (blast dest: assms(1) intro: that(1) status)+)
  then show ?thesis
    using assms(2) unfolding reconcile_def by (simp add: status unpacks loads deploys)
qed

end

text \<open>A property that no change of the world can break is one that every call keeps.\<close>

locale stage_invariant =
  fixes I :: "'w rstate \<Rightarrow> bool"
  assumes world: "I s \<Longrightarrow> I (s\<lparr>rs_world := w'\<rparr>)"
    and status: "I s \<Longrightarrow> I (set_status f s)"
    and watched: "I s \<Longrightarrow> I (s\<lparr>rs_watched := insert g (rs_watched s)\<rparr>)"
begin

lemma every_call: "safe_call I m"
  by (simp add: safe_call_def world)

lemma watch_object: "I s \<Longrightarrow> watch_object K obj s = (r, s') \<Longrightarrow> I s'"
  using watched [OF world] by (erule_tac watch_object_cases) (simp_all add: world)

end

sublocale stage_invariant \<subseteq> stages: call_invariant I K c for K c
  by unfold_locales (auto intro: every_call status watch_object simp: safe_client_def)

context stage_invariant
begin

lemma reconciles:
  assumes "\<And>F s bd e w'. c_finalizers c = Some F \<Longrightarrow> F (rs_bd s) (rs_world s) = (Ok (bd, e), w') \<Longrightarrow> I s \<Longrightarrow> I (s\<lparr>rs_bd := bd\<rparr>)"
    and "I s"
  shows "I (snd (reconcile K c s))"
proof (rule stages.reconciles [OF _ assms(2)])
  fix F s r s' assume F: "c_finalizers c = Some F" "on_world (F (rs_bd s)) s = (r, s')" and I: "I s"
  have swap: "s\<lparr>rs_world := w', rs_bd := bd\<rparr> = s\<lparr>rs_bd := bd, rs_world := w'\<rparr>" for w' bd
    by (cases s) simp
  show "I s' \<and> (\<forall>bd e. r = Ok (bd, e) \<longrightarrow> I (s'\<lparr>rs_bd := bd\<rparr>))"
    using F assms(1) [OF F(1) _ I] world I by (auto simp: on_world_iff swap)
qed

end

text \<open>The two invariants: the object but for status and finalizers, and a lower bound of the watched kinds.\<close>

interpretation core_kept: stage_invariant "\<lambda>s. bd_core (rs_bd s) = b" for b
  by unfold_locales simp_all

interpretation watches_grow: stage_invariant "\<lambda>s. W \<subseteq> rs_watched s" for W
  by unfold_locales auto

section \<open>What the status says\<close>

text \<open>
  The status of a bundle that is on its way, of one that is deployed, and of an error: some condition that is
  not true carries its message.
\<close>

definition waiting_status :: "BundleDeploymentStatus \<Rightarrow> bool" where
  "waiting_status st \<longleftrightarrow>
     (\<exists>reason m. bd_cond st TypeUnpacked = Some (ConditionFalse, reason, m) \<and> reason \<in> {ReasonUnpackPending, ReasonUnpacking})
     \<and> st_ResolvedSource st = None \<and> st_ContentURL st = []"

definition unpacked_status :: "BundleDeploymentStatus \<Rightarrow> bool" where
  "unpacked_status st \<longleftrightarrow> (\<exists>m. bd_cond st TypeUnpacked = Some (ConditionTrue, ReasonUnpackSuccessful, m))"

definition deployed_status :: "bool \<Rightarrow> BundleDeploymentStatus \<Rightarrow> bool" where
  "deployed_status gate st \<longleftrightarrow>
     unpacked_status st \<and> (\<exists>m. bd_cond st TypeInstalled = Some (ConditionTrue, ReasonInstallationSucceeded, m))
     \<and> (gate \<longrightarrow> (\<exists>m. bd_cond st TypeHealthy = Some (ConditionTrue, ReasonHealthy, m)))"

definition failed_status :: "gerror \<Rightarrow> BundleDeploymentStatus \<Rightarrow> bool" where
  "failed_status e st \<longleftrightarrow>
     (if unpacked_status st
      then \<exists>t\<in>{TypeHasValidBundle, TypeInstalled, TypeHealthy}. \<exists>reason. bd_cond st t = Some (ConditionFalse, reason, Error e)
      else st_ResolvedSource st = None \<and> st_ContentURL st = [] \<and>
           (\<exists>status reason. bd_cond st TypeUnpacked = Some (status, reason, Error e) \<and> status \<noteq> ConditionTrue))"

definition status_reports :: "'w ctrl_libs \<Rightarrow> unit outcome \<times> 'w rstate \<Rightarrow> bool" where
  "status_reports K x \<longleftrightarrow>
     (case x of (r, s) \<Rightarrow>
        (case r of
           Ok _ \<Rightarrow> waiting_status (bd_Status (rs_bd s)) \<or> deployed_status (k_gate K) (bd_Status (rs_bd s))
         | Err e \<Rightarrow> failed_status e (bd_Status (rs_bd s))
         | _ \<Rightarrow> True))"

lemma status_reports_simps [simp]:
  "status_reports K (Panic p, s)" "status_reports K (Diverge, s)"
  "status_reports K (Err e, s) \<longleftrightarrow> failed_status e (bd_Status (rs_bd s))"
  "status_reports K (Ok u, s) \<longleftrightarrow> waiting_status (bd_Status (rs_bd s)) \<or> deployed_status (k_gate K) (bd_Status (rs_bd s))"
  by (simp_all add: status_reports_def)

lemmas statuses = waiting_status_def unpacked_status_def deployed_status_def failed_status_def

text \<open>What each of the writers at the exits leaves.\<close>

lemma exit_status:
  assumes "condition_setter (k_setSC K)"
  shows "failed_status e (finalizer_failed K e st)"
    and "failed_status e (failing K e st)"
    and "waiting_status (updateStatusUnpackPending (k_setSC K) st m)" "waiting_status (updateStatusUnpacking (k_setSC K) st m)"
    and "unpacked_status (updateStatusUnpacked (k_setSC K) st rs m url)"
    and "unpacked_status st \<Longrightarrow> failed_status e (not_installed K reason e st)"
    and "unpacked_status st \<Longrightarrow> failed_status e (set_cond (k_setSC K) TypeHasValidBundle ConditionFalse reason (Error e) st)"
    and "unpacked_status st \<Longrightarrow> failed_status e (set_cond (k_setSC K) TypeInstalled ConditionFalse reason (Error e) st)"
    and "unpacked_status st \<Longrightarrow> failed_status e (set_cond (k_setSC K) TypeHealthy ConditionFalse reason (Error e) st)"
  using assms
  by (auto simp: finalizer_failed_def failing_def not_installed_def status_writers statuses set_cond_view Let_def)

lemma health_reports:
  assumes "condition_setter (k_setSC K)" and "unpacked_status (bd_Status (rs_bd s))"
  shows "status_reports K (health_stage K objs s)"
  using assms unfolding health_stage_def Let_def
  by (auto intro!: call_exits [where Q = "status_reports K"] simp: statuses set_cond_view)

lemma watch_object_bd: "watch_object K obj s = (r, s') \<Longrightarrow> rs_bd s' = rs_bd s"
  by (erule watch_object_cases) simp_all

lemma watch_reports:
  assumes "condition_setter (k_setSC K)"
    and "\<And>s. unpacked_status (bd_Status (rs_bd s)) \<Longrightarrow> status_reports K (k s)" and "unpacked_status (bd_Status (rs_bd s))"
  shows "status_reports K (watch_stage K objs k s)"
  using assms(3)
proof (induction objs arbitrary: s)
  case (Cons obj objs)
  then show ?case
    by (auto intro!: call_exits [where Q = "status_reports K"] exit_status [OF assms(1)] dest!: watch_object_bd)
qed (simp add: assms(2))

lemma preflight_reports:
  assumes "condition_setter (k_setSC K)"
    and "\<And>s. unpacked_status (bd_Status (rs_bd s)) \<Longrightarrow> status_reports K (k s)" and "unpacked_status (bd_Status (rs_bd s))"
  shows "status_reports K (preflight_stage K ps state d k s)"
  using assms(3)
proof (induction ps arbitrary: s)
  case (Cons p ps)
  then show ?case
    by (auto intro!: call_exits [where Q = "status_reports K"] exit_status [OF assms(1)] dest!: on_world_keeps(1))
qed (simp add: assms(2))

lemma objects_reports:
  assumes "condition_setter (k_setSC K)" and "unpacked_status (bd_Status (rs_bd s))"
  shows "status_reports K (objects_stage K rel s)"
  using assms unfolding objects_stage_def
  by (auto intro!: exits [where Q = "status_reports K"] exit_status [OF assms(1)] watch_reports health_reports)

definition known_state :: "releaseState \<Rightarrow> bool" where
  "known_state state \<longleftrightarrow> state \<in> {stateNeedsInstall, stateNeedsUpgrade, stateUnchanged}"

lemma apply_reports:
  assumes "condition_setter (k_setSC K)" and "known_state state"
    and "\<And>rel s. unpacked_status (bd_Status (rs_bd s)) \<Longrightarrow> status_reports K (k rel s)" and "unpacked_status (bd_Status (rs_bd s))"
  shows "status_reports K (apply_stage K cl cv post rel state k s)"
  using assms unfolding apply_stage_def Let_def known_state_def
  by (auto intro!: exits [where Q = "status_reports K"] exit_status [OF assms(1)] dest!: on_world_keeps(1))

text \<open>The states in which the release stage ends.\<close>

definition release_reaches :: "'w controller \<Rightarrow> chart \<times> json option \<Rightarrow> 'w rstate \<Rightarrow> 'w rstate \<Rightarrow> bool" where
  "release_reaches c cv s s' \<longleftrightarrow>
     (\<exists>getter r s1. c_acg c = Some getter \<and> on_world (getter (rs_bd s)) s = (r, s1) \<and>
        (s' = s1 \<or> (\<exists>cl r'. r = Ok cl \<and>
           on_world (getReleaseState cl (rs_bd s1) (fst cv) (snd cv) (owner_postrenderer (rs_bd s1))) s1 = (r', s'))))"

lemma release_reachesI:
  "c_acg c = Some getter \<Longrightarrow> on_world (getter (rs_bd s)) s = (r, s1) \<Longrightarrow> release_reaches c cv s s1"
  "c_acg c = Some getter \<Longrightarrow> on_world (getter (rs_bd s)) s = (Ok cl, s1) \<Longrightarrow>
   on_world (getReleaseState cl (rs_bd s1) (fst cv) (snd cv) (owner_postrenderer (rs_bd s1))) s1 = (r', s') \<Longrightarrow> release_reaches c cv s s'"
  by (auto simp: release_reaches_def)

lemma release_reaches_keeps: "release_reaches c cv s s' \<Longrightarrow> rs_bd s' = rs_bd s \<and> rs_watched s' = rs_watched s"
  by (auto simp: release_reaches_def on_world_iff)

lemma release_exits:
  assumes "c_acg c = None \<Longrightarrow> Q (Panic ''nil pointer dereference'', s)"
    and "\<And>getter cl s1 rel desired state s2. c_acg c = Some getter \<Longrightarrow> on_world (getter (rs_bd s)) s = (Ok cl, s1) \<Longrightarrow>
           on_world (getReleaseState cl (rs_bd s1) (fst cv) (snd cv) (owner_postrenderer (rs_bd s1))) s1 = (Ok (rel, desired, state, None), s2) \<Longrightarrow>
           release_ok (rel, desired, state, None) \<Longrightarrow> Q (k cl rel desired state s2)"
    and "\<And>e reason s'. release_reaches c cv s s' \<Longrightarrow> Q (Err e, set_status (not_installed K reason e) s')"
    and "\<And>getter cl s1 p s'. c_acg c = Some getter \<Longrightarrow> on_world (getter (rs_bd s)) s = (Panic p, s') \<or>
           on_world (getter (rs_bd s)) s = (Ok cl, s1) \<and>
           on_world (getReleaseState cl (rs_bd s1) (fst cv) (snd cv) (owner_postrenderer (rs_bd s1))) s1 = (Panic p, s') \<Longrightarrow> Q (Panic p, s')"
    and "\<And>getter cl s1 s'. c_acg c = Some getter \<Longrightarrow> on_world (getter (rs_bd s)) s = (Diverge, s') \<or>
           on_world (getter (rs_bd s)) s = (Ok cl, s1) \<and>
           on_world (getReleaseState cl (rs_bd s1) (fst cv) (snd cv) (owner_postrenderer (rs_bd s1))) s1 = (Diverge, s') \<Longrightarrow> Q (Diverge, s')"
  shows "Q (release_stage K c cv k s)"
proof (cases "c_acg c")
  case None
  then show ?thesis using assms(1) by (simp add: release_stage_def deref_def)
next
  case (Some getter)
  obtain r s1 where g: "on_world (getter (rs_bd s)) s = (r, s1)" by force
  show ?thesis
  proof (cases r)
    case (Ok cl)
    let ?get = "on_world (getReleaseState cl (rs_bd s1) (fst cv) (snd cv) (owner_postrenderer (rs_bd s1))) s1"
    obtain r2 s2 where get: "?get = (r2, s2)" by force
    have reach: "release_reaches c cv s s2"
      using Some g Ok get by (auto simp: release_reaches_def)
    have "r2 \<noteq> Err e" for e
      using get getReleaseState_no_error [of cl "rs_bd s1" "fst cv" "snd cv" "owner_postrenderer (rs_bd s1)" "rs_world s1" e]
      by (auto simp: on_world_iff)
    moreover have "r2 = Ok info \<Longrightarrow> release_ok info" for info
      using get unfolding on_world_iff by (blast intro: getReleaseState_ok)
    ultimately show ?thesis
      using Some g Ok get assms(2) [of getter cl s1 _ _ _ s2] assms(3) [OF reach] assms(4) [OF Some, of _ s2 cl s1] assms(5) [OF Some, of s2 cl s1]
      by (cases r2) (auto simp: release_stage_def deref_def call_def split: option.split)
  next
    case (Err e)
    then have "release_reaches c cv s s1" using Some g by (auto simp: release_reaches_def)
    then show ?thesis using Some g Err assms(3) by (simp add: release_stage_def deref_def call_def)
  qed (use Some g assms(4) [OF Some] assms(5) [OF Some] in \<open>auto simp: release_stage_def deref_def call_def\<close>)
qed

lemma release_ok_known: "release_ok (rel, desired, state, None) \<Longrightarrow> known_state state"
  by (auto simp: release_ok_def known_state_def split: if_splits)

lemma deploy_reports:
  assumes "condition_setter (k_setSC K)" and "unpacked_status (bd_Status (rs_bd s))"
  shows "status_reports K (deploy_stage K c cv s)"
  unfolding deploy_stage_def
proof (rule release_exits [where Q = "status_reports K"])
  fix getter cl s1 rel desired state s2
  assume "on_world (getter (rs_bd s)) s = (Ok cl, s1)"
    "on_world (getReleaseState cl (rs_bd s1) (fst cv) (snd cv) (owner_postrenderer (rs_bd s1))) s1 = (Ok (rel, desired, state, None), s2)"
    and ok: "release_ok (rel, desired, state, None)"
  then have "rs_bd s2 = rs_bd s" by (auto dest!: on_world_keeps(1))
  then show "status_reports K (preflight_stage K (c_preflights c) state desired
      (apply_stage K cl cv (owner_postrenderer (rs_bd s)) rel state (objects_stage K)) s2)"
    using assms ok by (intro preflight_reports apply_reports objects_reports) (simp_all add: release_ok_known)
qed (simp_all add: assms exit_status release_reaches_keeps)

lemma load_reports:
  assumes "condition_setter (k_setSC K)"
    and "\<And>cv s. unpacked_status (bd_Status (rs_bd s)) \<Longrightarrow> status_reports K (k cv s)" and "unpacked_status (bd_Status (rs_bd s))"
  shows "status_reports K (load_stage K c k s)"
  using assms unfolding load_stage_def
  by (auto intro!: exits [where Q = "status_reports K"] exit_status [OF assms(1)] dest!: on_world_keeps(1))

lemma unpack_reports:
  assumes "condition_setter (k_setSC K)" and "\<And>s. unpacked_status (bd_Status (rs_bd s)) \<Longrightarrow> status_reports K (k s)"
  shows "status_reports K (unpack_stage K c k s)"
  unfolding unpack_stage_def store_stage_def Let_def
  by (auto intro!: exits [where Q = "status_reports K"] assms(2) simp: exit_status [OF assms(1)])

text \<open>C5. After a reconciliation the status tells how it went. Without error, the bundle is still pending or unpacking (with
  no content URL and no resolved source) or it is unpacked and installed and, when health checks are on, healthy. With
  an error, a condition that is not true carries the error's message; if it is the unpacking that failed, no content URL
  and no resolved source remain.\<close>

theorem reconcile_status_reports:
  assumes "condition_setter (k_setSC K)" and "reconcile K c s = (r, s')"
  shows "case r of
           Ok _ \<Rightarrow> waiting_status (bd_Status (rs_bd s')) \<or> deployed_status (k_gate K) (bd_Status (rs_bd s'))
         | Err e \<Rightarrow> failed_status e (bd_Status (rs_bd s'))
         | _ \<Rightarrow> True"
proof -
  have "status_reports K (reconcile K c s)"
    unfolding reconcile_def
    by (rule finalize_exits [where Q = "status_reports K"])
       (auto intro: unpack_reports load_reports deploy_reports assms(1) simp: exit_status [OF assms(1)])
  then show ?thesis
    by (simp add: assms(2) status_reports_def)
qed

text \<open>A controller over the releases of a cluster, with a bundle that is always unpacked and one preflight check, which refuses
  a desired manifest \<open>bad\<close>.\<close>

definition demo_result :: Result where
  "demo_result = \<lparr>res_Bundle = Some demo_plain_fs, res_ResolvedSource = Some (empty_source SourceTypeImage), res_State = StateUnpacked,
     res_Message = generateMessage ''bd''\<rparr>"

definition demo_store :: "'w bundle_store" where
  "demo_store = \<lparr>bs_Load = (\<lambda>_ w. (Ok demo_plain_fs, w)), bs_Store = (\<lambda>_ _ w. (Ok (), w)), bs_Delete = (\<lambda>_ w. (Ok (), w)),
     bs_URLFor = (\<lambda>_ w. (Ok ''http://x'', w))\<rparr>"

definition demo_check :: "'w release_check" where
  "demo_check = \<lparr>rc_Install = (\<lambda>r w. (case r of Some rel \<Rightarrow> if rel_Manifest rel = ''bad'' then Err (Msg ''refused'') else Ok () | None \<Rightarrow> Ok (), w)),
     rc_Upgrade = (\<lambda>_ w. (Ok (), w))\<rparr>"

definition demo_controller :: "string \<Rightarrow> helm_world controller" where
  "demo_controller name = \<lparr>c_handler = Some (\<lambda>_ _. Ok (\<lparr>ch_Name = name, ch_Templates = []\<rparr>, None)), c_provisionerID = plain_ProvisionerID,
     c_acg = Some (\<lambda>_ w. (Ok demo_client, w)), c_storage = Some demo_store, c_preflights = [demo_check],
     c_unpacker = Some \<lparr>up_Unpack = (\<lambda>_ w. (Ok demo_result, w)), up_Cleanup = (\<lambda>_ w. (Ok (), w))\<rparr>,
     c_finalizers = Some (\<lambda>bd w. (Ok (bd, None), w))\<rparr>"

definition demo_ctrl_libs :: "helm_world ctrl_libs" where
  "demo_ctrl_libs = \<lparr>k_setSC = upsert_condition 1, k_gate = True, k_builder = (\<lambda>_ _. (None, Inr [Some (demo_object ''a'')])),
     k_ToUnstructured = Inr, k_Watch = (\<lambda>_ w. (Ok (), w)), k_health = (\<lambda>_. demo_health_libs)\<rparr>"

definition demo_start :: "helm_world rstate" where
  "demo_start = \<lparr>rs_bd = demo_owner, rs_watched = {}, rs_world = Map.empty\<rparr>"

lemmas demo_controller_defs = demo_controller_def demo_ctrl_libs_def demo_start_def demo_store_def demo_check_def demo_client_def demo_put_def
  demo_render_def demo_result_def

lemma demo_healthy: "AreObjectsHealthy demo_health_libs [demo_object ''a''] = Ok ()"
  by (simp add: AreObjectsHealthy_def check_object_def check_status_def demo_health_libs_def demo_object_def empty_meta_def errors_Join_def
      APIService_GVK_def)

lemmas reconcile_unfold = reconcile_def finalize_stage_def unpack_stage_def store_stage_def load_stage_def deploy_stage_def release_stage_def
  apply_stage_def objects_stage_def health_stage_def watch_object_def call_def deref_def on_world_def getReleaseState_def Let_def

lemma demo_reconcile_ok:
  "\<exists>s'. reconcile demo_ctrl_libs (demo_controller ''c'') demo_start = (Ok (), s') \<and> ko_GVK (demo_object ''a'') \<in> rs_watched s'
     \<and> rs_world s' (bd_Name demo_owner) = Some (demo_render (bd_Name demo_owner) \<lparr>ch_Name = ''c'', ch_Templates = []\<rparr>)"
  by (simp add: reconcile_unfold demo_controller_defs IsReleaseNotFound_def errors_As_def set_status_def ManifestObjects_def infosToObjects_def
      demo_healthy)

lemma demo_reconcile_refused:
  "\<exists>s'. reconcile demo_ctrl_libs (demo_controller ''bad'') demo_start = (Err (Msg ''refused''), s')"
  by (simp add: reconcile_unfold demo_controller_defs IsReleaseNotFound_def errors_As_def set_status_def)

theorem reconcile_status_reports_witness:
  "(\<exists>s'. reconcile demo_ctrl_libs (demo_controller ''c'') demo_start = (Ok (), s') \<and>
      (waiting_status (bd_Status (rs_bd s')) \<or> deployed_status True (bd_Status (rs_bd s')))) \<and>
   (\<exists>s'. reconcile demo_ctrl_libs (demo_controller ''bad'') demo_start = (Err (Msg ''refused''), s') \<and>
      failed_status (Msg ''refused'') (bd_Status (rs_bd s')))"
proof -
  have law: "condition_setter (k_setSC demo_ctrl_libs)" and gate: "k_gate demo_ctrl_libs"
    using upsert_condition_setter by (simp_all add: demo_ctrl_libs_def)
  show ?thesis
    using reconcile_status_reports [OF law] demo_reconcile_ok demo_reconcile_refused gate by fastforce
qed

end
