(* ===== verification/Controller_Props.thy ===== *)
theory Controller_Props
  imports Controller
begin

text \<open>
  What a reconciliation guarantees beyond its status. The way of a bundle through the stages is one lemma, \<open>reconcile_flow\<close>: it
  carries a property of the result from the deployment of the chart to the whole reconciliation. With it: releases
  change only when they have to and after the preflight checks have accepted the desired release; what is deployed is a
  chart of the unpacked bundle, and the kinds of its objects are watched; reconciling again changes nothing. And a request
  always ends, without panic, when the components the controller calls do.
\<close>

section \<open>What is kept\<close>

text \<open>The call keeps a view of the world.\<close>

definition keeps :: "('w \<Rightarrow> 'v) \<Rightarrow> ('w, 'a) M \<Rightarrow> bool" where
  "keeps view m \<longleftrightarrow> (\<forall>w. view (snd (m w)) = view w)"

lemma keepsI: "(\<And>w r w'. m w = (r, w') \<Longrightarrow> view w' = view w) \<Longrightarrow> keeps view m"
  unfolding keeps_def by (metis prod.collapse)

lemma keepsD: "keeps view m \<Longrightarrow> m w = (r, w') \<Longrightarrow> view w' = view w"
  unfolding keeps_def by (metis snd_conv)

lemma on_world_view: "keeps view m \<Longrightarrow> on_world m s = (r, s') \<Longrightarrow> view (rs_world s') = view (rs_world s)"
  by (auto simp: on_world_iff dest: keepsD)

text \<open>
  What is documented of the components: only an install or upgrade of the action client that is not a
  dry run changes the releases, which \<open>view\<close> shows. (Its reconcile puts the objects of a release back in place.)
\<close>

definition only_helm_changes :: "('w \<Rightarrow> 'v) \<Rightarrow> 'w ctrl_libs \<Rightarrow> 'w controller \<Rightarrow> bool" where
  "only_helm_changes view K c \<longleftrightarrow>
     (\<forall>F bd. c_finalizers c = Some F \<longrightarrow> keeps view (F bd)) \<and>
     (\<forall>u bd. c_unpacker c = Some u \<longrightarrow> keeps view (up_Unpack u bd)) \<and>
     (\<forall>sto bd b. c_storage c = Some sto \<longrightarrow> keeps view (bs_Store sto bd b) \<and> keeps view (bs_URLFor sto bd) \<and> keeps view (bs_Load sto bd)) \<and>
     (\<forall>g bd. c_acg c = Some g \<longrightarrow> keeps view (g bd) \<and> (\<forall>w cl w'. g bd w = (Ok cl, w') \<longrightarrow>
        release_client view cl \<and> (\<forall>rel. keeps view (ai_Reconcile cl rel)))) \<and>
     (\<forall>x. keeps view (k_Watch K x)) \<and>
     (\<forall>p\<in>set (c_preflights c). \<forall>rel. keeps view (rc_Install p rel) \<and> keeps view (rc_Upgrade p rel))"

text \<open>What is documented of the finalizer registry: of the object it changes only the finalizers, and the finalizers may
  change its status.\<close>

definition finalizers_law :: "'w controller \<Rightarrow> bool" where
  "finalizers_law c \<longleftrightarrow>
     (\<forall>F bd w bd' e w'. c_finalizers c = Some F \<longrightarrow> F bd w = (Ok (bd', e), w') \<longrightarrow> bd_core bd' = bd_core bd)"

lemma finalized_core:
  "finalizers_law c \<Longrightarrow> c_finalizers c = Some F \<Longrightarrow> on_world (F (rs_bd s)) s = (Ok (bd, e), s') \<Longrightarrow> bd_core bd = bd_core (rs_bd s)"
  unfolding finalizers_law_def on_world_iff by blast

lemma bd_core_iff:
  "bd_core a = bd_core b \<longleftrightarrow>
     bd_APIVersion a = bd_APIVersion b \<and> bd_Kind a = bd_Kind b \<and> bd_Spec a = bd_Spec b \<and>
     (bd_Meta a)\<lparr>om_Finalizers := []\<rparr> = (bd_Meta b)\<lparr>om_Finalizers := []\<rparr>"
  by (cases a; cases b) (auto simp: bd_core_def)

lemma bd_core_name: "bd_core a = bd_core b \<Longrightarrow> bd_Name a = bd_Name b"
  by (cases "bd_Meta a"; cases "bd_Meta b") (simp add: bd_core_iff)

lemma bd_core_fields [simp]:
  "bd_Name (bd_core bd) = bd_Name bd" "bd_Spec (bd_core bd) = bd_Spec bd"
  by (simp_all add: bd_core_def)

text \<open>The stages before the release keep the view and the object.\<close>

definition at_start :: "('w \<Rightarrow> 'v) \<Rightarrow> 'v \<Rightarrow> BundleDeployment \<Rightarrow> 'w rstate \<Rightarrow> bool" where
  "at_start view v b s \<longleftrightarrow> view (rs_world s) = v \<and> bd_core (rs_bd s) = b"

lemma at_start_status [simp]: "at_start view v b (set_status f s) \<longleftrightarrow> at_start view v b s"
  by (simp add: at_start_def)

lemma on_world_same: "on_world m s = (r, s') \<Longrightarrow> keeps view m \<Longrightarrow> at_start view v b s \<Longrightarrow> at_start view v b s'"
  by (simp add: at_start_def on_world_view on_world_keeps)

lemma only_helm_changesD:
  assumes "only_helm_changes view K c"
  shows "c_finalizers c = Some F \<Longrightarrow> keeps view (F bd)"
    and "c_unpacker c = Some u \<Longrightarrow> keeps view (up_Unpack u bd)"
    and "c_storage c = Some sto \<Longrightarrow> keeps view (bs_Store sto bd x)" "c_storage c = Some sto \<Longrightarrow> keeps view (bs_URLFor sto bd)"
    and "c_storage c = Some sto \<Longrightarrow> keeps view (bs_Load sto bd)" and "keeps view (k_Watch K wt)"
  using assms by (simp_all add: only_helm_changes_def)

section \<open>The way of a bundle to its deployment\<close>

text \<open>
  Of the controller: a client it was given for the bundle deployment, what its handler made of the files of a bundle, and what its
  unpacker gave. The bundle deployment is known by its core \<open>b\<close>.
\<close>

definition client_for :: "'w controller \<Rightarrow> BundleDeployment \<Rightarrow> 'w ActionInterface \<Rightarrow> bool" where
  "client_for c b cl \<longleftrightarrow> (\<exists>getter bd w w'. c_acg c = Some getter \<and> bd_core bd = b \<and> getter bd w = (Ok cl, w'))"

definition handled :: "'w controller \<Rightarrow> BundleDeployment \<Rightarrow> fs_FS \<Rightarrow> chart \<times> json option \<Rightarrow> bool" where
  "handled c b fsys cv \<longleftrightarrow> (\<exists>h bd. c_handler c = Some h \<and> bd_core bd = b \<and> h fsys bd = Ok cv)"

definition unpacked_as :: "'w controller \<Rightarrow> BundleDeployment \<Rightarrow> Result \<Rightarrow> bool" where
  "unpacked_as c b res \<longleftrightarrow>
     res_State res = StateUnpacked \<and> (\<exists>up bd w w'. c_unpacker c = Some up \<and> bd_core bd = b \<and> up_Unpack up bd w = (Ok res, w'))"

text \<open>
  The law of a storage that the rest relies on: after a bundle was stored and its
  URL was asked for, what is loaded for the same bundle deployment is \<open>same\<close> as the bundle.
\<close>

definition stores_as :: "'w bundle_store \<Rightarrow> (fs_FS option \<Rightarrow> fs_FS \<Rightarrow> bool) \<Rightarrow> bool" where
  "stores_as sto same \<longleftrightarrow>
     (\<forall>bd bd' x fsys url w w1 w2 w3. bs_Store sto bd x w = (Ok (), w1) \<longrightarrow> bs_URLFor sto bd w1 = (Ok url, w2) \<longrightarrow>
        bs_Load sto bd' w2 = (Ok fsys, w3) \<longrightarrow> bd_core bd' = bd_core bd \<longrightarrow> same x fsys)"

definition of_unpacked :: "'w controller \<Rightarrow> (fs_FS option \<Rightarrow> fs_FS \<Rightarrow> bool) \<Rightarrow> BundleDeployment \<Rightarrow> fs_FS \<Rightarrow> bool" where
  "of_unpacked c same b fsys \<longleftrightarrow> (\<exists>res. unpacked_as c b res \<and> same (res_Bundle res) fsys)"

definition charted :: "'w controller \<Rightarrow> (fs_FS option \<Rightarrow> fs_FS \<Rightarrow> bool) \<Rightarrow> BundleDeployment \<Rightarrow> chart \<times> json option \<Rightarrow> bool" where
  "charted c same b cv \<longleftrightarrow> (\<exists>fsys. of_unpacked c same b fsys \<and> handled c b fsys cv)"

lemma stores_asD:
  "stores_as sto same \<Longrightarrow> bs_Store sto bd x w = (Ok (), w1) \<Longrightarrow> bs_URLFor sto bd w1 = (Ok url, w2) \<Longrightarrow> bs_Load sto bd' w2 = (Ok fsys, w3) \<Longrightarrow>
   bd_core bd' = bd_core bd \<Longrightarrow> same x fsys"
  unfolding stores_as_def by blast

lemma stores_as_any [simp]: "stores_as sto (\<lambda>_ _. True)"
  by (simp add: stores_as_def)

text \<open>
  How a property \<open>Q\<close> of the result is carried from the deployment of the chart to the whole reconciliation: it
  has to hold at the exits before, where the view and the core are those of the beginning.
\<close>

lemma load_flow:
  assumes quiet: "only_helm_changes view K c" and at: "at_start view v b s"
    and good: "\<And>sto fsys s'. c_storage c = Some sto \<Longrightarrow> on_world (bs_Load sto (rs_bd s)) s = (Ok fsys, s') \<Longrightarrow> of_unpacked c same b fsys"
    and failed: "\<And>r s. at_start view v b s \<Longrightarrow> \<not> is_ok r \<Longrightarrow> Q (r, s)"
    and k: "\<And>cv s. at_start view v b s \<Longrightarrow> charted c same b cv \<Longrightarrow> Q (k cv s)"
  shows "Q (load_stage K c k s)"
  unfolding load_stage_def
proof (rule deref_exits [where Q = Q])
  fix sto assume sto: "c_storage c = Some sto"
  note keep = on_world_same [OF _ only_helm_changesD(5) [OF quiet sto] at]
  show "Q (call (on_world (bs_Load sto (rs_bd s))) id
      (\<lambda>e. set_cond (k_setSC K) TypeHasValidBundle ConditionFalse ReasonBundleLoadFailed (Error e))
      (\<lambda>bundleFS. deref (c_handler c) (\<lambda>Handle s. call (\<lambda>s. (Handle bundleFS (rs_bd s), s)) id
          (\<lambda>e. set_cond (k_setSC K) TypeInstalled ConditionFalse ReasonInstallFailed (Error e)) k s)) s)"
  proof (rule call_exits [where Q = Q])
    fix fsys s' assume load: "on_world (bs_Load sto (rs_bd s)) s = (Ok fsys, s')"
    have "Q (k cv s')" if "c_handler c = Some h" "h fsys (rs_bd s') = Ok cv" for h cv
      using k [OF keep [OF load]] good [OF sto load] that keep [OF load] unfolding charted_def handled_def at_start_def by blast
    then show "Q (deref (c_handler c) (\<lambda>Handle s. call (\<lambda>s. (Handle fsys (rs_bd s), s)) id
          (\<lambda>e. set_cond (k_setSC K) TypeInstalled ConditionFalse ReasonInstallFailed (Error e)) k s) s')"
      using keep [OF load] by (intro exits [where Q = Q]) (auto intro: failed)
  qed (simp_all add: failed keep)
qed (simp add: failed at)

lemma store_flow:
  assumes quiet: "only_helm_changes view K c" and at: "at_start view v b s"
    and sto: "c_storage c = Some sto" and law: "stores_as sto same" and res: "unpacked_as c b res"
    and failed: "\<And>r s. at_start view v b s \<Longrightarrow> \<not> is_ok r \<Longrightarrow> Q (r, s)"
    and k: "\<And>cv s. at_start view v b s \<Longrightarrow> charted c same b cv \<Longrightarrow> Q (k cv s)"
  shows "Q (store_stage K sto res (load_stage K c k) s)"
  unfolding store_stage_def
proof (rule call_exits [where Q = Q])
  note keep = on_world_same [OF _ only_helm_changesD(3) [OF quiet sto] at]
  fix u s1 assume st: "on_world (bs_Store sto (rs_bd s) (res_Bundle res)) s = (Ok u, s1)"
  note keep1 = on_world_same [OF _ only_helm_changesD(4) [OF quiet sto] keep [OF st]]
  show "Q (call (on_world (bs_URLFor sto (rs_bd s1))) (msg_prefix ''get content URL: '') (failing K) (\<lambda>contentURL s.
      load_stage K c k
        (set_status (\<lambda>st. updateStatusUnpacked (k_setSC K) st (res_ResolvedSource res) (res_Message res) contentURL) s)) s1)"
  proof (rule call_exits [where Q = Q])
    fix url s2 assume url: "on_world (bs_URLFor sto (rs_bd s1)) s1 = (Ok url, s2)"
    let ?s = "set_status (\<lambda>st. updateStatusUnpacked (k_setSC K) st (res_ResolvedSource res) (res_Message res) url) s2"
    have same: "rs_bd s1 = rs_bd s" "rs_bd s2 = rs_bd s"
      using on_world_keeps(1) [OF st] on_world_keeps(1) [OF url] by simp_all
    show "Q (load_stage K c k ?s)"
    proof (rule load_flow [OF quiet, where Q = Q])
      show "at_start view v b ?s" using keep1 [OF url] by simp
      fix sto' fsys s'
      assume "c_storage c = Some sto'" and load: "on_world (bs_Load sto' (rs_bd ?s)) ?s = (Ok fsys, s')"
      then have "on_world (bs_Load sto (rs_bd ?s)) ?s = (Ok fsys, s')" using sto by simp
      then obtain w1 w2 w3 where w: "bs_Store sto (rs_bd s) (res_Bundle res) (rs_world s) = (Ok (), w1)"
        "bs_URLFor sto (rs_bd s) w1 = (Ok url, w2)" "bs_Load sto (rs_bd ?s) w2 = (Ok fsys, w3)"
        using st url unfolding on_world_iff by auto
      have "same (res_Bundle res) fsys"
        by (rule stores_asD [OF law w]) (simp add: same)
      then show "of_unpacked c same b fsys" using res by (auto simp: of_unpacked_def)
    qed (auto intro: failed k)
  qed (simp_all add: failed keep1)
qed (simp_all add: failed on_world_same [OF _ only_helm_changesD(3) [OF quiet sto] at])

lemma reconcile_flow:
  assumes quiet: "only_helm_changes view K c" and fin: "finalizers_law c" and law: "\<And>sto. c_storage c = Some sto \<Longrightarrow> stores_as sto same"
    and at: "at_start view v b s"
    and failed: "\<And>r s. at_start view v b s \<Longrightarrow> \<not> is_ok r \<Longrightarrow> Q (r, s)"
    and waiting: "\<And>m s. at_start view v b s \<Longrightarrow> Q (Ok (), set_status (\<lambda>st. updateStatusUnpackPending (k_setSC K) st m) s)"
      "\<And>m s. at_start view v b s \<Longrightarrow> Q (Ok (), set_status (\<lambda>st. updateStatusUnpacking (k_setSC K) st m) s)"
    and deploy: "\<And>cv s. at_start view v b s \<Longrightarrow> charted c same b cv \<Longrightarrow> Q (deploy_stage K c cv s)"
  shows "Q (reconcile K c s)"
proof -
  have exits_failed: "at_start view v b s \<Longrightarrow> Q (Err e, set_status f s)" "at_start view v b s \<Longrightarrow> Q (Panic p, s)" "at_start view v b s \<Longrightarrow> Q (Diverge, s)" for e f p s
    by (simp_all add: failed)
  have unpack: "Q (unpack_stage K c (load_stage K c (deploy_stage K c)) s)" if at: "at_start view v b s" for s
  proof -
    have "Q (store_stage K sto res (load_stage K c (deploy_stage K c)) s')"
      if "c_unpacker c = Some up" "on_world (up_Unpack up (rs_bd s)) s = (Ok res, s')" "res_State res = StateUnpacked"
        "c_storage c = Some sto" "at_start view v b s'" for up res s' sto
    proof (rule store_flow [OF quiet that(5,4) law [OF that(4)], where Q = Q])
      show "unpacked_as c b res" using that at by (auto simp: unpacked_as_def on_world_iff at_start_def)
    qed (auto intro: failed deploy)
    moreover have "at_start view v b s'" if "c_unpacker c = Some up" "on_world (up_Unpack up (rs_bd s)) s = (r, s')" for up r s'
      by (rule on_world_same [OF that(2) only_helm_changesD(2) [OF quiet that(1)] at])
    ultimately show ?thesis
      unfolding unpack_stage_def Let_def using at
      by (intro exits [where Q = Q]) (auto intro!: deref_exits [where Q = Q] intro: exits_failed waiting)
  qed
  have final: "at_start view v b (s1\<lparr>rs_bd := bd\<rparr>)"
    if "c_finalizers c = Some F" "on_world (F (rs_bd s0)) s0 = (Ok (bd, e), s1)" "at_start view v b s0" for F s0 bd e s1
    using that on_world_view [OF only_helm_changesD(1) [OF quiet that(1)] that(2)] finalized_core [OF fin that(1,2)] by (simp add: at_start_def)
  have start: "at_start view v b (set_status f s)" for f
    using at by simp
  show ?thesis
    unfolding reconcile_def
    by (rule finalize_exits [where Q = Q])
       (blast intro: exits_failed unpack final start on_world_same [OF _ only_helm_changesD(1) [OF quiet]]
          failed [OF start, of "Panic ''nil pointer dereference''", simplified])+
qed

section \<open>Releases change only after the preflights\<close>

text \<open>One preflight accepted the desired release, in a world with the view \<open>v\<close>; and all of them did.\<close>

definition accepts :: "('w \<Rightarrow> 'v) \<Rightarrow> 'v \<Rightarrow> releaseState \<Rightarrow> release option \<Rightarrow> 'w release_check \<Rightarrow> bool" where
  "accepts view v state desired p \<longleftrightarrow>
     (state = stateNeedsInstall \<longrightarrow> (\<exists>w. view w = v \<and> fst (rc_Install p desired w) = Ok ())) \<and>
     (state = stateNeedsUpgrade \<longrightarrow> (\<exists>w. view w = v \<and> fst (rc_Upgrade p desired w) = Ok ()))"

definition release_approved :: "('w \<Rightarrow> 'v) \<Rightarrow> 'v \<Rightarrow> 'w controller \<Rightarrow> (fs_FS option \<Rightarrow> fs_FS \<Rightarrow> bool) \<Rightarrow> BundleDeployment \<Rightarrow> bool" where
  "release_approved view v c same b \<longleftrightarrow>
     (\<exists>getter cl bd cv w0 w w' rel desired state.
        c_acg c = Some getter \<and> bd_core bd = b \<and> getter bd w0 = (Ok cl, w) \<and> view w = v \<and>
        charted c same b cv \<and> getReleaseState cl bd (fst cv) (snd cv) (owner_postrenderer bd) w = (Ok (rel, Some desired, state, None), w') \<and>
        (state = stateNeedsInstall \<and> rel = None \<or> state = stateNeedsUpgrade \<and> (\<exists>cur. rel = Some cur \<and> needs_upgrade cur desired)) \<and>
        (\<forall>p\<in>set (c_preflights c). accepts view v state (Some desired) p))"

lemma preflights_accept:
  assumes "\<And>p rel. p \<in> set ps \<Longrightarrow> keeps view (rc_Install p rel) \<and> keeps view (rc_Upgrade p rel)"
    and failed: "\<And>r s. at_start view v b s \<Longrightarrow> \<not> is_ok r \<Longrightarrow> Q (r, s)"
    and "\<And>s. at_start view v b s \<Longrightarrow> (\<forall>p\<in>set ps. accepts view v state desired p) \<Longrightarrow> Q (k s)"
    and "at_start view v b s"
  shows "Q (preflight_stage K ps state desired k s)"
  using assms(1,3,4)
proof (induction ps arbitrary: s)
  case (Cons p ps)
  have keep: "keeps view (rc_Install p rel)" "keeps view (rc_Upgrade p rel)" for rel
    using Cons.prems(1) by auto
  have step: "Q (preflight_stage K ps state desired k s')" if "accepts view v state desired p" "at_start view v b s'" for s'
    using that Cons.prems(1,2) by (intro Cons.IH) auto
  have run: "Q (call (on_world f) id (not_installed K ReasonInstallFailed) (\<lambda>_. preflight_stage K ps state desired k) s)"
    if f: "keeps view f" and acc: "\<And>u w'. f (rs_world s) = (Ok u, w') \<Longrightarrow> accepts view v state desired p" for f
  proof (rule call_exits [where Q = Q])
    fix x s' assume o: "on_world f s = (Ok x, s')"
    then have "accepts view v state desired p" using acc by (auto simp: on_world_iff)
    then show "Q (preflight_stage K ps state desired k s')"
      using step on_world_same [OF o f Cons.prems(3)] by simp
  qed (simp_all add: failed on_world_same [OF _ f Cons.prems(3)])
  have "view (rs_world s) = v" using Cons.prems(3) by (simp add: at_start_def)
  then show ?case
    using run [OF keep(1)] run [OF keep(2)] step [of s] Cons.prems(3)
    by (auto simp: accepts_def) (metis fst_conv)+
qed simp

lemma release_reaches_view:
  assumes quiet: "only_helm_changes view K c" and reach: "release_reaches c cv s s'"
  shows "view (rs_world s') = view (rs_world s)"
proof -
  obtain getter r s1 where g: "c_acg c = Some getter" "on_world (getter (rs_bd s)) s = (r, s1)"
    and last: "s' = s1 \<or> (\<exists>cl r'. r = Ok cl \<and>
           on_world (getReleaseState cl (rs_bd s1) (fst cv) (snd cv) (owner_postrenderer (rs_bd s1))) s1 = (r', s'))"
    using reach by (auto simp: release_reaches_def)
  have v1: "view (rs_world s1) = view (rs_world s)"
    using g quiet on_world_view by (fastforce simp: only_helm_changes_def)
  have "release_client view cl" if "r = Ok cl" for cl
    using g that quiet unfolding only_helm_changes_def on_world_iff by blast
  then show ?thesis
    using last v1 getReleaseState_keeps by (fastforce simp: on_world_iff)
qed

text \<open>A release that is unchanged stays so: what follows only reconciles it, watches and looks at the health.\<close>

lemma watch_object_view:
  assumes "\<And>x. keeps view (k_Watch K x)" and "watch_object K obj s = (r, s')"
  shows "view (rs_world s') = view (rs_world s)"
  using on_world_view [OF assms(1)] assms(2)
  by (auto simp: watch_object_def split: if_splits prod.splits outcome.splits)

lemma watch_view:
  assumes "\<And>x. keeps view (k_Watch K x)" and "\<And>s. view (rs_world (snd (k s))) = view (rs_world s)"
  shows "view (rs_world (snd (watch_stage K objs k s))) = view (rs_world s)"
proof (induction objs arbitrary: s)
  case (Cons obj objs)
  show ?case
    by (auto intro!: call_exits [where Q = "\<lambda>x. view (rs_world (snd x)) = view (rs_world s)"] simp: Cons dest!: watch_object_view [OF assms(1)])
qed (simp add: assms(2))

lemma health_view: "view (rs_world (snd (health_stage K objs s))) = view (rs_world s)"
  by (auto simp: health_stage_def call_def Let_def split: outcome.split)

lemma objects_view:
  assumes "\<And>x. keeps view (k_Watch K x)"
  shows "view (rs_world (snd (objects_stage K rel s))) = view (rs_world s)"
  unfolding objects_stage_def
  by (auto intro!: exits [where Q = "\<lambda>x. view (rs_world (snd x)) = view (rs_world s)"] simp: watch_view [OF assms] health_view)

lemma unchanged_view:
  assumes quiet: "only_helm_changes view K c" and cl: "\<And>rel. keeps view (ai_Reconcile cl rel)"
    and "state \<noteq> stateNeedsInstall" "state \<noteq> stateNeedsUpgrade"
  shows "view (rs_world (snd (apply_stage K cl cv post rel state (objects_stage K) s))) = view (rs_world s)"
  using assms(3,4) unfolding apply_stage_def Let_def
  by (auto intro!: exits [where Q = "\<lambda>x. view (rs_world (snd x)) = view (rs_world s)"] simp: objects_view [OF only_helm_changesD(6) [OF quiet]] dest!: on_world_view [OF cl])

lemma deploy_guarded:
  assumes quiet: "only_helm_changes view K c" and "view (rs_world s) = v" and cv: "charted c same (bd_core (rs_bd s)) cv"
  shows "view (rs_world (snd (deploy_stage K c cv s))) = v \<or> release_approved view v c same (bd_core (rs_bd s))"
    (is "?Q (deploy_stage K c cv s)")
  unfolding deploy_stage_def
proof (rule release_exits [where Q = ?Q])
  fix getter cl s1 rel desired state s2
  assume g: "c_acg c = Some getter" "on_world (getter (rs_bd s)) s = (Ok cl, s1)"
    and st: "on_world (getReleaseState cl (rs_bd s1) (fst cv) (snd cv) (owner_postrenderer (rs_bd s1))) s1 = (Ok (rel, desired, state, None), s2)"
    and ok: "release_ok (rel, desired, state, None)"
  have reach: "release_reaches c cv s s2" "release_reaches c cv s s1"
    using g st by (auto simp: release_reaches_def)
  have bd: "rs_bd s1 = rs_bd s" and v: "view (rs_world s1) = v" "view (rs_world s2) = v"
    using release_reaches_view [OF quiet reach(1)] release_reaches_view [OF quiet reach(2)] release_reaches_keeps [OF reach(2)] assms(2)
    by simp_all
  obtain d where d: "desired = Some d"
    and state: "state = stateNeedsInstall \<and> rel = None \<or> state = stateNeedsUpgrade \<and> (\<exists>cur. rel = Some cur \<and> needs_upgrade cur d)
                \<or> state \<noteq> stateNeedsInstall \<and> state \<noteq> stateNeedsUpgrade"
    using ok by (auto simp: release_ok_def stateUnchanged_def stateNeedsInstall_def stateNeedsUpgrade_def)
  have get: "getter (rs_bd s) (rs_world s) = (Ok cl, rs_world s1)"
    "getReleaseState cl (rs_bd s) (fst cv) (snd cv) (owner_postrenderer (rs_bd s)) (rs_world s1) = (Ok (rel, Some d, state, None), rs_world s2)"
    using g st d bd by (auto simp: on_world_iff)
  have keep: "keeps view (ai_Reconcile cl r)" for r
    using quiet g(1) get(1) unfolding only_helm_changes_def by blast
  have applied: "?Q (apply_stage K cl cv (owner_postrenderer (rs_bd s)) rel state (objects_stage K) s')"
    if "\<forall>p\<in>set (c_preflights c). accepts view v state desired p" "view (rs_world s') = v" for s'
  proof (cases "state \<noteq> stateNeedsInstall \<and> state \<noteq> stateNeedsUpgrade")
    case True
    then show ?thesis using unchanged_view [OF quiet keep] that(2) by simp
  next
    case False
    then have "release_approved view v c same (bd_core (rs_bd s))"
      using state that(1) g(1) get v(1) cv unfolding release_approved_def d by blast
    then show ?thesis ..
  qed
  show "?Q (preflight_stage K (c_preflights c) state desired (apply_stage K cl cv (owner_postrenderer (rs_bd s)) rel state (objects_stage K)) s2)"
    using quiet v(2) applied
    by (intro preflights_accept [where view = view and v = v and b = "bd_core (rs_bd s2)" and Q = ?Q]) (auto simp: only_helm_changes_def at_start_def)
qed (use assms(2) in \<open>simp_all add: release_reaches_view [OF quiet]\<close>,
     (metis release_reaches_view [OF quiet] release_reachesI)+)

lemma reconcile_guarded:
  assumes quiet: "only_helm_changes view K c" and fin: "finalizers_law c" and law: "\<And>sto. c_storage c = Some sto \<Longrightarrow> stores_as sto same"
    and run: "reconcile K c s = (r, s')" and changed: "view (rs_world s') \<noteq> view (rs_world s)"
  shows "release_approved view (view (rs_world s)) c same (bd_core (rs_bd s))"
proof -
  let ?v = "view (rs_world s)" and ?b = "bd_core (rs_bd s)"
  let ?Q = "\<lambda>x. view (rs_world (snd x)) = ?v \<or> release_approved view ?v c same ?b"
  have "?Q (reconcile K c s)"
    by (rule reconcile_flow [OF quiet fin law, where v = ?v and b = ?b and Q = ?Q])
       (use deploy_guarded [OF quiet] in \<open>fastforce simp: at_start_def\<close>)+
  then show ?thesis
    using run changed by simp
qed

text \<open>C2. In a reconciliation the releases of the cluster change only when they have to, and only after every preflight check has accepted the
  change: if the view of the releases is another one afterwards, then a dry run, with the releases unchanged, by a client
  made for the bundle deployment, with the chart its handler made of the unpacked bundle, found that it has no release or that its release differs or has failed, and each
  preflight, asked about the desired release, answered without error.\<close>

theorem releases_change_after_preflights:
  assumes quiet: "only_helm_changes view K c" and fin: "finalizers_law c" and law: "\<And>sto. c_storage c = Some sto \<Longrightarrow> stores_as sto same"
    and run: "reconcile K c s = (r, s')" and changed: "view (rs_world s') \<noteq> view (rs_world s)"
  shows "\<exists>getter cl bd cv w0 w w' rel desired state.
     c_acg c = Some getter \<and> bd_core bd = bd_core (rs_bd s) \<and> getter bd w0 = (Ok cl, w) \<and> view w = view (rs_world s) \<and> charted c same (bd_core (rs_bd s)) cv \<and>
     getReleaseState cl bd (fst cv) (snd cv) (owner_postrenderer bd) w = (Ok (rel, Some desired, state, None), w') \<and>
     (state = stateNeedsInstall \<and> rel = None \<and>
        (\<forall>p\<in>set (c_preflights c). \<exists>w. view w = view (rs_world s) \<and> fst (rc_Install p (Some desired) w) = Ok ())
      \<or> state = stateNeedsUpgrade \<and> (\<exists>cur. rel = Some cur \<and> needs_upgrade cur desired) \<and>
        (\<forall>p\<in>set (c_preflights c). \<exists>w. view w = view (rs_world s) \<and> fst (rc_Upgrade p (Some desired) w) = Ok ()))"
  using reconcile_guarded [OF quiet fin law run changed] unfolding release_approved_def accepts_def by blast

lemma demo_client_reconcile: "ai_Reconcile demo_client r w = (Ok (), w)"
  by (simp add: demo_client_def)

lemma demo_only_helm_changes: "only_helm_changes id demo_ctrl_libs (demo_controller n)"
  by (simp add: only_helm_changes_def keeps_def demo_controller_def demo_store_def demo_check_def demo_release_client demo_client_reconcile
      demo_ctrl_libs_def)

lemma demo_finalizers_law: "finalizers_law (demo_controller n)"
  by (simp add: finalizers_law_def demo_controller_def)

theorem releases_change_after_preflights_witness:
  "\<exists>getter cl bd cv w' desired.
     c_acg (demo_controller ''c'') = Some getter \<and> bd_core bd = bd_core demo_owner \<and>
     getReleaseState cl bd (fst cv) (snd cv) (owner_postrenderer bd) (Map.empty :: helm_world) = (Ok (None, Some desired, stateNeedsInstall, None), w') \<and>
     fst (rc_Install demo_check (Some desired) (Map.empty :: helm_world)) = Ok ()"
proof -
  obtain s' where run: "reconcile demo_ctrl_libs (demo_controller ''c'') demo_start = (Ok (), s')"
    and inst: "rs_world s' (bd_Name demo_owner) \<noteq> None"
    using demo_reconcile_ok by force
  have start: "rs_bd demo_start = demo_owner" "rs_world demo_start = Map.empty" "set (c_preflights (demo_controller ''c'')) = {demo_check}"
    by (simp_all add: demo_start_def demo_controller_def)
  have "id (rs_world s') \<noteq> id (rs_world demo_start)"
    using inst start by auto
  from releases_change_after_preflights [where view = id and same = "\<lambda>_ _. True", OF demo_only_helm_changes demo_finalizers_law stores_as_any run this]
  obtain getter cl bd cv w0 w w' rel desired state
    where g: "c_acg (demo_controller ''c'') = Some getter" "bd_core bd = bd_core demo_owner" "getter bd w0 = (Ok cl, w)" "w = (Map.empty :: helm_world)"
      and st: "getReleaseState cl bd (fst cv) (snd cv) (owner_postrenderer bd) w = (Ok (rel, Some desired, state, None), w')"
      and acc: "state = stateNeedsInstall \<and> rel = None \<and> fst (rc_Install demo_check (Some desired) (Map.empty :: helm_world)) = Ok ()
         \<or> (\<exists>cur. rel = Some cur)"
    unfolding start by (simp only: id_apply ball_simps simp_thms) blast
  have "cl = demo_client" using g(1,3) by (auto simp: demo_controller_def)
  then have "rel = None" using st g(4) by (auto simp: getReleaseState_def demo_client_def split: if_splits prod.splits outcome.splits)
  then show ?thesis using g st acc by blast
qed

section \<open>What is deployed and watched\<close>

text \<open>
  A release of a chart in the hands of a client: given by an install or upgrade with the chart, or the current
  one, not failed, when a dry run with the chart gives the same manifest.
\<close>

definition release_of :: "'w ActionInterface \<Rightarrow> BundleDeployment \<Rightarrow> chart \<times> json option \<Rightarrow> release \<Rightarrow> bool" where
  "release_of cl b cv r \<longleftrightarrow>
     (let n = bd_Name b; ns = spec_InstallNamespace (bd_Spec b) in
      (\<exists>opts w w'. DryRun True \<notin> set opts \<and>
         (ai_Install cl n ns (fst cv) (snd cv) opts w = (Ok r, w') \<or> ai_Upgrade cl n ns (fst cv) (snd cv) opts w = (Ok r, w')))
      \<or> (\<exists>w w1 opts w2 d. ai_Get cl n w = (Ok r, w1) \<and> DryRun True \<in> set opts
           \<and> ai_Upgrade cl n ns (fst cv) (snd cv) opts w1 = (Ok d, w2) \<and> \<not> needs_upgrade r d))"

definition manifest_watched :: "'w ctrl_libs \<Rightarrow> release \<Rightarrow> 'w rstate \<Rightarrow> bool" where
  "manifest_watched K r s \<longleftrightarrow>
     (\<exists>objs. ManifestObjects (k_builder K) (rel_Manifest r) (rel_Name r @ ''-release-manifest'') = Ok objs \<and>
        (\<forall>obj\<in>set objs. \<exists>u. k_ToUnstructured K obj = Inr u \<and> ko_GVK u \<in> rs_watched s))"

lemma watch_stage_watches:
  assumes "\<And>s. W \<subseteq> rs_watched s \<Longrightarrow> (\<forall>obj\<in>set objs. \<exists>u. k_ToUnstructured K obj = Inr u \<and> ko_GVK u \<in> rs_watched s) \<Longrightarrow> Q (k s)"
    and "\<And>r s. \<not> is_ok r \<Longrightarrow> Q (r, s)" and "W \<subseteq> rs_watched s"
  shows "Q (watch_stage K objs k s)"
  using assms(1,3)
proof (induction objs arbitrary: s W)
  case (Cons obj objs)
  have "Q (watch_stage K objs k s')" if u: "k_ToUnstructured K obj = Inr u" and w: "watch_object K u s = (Ok x, s')" for u x s'
  proof (rule Cons.IH)
    show "insert (ko_GVK u) W \<subseteq> rs_watched s'"
      using w Cons.prems(2) by (elim watch_object_cases) auto
    show "Q (k s)" if "insert (ko_GVK u) W \<subseteq> rs_watched s"
      and "\<forall>obj\<in>set objs. \<exists>u. k_ToUnstructured K obj = Inr u \<and> ko_GVK u \<in> rs_watched s" for s
      using that u by (intro Cons.prems(1)) auto
  qed
  then show ?case
    by (auto intro!: call_exits [where Q = Q] assms(2))
qed simp

lemma health_stage_watched: "rs_watched (snd (health_stage K objs s)) = rs_watched s"
  by (auto simp: health_stage_def call_def Let_def split: outcome.split)

text \<open>
  What Helm promises of a property \<open>P\<close> of a release and the world, such as that the objects of the release are in the cluster: it holds after an
  install, an upgrade or a reconciliation of the release that succeeds, and new watches keep it.
\<close>

definition puts :: "(release \<Rightarrow> 'w \<Rightarrow> bool) \<Rightarrow> 'w ActionInterface \<Rightarrow> bool" where
  "puts P cl \<longleftrightarrow>
     (\<forall>n ns ch v opts w r w'. DryRun True \<notin> set opts \<longrightarrow>
        (ai_Install cl n ns ch v opts w = (Ok r, w') \<longrightarrow> P r w') \<and> (ai_Upgrade cl n ns ch v opts w = (Ok r, w') \<longrightarrow> P r w')) \<and>
     (\<forall>r w w'. ai_Reconcile cl r w = (Ok (), w') \<longrightarrow> P r w')"

definition puts_in_place :: "(release \<Rightarrow> 'w \<Rightarrow> bool) \<Rightarrow> 'w ctrl_libs \<Rightarrow> 'w controller \<Rightarrow> bool" where
  "puts_in_place P K c \<longleftrightarrow>
     (\<forall>g bd w cl w'. c_acg c = Some g \<longrightarrow> g bd w = (Ok cl, w') \<longrightarrow> puts P cl) \<and> (\<forall>x. keeps (\<lambda>w r. P r w) (k_Watch K x))"

lemma puts_any: "puts_in_place (\<lambda>_ _. True) K c"
  by (simp add: puts_in_place_def puts_def keeps_def)

lemma puts_for: "puts_in_place P K c \<Longrightarrow> client_for c b cl \<Longrightarrow> puts P cl"
  unfolding puts_in_place_def client_for_def by blast

text \<open>How the deployment of a chart ends well.\<close>

definition deployed ::
  "(release \<Rightarrow> 'w \<Rightarrow> bool) \<Rightarrow> 'w ctrl_libs \<Rightarrow> 'w controller \<Rightarrow> BundleDeployment \<Rightarrow> chart \<times> json option \<Rightarrow> unit outcome \<times> 'w rstate \<Rightarrow> bool" where
  "deployed P K c b cv x \<longleftrightarrow>
     (is_ok (fst x) \<longrightarrow> (\<exists>cl r. client_for c b cl \<and> release_of cl b cv r \<and> manifest_watched K r (snd x) \<and> P r (rs_world (snd x))))"

lemma deployed_failed: "\<not> is_ok r \<Longrightarrow> deployed P K c b cv (r, s)"
  by (simp add: deployed_def)

lemma objects_deployed:
  assumes cl: "client_for c b cl" and "release_of cl b cv r" and law: "puts_in_place P K c" and P: "P r (rs_world s)"
  shows "deployed P K c b cv (objects_stage K (Some r) s)"
proof -
  have "keeps (\<lambda>w r. P r w) (k_Watch K x)" for x
    using law by (simp add: puts_in_place_def)
  from objects_view [OF this, of "Some r" s] have P': "P r (rs_world (snd (objects_stage K (Some r) s)))"
    using P by (metis (no_types))
  let ?Q = "\<lambda>x. is_ok (fst x) \<longrightarrow> manifest_watched K r (snd x)"
  have health: "?Q (health_stage K objs s')"
    if "ManifestObjects (k_builder K) (rel_Manifest r) (rel_Name r @ ''-release-manifest'') = Ok objs"
      and "\<forall>obj\<in>set objs. \<exists>u. k_ToUnstructured K obj = Inr u \<and> ko_GVK u \<in> rs_watched s'" for objs s'
    unfolding manifest_watched_def health_stage_watched using that by blast
  have "?Q (objects_stage K (Some r) s)"
    unfolding objects_stage_def deref_def option.case
  proof (rule call_exits [where Q = ?Q])
    fix objs s'
    assume "(ManifestObjects (k_builder K) (rel_Manifest r) (rel_Name r @ ''-release-manifest''), s) = (Ok objs, s')"
    then show "?Q (watch_stage K objs (health_stage K objs) s')"
      by (intro watch_stage_watches [where W = "{}" and Q = ?Q] health) simp_all
  qed simp_all
  with P' assms(1,2) show ?thesis by (auto simp: deployed_def)
qed

lemma release_ofI:
  assumes "bd_core bd = b"
  shows "ai_Install cl (bd_Name bd) (spec_InstallNamespace (bd_Spec bd)) (fst cv) (snd cv) [CreateNamespace False, AppendPostRenderer post] w = (Ok r, w')
           \<Longrightarrow> release_of cl b cv r"
    and "ai_Upgrade cl (bd_Name bd) (spec_InstallNamespace (bd_Spec bd)) (fst cv) (snd cv) [AppendPostRenderer post] w = (Ok r, w')
           \<Longrightarrow> release_of cl b cv r"
proof -
  have "DryRun True \<notin> set [CreateNamespace False, AppendPostRenderer post]" "DryRun True \<notin> set [AppendPostRenderer post]"
    by simp_all
  then show "ai_Install cl (bd_Name bd) (spec_InstallNamespace (bd_Spec bd)) (fst cv) (snd cv) [CreateNamespace False, AppendPostRenderer post] w = (Ok r, w')
           \<Longrightarrow> release_of cl b cv r"
    "ai_Upgrade cl (bd_Name bd) (spec_InstallNamespace (bd_Spec bd)) (fst cv) (snd cv) [AppendPostRenderer post] w = (Ok r, w')
           \<Longrightarrow> release_of cl b cv r"
    unfolding release_of_def Let_def assms [symmetric] bd_core_fields by blast+
qed

lemma apply_deployed:
  assumes cl: "client_for c b cl" and core: "bd_core (rs_bd s) = b" and law: "puts_in_place P K c"
    and current: "\<And>r. state = stateUnchanged \<Longrightarrow> rel = Some r \<Longrightarrow> release_of cl b cv r"
  shows "deployed P K c b cv (apply_stage K cl cv post rel state (objects_stage K) s)"
proof -
  have put: "DryRun True \<notin> set opts \<Longrightarrow> ai_Install cl n ns ch v opts w = (Ok r, w') \<Longrightarrow> P r w'"
    "DryRun True \<notin> set opts \<Longrightarrow> ai_Upgrade cl n ns ch v opts w = (Ok r, w') \<Longrightarrow> P r w'"
    "ai_Reconcile cl r w = (Ok (), w') \<Longrightarrow> P r w'" for n ns ch v opts w r w'
    using puts_for [OF law cl] unfolding puts_def by blast+
  have run: "deployed P K c b cv (call (on_world m) f g (\<lambda>r. objects_stage K (Some r)) s)"
    if m: "\<And>r w w'. m w = (Ok r, w') \<Longrightarrow> release_of cl b cv r" "\<And>r w w'. m w = (Ok r, w') \<Longrightarrow> P r w'" for m f g
    by (rule call_exits [where Q = "deployed P K c b cv"])
       (auto intro!: objects_deployed [OF cl _ law] intro: m deployed_failed simp: on_world_iff)
  have "deployed P K c b cv (deref rel (\<lambda>cur. call (on_world (ai_Reconcile cl cur)) f g (\<lambda>_. objects_stage K rel)) s)"
    if "state = stateUnchanged" for f g
    by (intro exits [where Q = "deployed P K c b cv"])
       (auto intro!: objects_deployed [OF cl _ law] current [OF that] deployed_failed intro: put(3) simp: on_world_iff)
  moreover have
    "deployed P K c b cv (call (on_world (ai_Install cl (bd_Name (rs_bd s)) (spec_InstallNamespace (bd_Spec (rs_bd s))) (fst cv) (snd cv)
       [CreateNamespace False, AppendPostRenderer post])) f g (\<lambda>r. objects_stage K (Some r)) s)"
    "deployed P K c b cv (call (on_world (ai_Upgrade cl (bd_Name (rs_bd s)) (spec_InstallNamespace (bd_Spec (rs_bd s))) (fst cv) (snd cv)
       [AppendPostRenderer post])) f g (\<lambda>r. objects_stage K (Some r)) s)" for f g
    by - (rule run, erule release_ofI [OF core], erule put(1) [rotated], simp, rule run, erule release_ofI(2) [OF core], erule put(2) [rotated], simp)
  ultimately show ?thesis
    unfolding apply_stage_def Let_def by (auto intro: deployed_failed)
qed

lemma preflight_deployed:
  assumes "\<And>s. rs_bd s = bd \<Longrightarrow> deployed P K c b cv (k s)" and "rs_bd s = bd"
  shows "deployed P K c b cv (preflight_stage K ps state d k s)"
  using assms(2)
proof (induction ps arbitrary: s)
  case (Cons p ps)
  then show ?case
    by (auto intro!: call_exits [where Q = "deployed P K c b cv"] intro: deployed_failed dest: on_world_keeps(1))
qed (simp add: assms(1))

lemma unchanged_release:
  assumes "getReleaseState cl bd chrt vals post w = (Ok (Some r, desired, stateUnchanged, None), w')" and "bd_core bd = b"
  shows "release_of cl b (chrt, vals) r"
proof -
  obtain w1 d where "ai_Get cl (bd_Name bd) w = (Ok r, w1)" "\<not> needs_upgrade r d"
    "ai_Upgrade cl (bd_Name bd) (spec_InstallNamespace (bd_Spec bd)) chrt vals [DryRun True, AppendPostRenderer post] w1 = (Ok d, w')"
    using assms(1) by (auto simp: getReleaseState_def split: prod.splits outcome.splits if_splits)
  moreover have "DryRun True \<in> set [DryRun True, AppendPostRenderer post]" by simp
  ultimately show ?thesis
    unfolding release_of_def Let_def assms(2) [symmetric] bd_core_fields fst_conv snd_conv by blast
qed

lemma deploy_deployed:
  assumes core: "bd_core (rs_bd s) = b" and law: "puts_in_place P K c"
  shows "deployed P K c b cv (deploy_stage K c cv s)"
  unfolding deploy_stage_def
proof (rule release_exits [where Q = "deployed P K c b cv"])
  fix getter cl s1 rel desired state s2
  assume g: "c_acg c = Some getter" "on_world (getter (rs_bd s)) s = (Ok cl, s1)"
    and st: "on_world (getReleaseState cl (rs_bd s1) (fst cv) (snd cv) (owner_postrenderer (rs_bd s1))) s1 = (Ok (rel, desired, state, None), s2)"
  have same: "rs_bd s1 = rs_bd s" "rs_bd s2 = rs_bd s"
    using g st by (auto dest!: on_world_keeps(1))
  have cl: "client_for c b cl"
    using g core unfolding client_for_def on_world_iff by blast
  have cur: "release_of cl b cv r" if "state = stateUnchanged" "rel = Some r" for r
    using st that same core unchanged_release [of cl "rs_bd s1" "fst cv" "snd cv"] by (auto simp: on_world_iff)
  show "deployed P K c b cv (preflight_stage K (c_preflights c) state desired
      (apply_stage K cl cv (owner_postrenderer (rs_bd s)) rel state (objects_stage K)) s2)"
    by (rule preflight_deployed [where bd = "rs_bd s"]) (use same cl cur core law in \<open>auto intro: apply_deployed\<close>)
qed (simp_all add: deployed_failed)

text \<open>When a reconciliation ends well with the bundle unpacked, a chart of the bundle is deployed.\<close>

lemma only_helm_changes_any: "only_helm_changes (\<lambda>_. ()) K c"
  by (simp add: only_helm_changes_def keeps_def release_client_def)

lemma waiting_not_unpacked:
  assumes "condition_setter (k_setSC K)"
  shows "\<not> unpacked_status (updateStatusUnpackPending (k_setSC K) st m)" "\<not> unpacked_status (updateStatusUnpacking (k_setSC K) st m)"
  using assms by (auto simp: unpacked_status_def status_writers set_cond_view)

lemma reconcile_reaches_deployment:
  assumes sc: "condition_setter (k_setSC K)" and fin: "finalizers_law c"
    and law: "\<And>sto. c_storage c = Some sto \<Longrightarrow> stores_as sto same"
    and D: "\<And>cv s' x. bd_core (rs_bd s') = bd_core (rs_bd s) \<Longrightarrow> deploy_stage K c cv s' = x \<Longrightarrow> is_ok (fst x) \<Longrightarrow> D cv (snd x)"
    and run: "reconcile K c s = (Ok (), s')" "unpacked_status (bd_Status (rs_bd s'))"
  shows "\<exists>cv. charted c same (bd_core (rs_bd s)) cv \<and> D cv s'"
proof -
  let ?Q = "\<lambda>x. is_ok (fst x) \<longrightarrow> unpacked_status (bd_Status (rs_bd (snd x))) \<longrightarrow> (\<exists>cv. charted c same (bd_core (rs_bd s)) cv \<and> D cv (snd x))"
  have "?Q (reconcile K c s)"
  proof (rule reconcile_flow [OF only_helm_changes_any fin law, where v = "()" and b = "bd_core (rs_bd s)" and Q = ?Q])
    show "?Q (deploy_stage K c cv s')" if "at_start (\<lambda>_. ()) () (bd_core (rs_bd s)) s'" "charted c same (bd_core (rs_bd s)) cv" for cv s'
      using D [OF _ refl] that unfolding at_start_def by blast
  qed (auto simp: at_start_def waiting_not_unpacked [OF sc])
  then show ?thesis using run by simp
qed

lemma reconcile_deployed:
  assumes sc: "condition_setter (k_setSC K)" and fin: "finalizers_law c"
    and law: "\<And>sto. c_storage c = Some sto \<Longrightarrow> stores_as sto same" and put: "puts_in_place P K c"
    and run: "reconcile K c s = (Ok (), s')" "unpacked_status (bd_Status (rs_bd s'))"
  shows "\<exists>cv. charted c same (bd_core (rs_bd s)) cv \<and> deployed P K c (bd_core (rs_bd s)) cv (Ok (), s')"
proof (rule reconcile_reaches_deployment [OF sc fin law _ run, where D = "\<lambda>cv s'. deployed P K c (bd_core (rs_bd s)) cv (Ok (), s')"])
  show "deployed P K c (bd_core (rs_bd s)) cv (Ok (), snd x)"
    if "bd_core (rs_bd s1) = bd_core (rs_bd s)" "deploy_stage K c cv s1 = x" "is_ok (fst x)" for cv s1 x
    using deploy_deployed [OF that(1) put, of cv] that(2,3) by (auto simp: deployed_def)
qed

lemma reconcile_watches_grow: "reconcile K c s = (r, s') \<Longrightarrow> rs_watched s \<subseteq> rs_watched s'"
  using watches_grow.reconciles [of c "rs_watched s" s K] by simp

section \<open>Reconciling again changes nothing\<close>

text \<open>
  What is documented of Helm: the client's releases are by name (\<open>rels\<close>); the manifest is rendered from the chart, its values
  and the post-renderers, also in a dry run, and the templates can also see whether it is for an install or an upgrade, the revision, and, with the functions for it, the cluster and chance, which
  are parts of the world; an install or upgrade that succeeds leaves its release there, deployed.
\<close>

definition posts :: "action_option list \<Rightarrow> postrenderer list" where
  "posts opts = List.map_filter (\<lambda>x. case x of AppendPostRenderer p \<Rightarrow> Some p | _ \<Rightarrow> None) opts"

datatype render_for = ForInstall | ForUpgrade

type_synonym 'w renderer = "render_for \<Rightarrow> 'w \<Rightarrow> string \<Rightarrow> string \<Rightarrow> chart \<Rightarrow> json option \<Rightarrow> postrenderer list \<Rightarrow> string"

definition helm_law :: "('w \<Rightarrow> string \<rightharpoonup> release) \<Rightarrow> 'w renderer \<Rightarrow> 'w ActionInterface \<Rightarrow> bool" where
  "helm_law rels render cl \<longleftrightarrow>
     (\<forall>n w r w'. ai_Get cl n w = (Ok r, w') \<longrightarrow> rels w n = Some r) \<and>
     (\<forall>n w e w'. ai_Get cl n w = (Err e, w') \<longrightarrow> IsReleaseNotFound e \<longrightarrow> rels w n = None) \<and>
     (\<forall>n ns ch v opts w r w'. ai_Install cl n ns ch v opts w = (Ok r, w') \<longrightarrow> rel_Manifest r = render ForInstall w n ns ch v (posts opts)) \<and>
     (\<forall>n ns ch v opts w r w'. ai_Upgrade cl n ns ch v opts w = (Ok r, w') \<longrightarrow> rel_Manifest r = render ForUpgrade w n ns ch v (posts opts)) \<and>
     (\<forall>n ns ch v opts w r w'. ai_Install cl n ns ch v opts w = (Ok r, w') \<or> ai_Upgrade cl n ns ch v opts w = (Ok r, w') \<longrightarrow>
        DryRun True \<notin> set opts \<longrightarrow> rels w' n = Some r \<and> rel_Status r \<notin> {StatusFailed, StatusSuperseded})"

text \<open>A chart whose templates use only the values and the name and namespace of the release: it renders alike for an install and an upgrade and in every world.\<close>

definition static_chart :: "'w renderer \<Rightarrow> chart \<Rightarrow> bool" where
  "static_chart render ch \<longleftrightarrow> (\<forall>op w op' w' n ns v ps. render op w n ns ch v ps = render op' w' n ns ch v ps)"

lemma static_chartD: "static_chart render ch \<Longrightarrow> render op w n ns ch v ps = render op' w' n ns ch v ps"
  unfolding static_chart_def by blast

lemma helm_lawD:
  assumes "helm_law rels render cl"
  shows "ai_Get cl n w = (Ok r, w') \<Longrightarrow> rels w n = Some r"
    and "ai_Get cl n w = (Err e, w') \<Longrightarrow> IsReleaseNotFound e \<Longrightarrow> rels w n = None"
    and "ai_Install cl n ns ch v opts w = (Ok r, w') \<Longrightarrow> rel_Manifest r = render ForInstall w n ns ch v (posts opts)"
    and "ai_Upgrade cl n ns ch v opts w = (Ok r, w') \<Longrightarrow> rel_Manifest r = render ForUpgrade w n ns ch v (posts opts)"
    and "ai_Install cl n ns ch v opts w = (Ok r, w') \<Longrightarrow> DryRun True \<notin> set opts \<Longrightarrow> rels w' n = Some r \<and> rel_Status r \<notin> {StatusFailed, StatusSuperseded}"
    and "ai_Upgrade cl n ns ch v opts w = (Ok r, w') \<Longrightarrow> DryRun True \<notin> set opts \<Longrightarrow> rels w' n = Some r \<and> rel_Status r \<notin> {StatusFailed, StatusSuperseded}"
  using assms unfolding helm_law_def by fast+

lemma posts_simps [simp]: "posts [] = []" "posts (AppendPostRenderer p # opts) = p # posts opts" "posts (DryRun d # opts) = posts opts"
  "posts (CreateNamespace d # opts) = posts opts"
  by (simp_all add: posts_def map_filter_simps)

text \<open>The release of a bundle deployment is the chart's.\<close>

definition settled :: "('w \<Rightarrow> string \<rightharpoonup> release) \<Rightarrow> 'w renderer \<Rightarrow> BundleDeployment \<Rightarrow> chart \<times> json option \<Rightarrow> 'w \<Rightarrow> bool" where
  "settled rels render b cv w \<longleftrightarrow>
     (\<exists>r. rels w (bd_Name b) = Some r \<and> rel_Status r \<notin> {StatusFailed, StatusSuperseded} \<and>
        (\<forall>op x. rel_Manifest r = render op x (bd_Name b) (spec_InstallNamespace (bd_Spec b)) (fst cv) (snd cv) [owner_postrenderer b]))"

lemma settled_rels: "rels w' = rels w \<Longrightarrow> settled rels render b cv w' \<longleftrightarrow> settled rels render b cv w"
  by (simp add: settled_def)

lemma owner_postrenderer_core: "owner_postrenderer (bd_core bd) = owner_postrenderer bd"
  by (simp add: owner_postrenderer_def)

lemma unchanged_settled:
  assumes law: "helm_law rels render cl" and static: "static_chart render (fst cv)" and keep: "release_client rels cl"
    and run: "getReleaseState cl bd (fst cv) (snd cv) (owner_postrenderer bd) w = (Ok (Some r, desired, state, None), w')"
  shows "state \<noteq> stateNeedsUpgrade \<longleftrightarrow> settled rels render (bd_core bd) cv w"
proof -
  obtain w1 d where get: "ai_Get cl (bd_Name bd) w = (Ok r, w1)"
    and up: "ai_Upgrade cl (bd_Name bd) (spec_InstallNamespace (bd_Spec bd)) (fst cv) (snd cv) [DryRun True, AppendPostRenderer (owner_postrenderer bd)] w1 = (Ok d, w')"
    and st: "state = (if needs_upgrade r d then stateNeedsUpgrade else stateUnchanged)"
    using run by (auto simp: getReleaseState_def split: prod.splits outcome.splits if_splits)
  have "state \<noteq> stateNeedsUpgrade \<longleftrightarrow> \<not> needs_upgrade r d"
    using st by (simp add: stateNeedsUpgrade_def stateUnchanged_def)
  moreover have "rel_Manifest d = render op x (bd_Name bd) (spec_InstallNamespace (bd_Spec bd)) (fst cv) (snd cv) [owner_postrenderer bd]" for op x
    using helm_lawD(4) [OF law up] static_chartD [OF static] by simp
  ultimately show ?thesis
    using helm_lawD(1) [OF law get] by (auto simp: needs_upgrade_def settled_def owner_postrenderer_core)
qed

lemma apply_settled:
  assumes quiet: "only_helm_changes rels K c" and law: "helm_law rels render cl" and static: "static_chart render (fst cv)"
    and keep: "\<And>r. keeps rels (ai_Reconcile cl r)" and core: "bd_core (rs_bd s) = b"
    and known: "state \<noteq> stateNeedsInstall \<Longrightarrow> state \<noteq> stateNeedsUpgrade \<Longrightarrow> settled rels render b cv (rs_world s)"
    and ok: "is_ok (fst (apply_stage K cl cv (owner_postrenderer b) rel state (objects_stage K) s))"
  shows "settled rels render b cv (rs_world (snd (apply_stage K cl cv (owner_postrenderer b) rel state (objects_stage K) s)))"
proof (cases "state \<noteq> stateNeedsInstall \<and> state \<noteq> stateNeedsUpgrade")
  case True
  then show ?thesis
    using known settled_rels [where rels = rels, OF unchanged_view [OF quiet keep]] by blast
next
  case False
  let ?Q = "\<lambda>x. is_ok (fst x) \<longrightarrow> settled rels render b cv (rs_world (snd x))"
  have b: "bd_Name (rs_bd s) = bd_Name b" "bd_Spec (rs_bd s) = bd_Spec b"
    using core by auto
  have "?Q (call (on_world m) f g (\<lambda>r. objects_stage K (Some r)) s)"
    if m: "\<And>r w w'. m w = (Ok r, w') \<Longrightarrow> settled rels render b cv w'" for m f g
    by (rule call_exits [where Q = ?Q])
       (use m in \<open>auto simp: on_world_iff settled_rels [where rels = rels, OF objects_view [OF only_helm_changesD(6) [OF quiet]]]\<close>)
  moreover have "settled rels render b cv w'"
    if "ai_Install cl (bd_Name b) (spec_InstallNamespace (bd_Spec b)) (fst cv) (snd cv) [CreateNamespace False, AppendPostRenderer (owner_postrenderer b)] w = (Ok r, w')" for r w w'
    using helm_lawD(3) [OF law that] helm_lawD(5) [OF law that] static_chartD [OF static] by (simp add: settled_def)
  moreover have "settled rels render b cv w'"
    if "ai_Upgrade cl (bd_Name b) (spec_InstallNamespace (bd_Spec b)) (fst cv) (snd cv) [AppendPostRenderer (owner_postrenderer b)] w = (Ok r, w')" for r w w'
    using helm_lawD(4) [OF law that] helm_lawD(6) [OF law that] static_chartD [OF static] by (simp add: settled_def)
  ultimately show ?thesis
    using False ok unfolding apply_stage_def Let_def b by (auto split: if_splits)
qed

lemma only_helm_client:
  "only_helm_changes view K c \<Longrightarrow> c_acg c = Some g \<Longrightarrow> g bd w = (Ok cl, w') \<Longrightarrow> release_client view cl \<and> (\<forall>rel. keeps view (ai_Reconcile cl rel))"
  unfolding only_helm_changes_def by blast

lemma deploy_settled:
  assumes quiet: "only_helm_changes rels K c" and law: "\<And>cl. client_for c b cl \<Longrightarrow> helm_law rels render cl" and static: "static_chart render (fst cv)"
    and core: "bd_core (rs_bd s) = b"
  shows "is_ok (fst (deploy_stage K c cv s)) \<longrightarrow> settled rels render b cv (rs_world (snd (deploy_stage K c cv s)))"
    (is "?Q (deploy_stage K c cv s)")
  unfolding deploy_stage_def
proof (rule release_exits [where Q = ?Q])
  fix getter cl s1 rel desired state s2
  assume g: "c_acg c = Some getter" "on_world (getter (rs_bd s)) s = (Ok cl, s1)"
    and st: "on_world (getReleaseState cl (rs_bd s1) (fst cv) (snd cv) (owner_postrenderer (rs_bd s1))) s1 = (Ok (rel, desired, state, None), s2)"
    and ok: "release_ok (rel, desired, state, None)"
  have same: "rs_bd s1 = rs_bd s" "rs_bd s2 = rs_bd s"
    using g st by (auto dest!: on_world_keeps(1))
  have cl: "helm_law rels render cl"
    using law [of cl] g core unfolding client_for_def on_world_iff by blast
  have keep: "release_client rels cl" "keeps rels (ai_Reconcile cl r)" for r
    using quiet g unfolding only_helm_changes_def on_world_iff by blast+
  have run: "getReleaseState cl (rs_bd s) (fst cv) (snd cv) (owner_postrenderer (rs_bd s)) (rs_world s1) = (Ok (rel, desired, state, None), rs_world s2)"
    using st same by (auto simp: on_world_iff)
  have rels: "rels (rs_world s2) = rels (rs_world s1)"
    by (rule getReleaseState_keeps [OF keep(1) run])
  have known: "settled rels render b cv (rs_world s2)" if ns: "state \<noteq> stateNeedsInstall" "state \<noteq> stateNeedsUpgrade"
  proof -
    obtain r where "rel = Some r" using ok ns by (auto simp: release_ok_def)
    then have "settled rels render b cv (rs_world s1)"
      using unchanged_settled [OF cl static keep(1)] run ns(2) unfolding core [symmetric] by blast
    then show ?thesis by (simp add: settled_def rels)
  qed
  have post: "owner_postrenderer (rs_bd s) = owner_postrenderer b"
    using core owner_postrenderer_core [of "rs_bd s"] by simp
  show "?Q (preflight_stage K (c_preflights c) state desired (apply_stage K cl cv (owner_postrenderer (rs_bd s)) rel state (objects_stage K)) s2)"
    unfolding post
  proof (rule preflights_accept [where view = rels and v = "rels (rs_world s2)" and b = b and Q = ?Q])
    show "?Q (apply_stage K cl cv (owner_postrenderer b) rel state (objects_stage K) s')" if "at_start rels (rels (rs_world s2)) b s'" for s'
      using apply_settled [OF quiet cl static keep(2), of s' b state rel] known that by (auto simp: at_start_def settled_def)
  qed (use quiet core same in \<open>auto simp: only_helm_changes_def at_start_def\<close>)
qed simp_all

text \<open>C3. Reconciling again changes nothing. A reconciliation ended well with the bundle unpacked; every chart made of the bundle deployment's unpacked bundle is the
  same, and it is one whose templates do not depend on whether they are rendered for an install or an upgrade, on the revision, on the cluster or on chance. When the bundle deployment is reconciled again, with the same specification and the releases as they were left, the releases are left alone, however that
  reconciliation ends.\<close>

theorem reconcile_again_changes_nothing:
  assumes sc: "condition_setter (k_setSC K)" and quiet: "only_helm_changes rels K c" and fin: "finalizers_law c"
    and store: "\<And>sto. c_storage c = Some sto \<Longrightarrow> stores_as sto same"
    and helm: "\<And>cl. client_for c (bd_core (rs_bd s)) cl \<Longrightarrow> helm_law rels render cl"
    and chart: "\<And>cv cv'. charted c same (bd_core (rs_bd s)) cv \<Longrightarrow> charted c same (bd_core (rs_bd s)) cv' \<Longrightarrow> cv = cv'"
    and static: "\<And>cv. charted c same (bd_core (rs_bd s)) cv \<Longrightarrow> static_chart render (fst cv)"
    and run: "reconcile K c s = (Ok (), s1)" "unpacked_status (bd_Status (rs_bd s1))"
    and again: "bd_core (rs_bd s2) = bd_core (rs_bd s)" "rels (rs_world s2) = rels (rs_world s1)" "reconcile K c s2 = (r, s3)"
  shows "rels (rs_world s3) = rels (rs_world s2)"
proof (rule ccontr)
  let ?b = "bd_core (rs_bd s)"
  obtain cv where cv: "charted c same ?b cv" and "static_chart render (fst cv) \<longrightarrow> settled rels render ?b cv (rs_world s1)"
    using reconcile_reaches_deployment [OF sc fin store _ run, where D = "\<lambda>cv s'. static_chart render (fst cv) \<longrightarrow> settled rels render ?b cv (rs_world s')"]
      deploy_settled [OF quiet helm] by blast
  then have set: "settled rels render ?b cv (rs_world s1)" using static by blast
  assume "rels (rs_world s3) \<noteq> rels (rs_world s2)"
  from reconcile_guarded [where view = rels, OF quiet fin store again(3) this] obtain getter cl bd cv' w0 w w' rel desired state
    where cl: "c_acg c = Some getter" "bd_core bd = ?b" "getter bd w0 = (Ok cl, w)" and w: "rels w = rels (rs_world s2)" and "charted c same ?b cv'"
      and st: "getReleaseState cl bd (fst cv') (snd cv') (owner_postrenderer bd) w = (Ok (rel, Some desired, state, None), w')"
      and needs: "state = stateNeedsInstall \<and> rel = None \<or> state = stateNeedsUpgrade \<and> (\<exists>cur. rel = Some cur \<and> needs_upgrade cur desired)"
    unfolding release_approved_def again(1) by blast
  then have "cv' = cv" and st': "static_chart render (fst cv')" using chart cv static by blast+
  then have at: "settled rels render (bd_core bd) cv' w"
    using set w again(2) cl(2) by (simp add: settled_def)
  have "client_for c ?b cl" using cl unfolding client_for_def by blast
  then have law: "helm_law rels render cl" "release_client rels cl"
    using helm only_helm_client [OF quiet cl(1,3)] by simp_all
  from needs show False
  proof (elim disjE conjE exE)
    assume "rel = None"
    then obtain e w1 where "ai_Get cl (bd_Name bd) w = (Err e, w1)" "IsReleaseNotFound e"
      using st by (auto simp: getReleaseState_def split: prod.splits outcome.splits if_splits)
    then show False using helm_lawD(2) [OF law(1)] at by (auto simp: settled_def)
  next
    fix cur assume "state = stateNeedsUpgrade" "rel = Some cur"
    then show False using unchanged_settled [OF law(1) st' law(2)] st at by blast
  qed
qed

lemma demo_helm_law: "helm_law id (\<lambda>op w n ns ch v ps. ch_Name ch) demo_client"
  by (auto simp: helm_law_def demo_client_def demo_put_def demo_render_def StatusFailed_def StatusSuperseded_def split: option.splits)

lemma demo_reconcile_unpacked:
  "\<exists>s'. reconcile demo_ctrl_libs (demo_controller ''c'') demo_start = (Ok (), s') \<and> unpacked_status (bd_Status (rs_bd s'))"
  by (simp add: reconcile_unfold demo_controller_defs IsReleaseNotFound_def errors_As_def set_status_def ManifestObjects_def infosToObjects_def
      demo_healthy status_writers unpacked_status_def set_cond_view [OF upsert_condition_setter])

theorem reconcile_again_changes_nothing_witness:
  "\<exists>s1 r s2. reconcile demo_ctrl_libs (demo_controller ''c'') demo_start = (Ok (), s1) \<and> rs_world s1 \<noteq> rs_world demo_start \<and>
     reconcile demo_ctrl_libs (demo_controller ''c'') s1 = (r, s2) \<and> rs_world s2 = rs_world s1"
proof -
  let ?c = "demo_controller ''c''" and ?s = demo_start
  have sc: "condition_setter (k_setSC demo_ctrl_libs)"
    using upsert_condition_setter by (simp add: demo_ctrl_libs_def)
  obtain s1 where run: "reconcile demo_ctrl_libs ?c ?s = (Ok (), s1)" "unpacked_status (bd_Status (rs_bd s1))"
    using demo_reconcile_unpacked by blast
  then have changed: "rs_world s1 \<noteq> rs_world demo_start"
    using demo_reconcile_ok by (auto simp: demo_start_def)
  obtain r s2 where again: "reconcile demo_ctrl_libs ?c s1 = (r, s2)" by force
  have helm: "helm_law id (\<lambda>op w n ns ch v ps. ch_Name ch) cl" if "client_for ?c (bd_core (rs_bd ?s)) cl" for cl
    using that demo_helm_law by (auto simp: client_for_def demo_controller_def)
  have chart: "cv = cv'" if "charted ?c (\<lambda>_ _. True) (bd_core (rs_bd ?s)) cv" "charted ?c (\<lambda>_ _. True) (bd_core (rs_bd ?s)) cv'" for cv cv'
    using that by (auto simp: charted_def handled_def demo_controller_def)
  have static: "static_chart (\<lambda>op w n ns ch v ps. ch_Name ch) (fst cv)" for cv :: "chart \<times> json option"
    by (simp add: static_chart_def)
  have core: "bd_core (rs_bd s1) = bd_core (rs_bd ?s)"
  proof -
    have "bd_core (rs_bd (snd (reconcile demo_ctrl_libs ?c ?s))) = bd_core (rs_bd ?s)"
      by (rule core_kept.reconciles) (auto simp: demo_controller_def)
    then show ?thesis by (simp add: run(1))
  qed
  have "id (rs_world s2) = id (rs_world s1)"
    by (rule reconcile_again_changes_nothing [where rels = id, OF sc demo_only_helm_changes demo_finalizers_law stores_as_any helm chart static run core refl again])
  then show ?thesis using run(1) changed again by auto
qed

section \<open>A request always ends\<close>

text \<open>A call that gives a value or an error, whatever the world: it does not panic and, unless \<open>d\<close> allows it to go on for ever, it ends.\<close>

definition ends :: "bool \<Rightarrow> 'a outcome \<Rightarrow> bool" where
  "ends d r \<longleftrightarrow> (case r of Ok _ \<Rightarrow> True | Err _ \<Rightarrow> True | Panic _ \<Rightarrow> False | Diverge \<Rightarrow> d)"

definition returns :: "bool \<Rightarrow> ('w, 'a) M \<Rightarrow> bool" where
  "returns d m \<longleftrightarrow> (\<forall>w. ends d (fst (m w)))"

lemma ends_simps [simp]: "ends d (Ok x)" "ends d (Err e)" "\<not> ends d (Panic p)" "ends d Diverge \<longleftrightarrow> d"
  by (simp_all add: ends_def)

lemma returns_not:
  assumes "returns d m"
  shows "m w \<noteq> (Panic p, w')" "m w = (Diverge, w') \<Longrightarrow> d" "on_world m s \<noteq> (Panic p, s')" "on_world m s = (Diverge, s') \<Longrightarrow> d"
  using assms unfolding returns_def on_world_iff by (metis fst_conv ends_simps(3,4))+

text \<open>
  What the controller relies on. The components return; a finished unpacking comes with a bundle (the contract of the
  unpackers); the store is only asked to store bundles.
\<close>

definition client_returns :: "bool \<Rightarrow> 'w ActionInterface \<Rightarrow> bool" where
  "client_returns d cl \<longleftrightarrow>
     (\<forall>n. returns d (ai_Get cl n)) \<and> (\<forall>n ns ch v opts. returns d (ai_Install cl n ns ch v opts) \<and> returns d (ai_Upgrade cl n ns ch v opts)) \<and>
     (\<forall>r. returns d (ai_Reconcile cl r))"

definition components_return :: "bool \<Rightarrow> 'w ctrl_libs \<Rightarrow> 'w controller \<Rightarrow> BundleDeployment \<Rightarrow> bool" where
  "components_return d K c b \<longleftrightarrow>
     (\<forall>F bd. c_finalizers c = Some F \<longrightarrow> bd_core bd = b \<longrightarrow> returns d (F bd)) \<and>
     (\<forall>u bd. c_unpacker c = Some u \<longrightarrow> bd_core bd = b \<longrightarrow> returns d (up_Unpack u bd) \<and>
        (\<forall>w r w'. up_Unpack u bd w = (Ok r, w') \<longrightarrow> res_State r = StateUnpacked \<longrightarrow> res_Bundle r \<noteq> None)) \<and>
     (\<forall>sto bd x. c_storage c = Some sto \<longrightarrow> returns d (bs_Store sto bd (Some x)) \<and> returns d (bs_URLFor sto bd) \<and> returns d (bs_Load sto bd)) \<and>
     (\<forall>h fsys bd. c_handler c = Some h \<longrightarrow> ends d (h fsys bd)) \<and>
     (\<forall>g bd. c_acg c = Some g \<longrightarrow> returns d (g bd) \<and> (\<forall>w cl w'. g bd w = (Ok cl, w') \<longrightarrow> client_returns d cl)) \<and>
     (\<forall>p\<in>set (c_preflights c). \<forall>rel. returns d (rc_Install p rel) \<and> returns d (rc_Upgrade p rel)) \<and>
     (\<forall>r n. ends d (ManifestObjects (k_builder K) r n)) \<and> (\<forall>x. returns d (k_Watch K x)) \<and>
     (k_gate K \<longrightarrow> (\<forall>w u. fst (hl_Compute (k_health K w) u) \<noteq> None))"

lemma components_returnD:
  assumes "components_return d K c b"
  shows "c_finalizers c = Some F \<Longrightarrow> bd_core bd = b \<Longrightarrow> returns d (F bd)" and "c_unpacker c = Some u \<Longrightarrow> bd_core bd = b \<Longrightarrow> returns d (up_Unpack u bd)"
    and "c_storage c = Some sto \<Longrightarrow> returns d (bs_Store sto bd (Some x))" and "c_storage c = Some sto \<Longrightarrow> returns d (bs_URLFor sto bd)"
    and "c_storage c = Some sto \<Longrightarrow> returns d (bs_Load sto bd)" and "c_handler c = Some h \<Longrightarrow> ends d (h fsys bd)"
    and "c_acg c = Some g \<Longrightarrow> returns d (g bd)" and "p \<in> set (c_preflights c) \<Longrightarrow> returns d (rc_Install p rel)"
    and "p \<in> set (c_preflights c) \<Longrightarrow> returns d (rc_Upgrade p rel)" and "ends d (ManifestObjects (k_builder K) m n)" and "returns d (k_Watch K wt)"
  using assms by (simp_all add: components_return_def)

lemma finished_with_bundle:
  assumes "components_return d K c b" and "c_unpacker c = Some u" and "bd_core bd = b" and "on_world (up_Unpack u bd) s = (Ok res, s')" and "res_State res = StateUnpacked"
  shows "res_Bundle res \<noteq> None"
proof -
  have "\<forall>w r w'. up_Unpack u bd w = (Ok r, w') \<longrightarrow> res_State r = StateUnpacked \<longrightarrow> res_Bundle r \<noteq> None"
    using assms(1,2,3) by (simp add: components_return_def)
  with assms(4,5) show ?thesis
    unfolding on_world_iff by metis
qed

lemma getReleaseState_returns: "client_returns d cl \<Longrightarrow> returns d (getReleaseState cl bd ch v post)"
  unfolding client_returns_def returns_def getReleaseState_def
  by (auto split: prod.split outcome.split) (metis fst_conv ends_simps(3,4))+

lemma AreObjectsHealthy_proper: "\<forall>u. fst (hl_Compute L u) \<noteq> None \<Longrightarrow> ends d (AreObjectsHealthy L objs)"
  using health_loop_ends [of objs L "[]"] by (auto simp: AreObjectsHealthy_def nil_status_def split: option.split)

lemma call_proper:
  assumes "ends d (fst (m s))" and "\<And>x s'. m s = (Ok x, s') \<Longrightarrow> ends d (fst (k x s'))"
  shows "ends d (fst (call m f g k s))"
  by (rule call_exits [where Q = "\<lambda>x. ends d (fst x)"]) (use assms in auto)

lemma on_world_proper: "returns d m \<Longrightarrow> ends d (fst (on_world m s))"
  by (auto simp: returns_def on_world_def split: prod.split) (metis fst_conv)

lemma watch_object_proper:
  assumes "\<And>x. returns d (k_Watch K x)"
  shows "ends d (fst (watch_object K obj s))"
  using returns_not [OF assms] by (auto simp: watch_object_def split: prod.split outcome.split)

lemma watch_stage_proper:
  assumes "\<And>x. returns d (k_Watch K x)" and "\<And>s. ends d (fst (k s))"
  shows "ends d (fst (watch_stage K objs k s))"
proof (induction objs arbitrary: s)
  case (Cons obj objs)
  have "ends d (fst (lift_result r, s))" for r :: "'x result" and s
    by (cases r) simp_all
  with Cons show ?case
    by (auto intro!: call_proper watch_object_proper assms(1))
qed (simp add: assms(2))

lemma objects_proper:
  assumes ret: "components_return d K c b"
  shows "ends d (fst (objects_stage K (Some r) s))"
proof -
  have "\<forall>u. fst (hl_Compute (k_health K w) u) \<noteq> None" if "k_gate K" for w
    using ret that by (simp add: components_return_def)
  then have "ends d (fst (health_stage K objs s'))" for objs s'
    by (auto simp: health_stage_def Let_def intro!: call_proper AreObjectsHealthy_proper)
  then show ?thesis
    unfolding objects_stage_def deref_def option.case
    by (intro call_proper watch_stage_proper) (simp_all add: components_returnD [OF ret])
qed

lemma preflight_proper:
  assumes "\<And>p rel. p \<in> set ps \<Longrightarrow> returns d (rc_Install p rel) \<and> returns d (rc_Upgrade p rel)" and "\<And>s. ends d (fst (k s))"
  shows "ends d (fst (preflight_stage K ps state desired k s))"
  using assms(1)
proof (induction ps arbitrary: s)
  case (Cons p ps)
  then show ?case
    by (auto intro!: call_proper on_world_proper)
qed (simp add: assms(2))

lemma apply_proper:
  assumes ret: "components_return d K c b" and cl: "client_returns d cl" and st: "known_state state" "state = stateUnchanged \<Longrightarrow> rel \<noteq> None"
  shows "ends d (fst (apply_stage K cl cv post rel state (objects_stage K) s))"
  using st cl unfolding apply_stage_def Let_def known_state_def client_returns_def
  by (auto simp: deref_def intro!: call_proper on_world_proper objects_proper [OF ret])

lemma deploy_proper:
  assumes ret: "components_return d K c b" and acg: "c_acg c \<noteq> None"
  shows "ends d (fst (deploy_stage K c cv s))"
proof -
  have clients: "client_returns d cl" if "c_acg c = Some getter" "on_world (getter bd) s = (Ok cl, s1)" for getter bd s cl s1
    using that ret unfolding components_return_def on_world_iff by blast
  show ?thesis
    unfolding deploy_stage_def
  proof (rule release_exits [where Q = "\<lambda>x. ends d (fst x)"])
    fix getter cl s1 rel desired state s2
    assume g: "c_acg c = Some getter" "on_world (getter (rs_bd s)) s = (Ok cl, s1)" and ok: "release_ok (rel, desired, state, None)"
    have "client_returns d cl" by (rule clients [OF g])
    then show "ends d (fst (preflight_stage K (c_preflights c) state desired
        (apply_stage K cl cv (owner_postrenderer (rs_bd s)) rel state (objects_stage K)) s2))"
      using ok components_returnD(8,9) [OF ret]
      by (intro preflight_proper apply_proper [OF ret]) (auto simp: release_ok_known release_ok_def)
  next
    fix getter cl s1 p s'
    assume g: "c_acg c = Some getter"
      and fails: "on_world (getter (rs_bd s)) s = (Panic p, s') \<or>
         on_world (getter (rs_bd s)) s = (Ok cl, s1) \<and>
         on_world (getReleaseState cl (rs_bd s1) (fst cv) (snd cv) (owner_postrenderer (rs_bd s1))) s1 = (Panic p, s')"
    then show "ends d (fst (Panic p, s'))"
      using returns_not(3) [OF components_returnD(7) [OF ret g]] returns_not(3) [OF getReleaseState_returns [OF clients [OF g]]] by blast
  next
    fix getter cl s1 s'
    assume g: "c_acg c = Some getter"
      and fails: "on_world (getter (rs_bd s)) s = (Diverge, s') \<or>
         on_world (getter (rs_bd s)) s = (Ok cl, s1) \<and>
         on_world (getReleaseState cl (rs_bd s1) (fst cv) (snd cv) (owner_postrenderer (rs_bd s1))) s1 = (Diverge, s')"
    then show "ends d (fst (Diverge, s'))"
      using returns_not(4) [OF components_returnD(7) [OF ret g]] returns_not(4) [OF getReleaseState_returns [OF clients [OF g]]] by auto
  qed (use acg in simp_all)
qed

lemma deref_proper: "p \<noteq> None \<Longrightarrow> (\<And>x. p = Some x \<Longrightarrow> ends d (fst (k x s))) \<Longrightarrow> ends d (fst (deref p k s))"
  by (auto simp: deref_def)

lemma reconcile_proper:
  assumes ret: "components_return d K c b" and conf: "config_errors c = []" and fin: "finalizers_law c" and core: "bd_core (rs_bd s) = b"
  shows "ends d (fst (reconcile K c s))"
proof -
  have set: "c_acg c \<noteq> None" "c_storage c \<noteq> None" "c_handler c \<noteq> None" "c_unpacker c \<noteq> None" "c_finalizers c \<noteq> None"
    using conf by (auto simp: config_errors_def split: option.splits if_splits)
  have load: "ends d (fst (load_stage K c (deploy_stage K c) s'))" for s'
    unfolding load_stage_def
    by (intro deref_proper call_proper deploy_proper [OF ret]) (auto simp: set intro: on_world_proper components_returnD [OF ret])
  have store: "ends d (fst (store_stage K sto res (load_stage K c (deploy_stage K c)) s'))"
    if "c_storage c = Some sto" "res_Bundle res \<noteq> None" for sto res s'
    unfolding store_stage_def using that
    by (auto intro!: call_proper load on_world_proper components_returnD(3,4) [OF ret])
  have unpack: "ends d (fst (unpack_stage K c (load_stage K c (deploy_stage K c)) s'))" if core: "bd_core (rs_bd s') = b" for s'
    unfolding unpack_stage_def Let_def
  proof (intro deref_proper call_proper on_world_proper set)
    fix u res s''
    assume u: "c_unpacker c = Some u" "on_world (up_Unpack u (rs_bd s')) s' = (Ok res, s'')"
    show "ends d (fst (if res_State res = StatePending then (Ok (), set_status (\<lambda>st. updateStatusUnpackPending (k_setSC K) st (res_Message res)) s'')
        else if res_State res = StateUnpacking then (Ok (), set_status (\<lambda>st. updateStatusUnpacking (k_setSC K) st (res_Message res)) s'')
        else if res_State res = StateUnpacked
        then deref (c_storage c) (\<lambda>sto. store_stage K sto res (load_stage K c (deploy_stage K c))) s''
        else (Err (Msg (''unknown unpack state '' @ fmt_q (res_State res) @ '': <nil>'')),
              set_status (failing K (Msg (''unknown unpack state '' @ fmt_q (res_State res) @ '': <nil>''))) s'')))"
      using finished_with_bundle [OF ret u(1) core u(2)] set by (auto intro!: deref_proper store)
  qed (simp add: components_returnD [OF ret] core)
  let ?s = "set_status (\<lambda>st. st\<lparr>st_ObservedGeneration := om_Generation (bd_Meta (rs_bd s))\<rparr>) s"
  have keep: "bd_core (rs_bd (s'\<lparr>rs_bd := bd\<rparr>)) = b" if "c_finalizers c = Some F" "on_world (F (rs_bd ?s)) ?s = (Ok (bd, e), s')" for F bd e s'
    using finalized_core [OF fin that] core by simp
  have run: "returns d (F (rs_bd ?s))" if "c_finalizers c = Some F" for F
    using components_returnD(1) [OF ret that] core by simp
  show ?thesis
    unfolding reconcile_def
  proof (rule finalize_exits [where Q = "\<lambda>x. ends d (fst x)"], goal_cases)
    case (2 F bd s')
    then show ?case by (intro unpack keep)
  next
    case (5 F p s')
    then show ?case using returns_not(3) [OF run] by blast
  next
    case (6 F s')
    then show ?case using returns_not(4) [OF run] by simp
  qed (use set in simp_all)
qed

text \<open>The client's calls on bundle deployments return, and comparing an object with itself finds no difference.\<close>

definition bd_client_returns :: "bool \<Rightarrow> 'w bd_client \<Rightarrow> bool" where
  "bd_client_returns d cl \<longleftrightarrow> (\<forall>k. returns d (bc_Get cl k)) \<and> (\<forall>bd. returns d (bc_StatusUpdate cl bd) \<and> returns d (bc_Update cl bd))"

lemma write_back_proper:
  assumes "returns d (Write bd)" and "\<And>bd w. ends d (fst (k bd w))"
  shows "ends d (fst (write_back NA e b Write bd k w))"
  using assms(1) assms(2)
  by (auto simp: write_back_def update_aggregate_def err_option_def dest: returns_not split: prod.split outcome.split option.split)

lemma finish_proper:
  assumes "bd_client_returns d cl" and "eq_BD E (bd_core a) (bd_core b)"
  shows "ends d (fst (finish NA E cl a b e w))"
  using assms unfolding finish_def Let_def bd_client_returns_def checkForUnexpectedFieldChange_def
  by (auto intro!: write_back_proper simp: err_option_def split: option.split)

text \<open>
  A request goes as its components do for the bundle deployment it finds.
\<close>

lemma Reconcile_ends:
  assumes "aggregate_law NA" and "validateConfig NA c = None" and "finalizers_law c" and "bd_client_returns d cl" and "\<And>bd. eq_BD E bd bd"
    and ret: "\<And>bd w'. bc_Get cl req w = (Ok bd, w') \<Longrightarrow> components_return d K c (bd_core bd)"
  shows "ends d (fst (Reconcile NA E K cl c req (watched, w)))"
proof (cases "bc_Get cl req w")
  case (Pair r w1)
  show ?thesis
  proof (cases r)
    case (Ok bd)
    let ?s = "\<lparr>rs_bd = bd, rs_watched = watched, rs_world = w1\<rparr>"
    obtain r2 s2 where run: "reconcile K c ?s = (r2, s2)" by force
    have "config_errors c = []"
      using assms(1,2) by (auto simp: validateConfig_def aggregate_law_def)
    then have r2: "ends d r2"
      using reconcile_proper [OF ret _ assms(3), of bd w1 ?s] Pair Ok run by simp
    moreover have "bd_core (rs_bd s2) = bd_core bd"
      using core_kept.reconciles [of c "bd_core bd" ?s K] assms(3) run by (simp add: finalizers_law_def) metis
    then have "eq_BD E (bd_core bd) (bd_core (rs_bd s2))"
      using assms(5) by simp
    then have "ends d (fst (finish NA E cl bd (rs_bd s2) e w))" for e w
      by (rule finish_proper [OF assms(4)])
    ultimately show ?thesis
      using Pair Ok run by (cases r2) (auto simp: Reconcile_def split: prod.split, (metis fst_conv)+)
  next
    case (Err e)
    then show ?thesis using Pair by (simp add: Reconcile_def err_option_def split: option.split)
  qed (use Pair assms(4) returns_not(1,2) [of d "bc_Get cl req" w] in \<open>auto simp: Reconcile_def bd_client_returns_def\<close>)
qed

text \<open>C6. A request always ends, with a value or an error and without panic, when the configuration is valid and the components the
  controller calls end so for the bundle deployment of the request and, when the health checks are on, the status library has a result for every object: in particular the panic that guards the specification and the metadata of the object is never raised,
  no nil field is used, the state of the release is always a known one, and a release that is
  unchanged is always there.\<close>

theorem Reconcile_returns:
  assumes "aggregate_law NA" and "validateConfig NA c = None" and "finalizers_law c" and "bd_client_returns False cl" and "\<And>bd. eq_BD E bd bd"
    and "\<And>bd w'. bc_Get cl req w = (Ok bd, w') \<Longrightarrow> components_return False K c (bd_core bd)"
  shows "fst (Reconcile NA E K cl c req (watched, w)) = Ok () \<or> (\<exists>e. fst (Reconcile NA E K cl c req (watched, w)) = Err e)"
proof -
  have "ends False (fst (Reconcile NA E K cl c req (watched, w)))"
    by (rule Reconcile_ends [OF assms(1-5)]) (rule assms(6))
  then show ?thesis by (cases "fst (Reconcile NA E K cl c req (watched, w))") simp_all
qed

definition demo_bd_client :: "helm_world bd_client" where
  "demo_bd_client = \<lparr>bc_Get = (\<lambda>_ w. (Ok demo_owner, w)), bc_StatusUpdate = (\<lambda>bd w. (Ok bd, w)), bc_Update = (\<lambda>bd w. (Ok bd, w))\<rparr>"

definition plain_semantic :: semantic where
  "plain_semantic = \<lparr>eq_Status = (=), eq_Finalizers = (=), eq_BD = (=)\<rparr>"

lemma demo_components_return: "components_return d demo_ctrl_libs (demo_controller n) b"
proof -
  have "client_returns d demo_client"
    by (simp add: client_returns_def returns_def demo_client_def demo_put_def split: option.split)
  then show ?thesis
    by (auto simp: components_return_def returns_def demo_controller_def demo_ctrl_libs_def demo_store_def demo_check_def demo_result_def
        demo_health_libs_def ManifestObjects_def infosToObjects_def split: option.split)
qed

theorem Reconcile_returns_witness:
  "\<exists>r x. Reconcile plain_aggregate plain_semantic demo_ctrl_libs demo_bd_client (demo_controller ''bad'') \<lparr>nn_Namespace = [], nn_Name = ''bd''\<rparr> ({}, Map.empty)
      = (r, x) \<and> (r = Ok () \<or> (\<exists>e. r = Err e))"
proof -
  have "validateConfig plain_aggregate (demo_controller ''bad'') = None"
    by (simp add: validateConfig_def config_errors_def demo_controller_def plain_aggregate_def plain_ProvisionerID_def)
  moreover have "bd_client_returns False demo_bd_client"
    by (simp add: bd_client_returns_def returns_def demo_bd_client_def)
  moreover have "eq_BD plain_semantic bd bd" for bd
    by (simp add: plain_semantic_def)
  ultimately show ?thesis
    using Reconcile_returns [OF plain_aggregate_law _ demo_finalizers_law _ _ demo_components_return]
    by (metis prod.collapse)
qed

end
