(* ===== verification/Managers.thy ===== *)
theory Managers
  imports Controller_Props
begin

text \<open>
  The processes that run the controllers: the core manager (cmd/core/main.go, the plain and the
  registry provisioners) and the Helm manager (cmd/helm/main.go): their flags, the order of their
  set-up with every early exit, and the storage, finalizers, unpacker and options they put together.
  The manager, the Kubernetes clients, the registry of finalizers and Helm's client getters are parameters; the storage, the unpacker
  and the handlers are those of the other theories.
\<close>

section \<open>The storage a manager uses\<close>

text \<open>A part of the world, with the call on the part seen as a call on the world.\<close>

record ('w, 'x) lens =
  ln_get :: "'w \<Rightarrow> 'x"
  ln_put :: "'x \<Rightarrow> 'w \<Rightarrow> 'w"

definition lens_law :: "('w, 'x) lens \<Rightarrow> bool" where
  "lens_law l \<longleftrightarrow> (\<forall>w x. ln_get l (ln_put l x w) = x) \<and> (\<forall>w. ln_put l (ln_get l w) w = w) \<and> (\<forall>w x y. ln_put l y (ln_put l x w) = ln_put l y w)"

definition through :: "('w, 'x) lens \<Rightarrow> ('x, 'a) M \<Rightarrow> ('w, 'a) M" where
  "through l m w = (case m (ln_get l w) of (r, x) \<Rightarrow> (r, ln_put l x w))"

text \<open>A local directory as a value of the interface \<open>Storage\<close>. Walking a nil bundle dereferences nil.\<close>

definition local_store :: "('w, disk) lens \<Rightarrow> tarfs_new \<Rightarrow> nat \<Rightarrow> LocalDirectory \<Rightarrow> 'w bundle_store" where
  "local_store l tarfs_New depth s =
     \<lparr>bs_Load = (\<lambda>owner. through l (\<lambda>d. (LocalDirectory_Load tarfs_New s d owner, d))),
      bs_Store = (\<lambda>owner b. case b of
         None \<Rightarrow> (\<lambda>w. (Panic ''nil pointer dereference'', w))
       | Some fsys \<Rightarrow> through l (\<lambda>d. LocalDirectory_Store depth s d owner fsys)),
      bs_Delete = (\<lambda>owner. through l (\<lambda>d. LocalDirectory_Delete s d owner)),
      bs_URLFor = (\<lambda>owner w. (LocalDirectory_URLFor s owner, w))\<rparr>"

definition WithFallbackLoader :: "'w bundle_store \<Rightarrow> (BundleDeployment \<Rightarrow> ('w, fs_FS) M) \<Rightarrow> 'w bundle_store" where
  "WithFallbackLoader s fallback =
     s\<lparr>bs_Load := (\<lambda>owner w. case bs_Load s owner w of (Err err, w') \<Rightarrow> fallback owner w' | r \<Rightarrow> r)\<rparr>"

section \<open>Version and feature gates\<close>

text \<open>
  The version (internal/version): the settings of the build information, in their order, over the defaults. The feature gate
  (pkg/features): a gate that is not set by a flag has its default.
\<close>

record build_version =
  gitCommit :: string
  commitDate :: string
  repoState :: string

definition stateMap :: "string \<rightharpoonup> string" where
  "stateMap = [''true'' \<mapsto> ''dirty'', ''false'' \<mapsto> ''clean'']"

definition version_setting :: "string \<times> string \<Rightarrow> build_version \<Rightarrow> build_version" where
  "version_setting setting v =
     (if fst setting = ''vcs.revision'' then v\<lparr>gitCommit := snd setting\<rparr>
      else if fst setting = ''vcs.time'' then v\<lparr>commitDate := snd setting\<rparr>
      else if fst setting = ''vcs.modified'' then (case stateMap (snd setting) of Some st \<Rightarrow> v\<lparr>repoState := st\<rparr> | None \<Rightarrow> v)
      else v)"

definition version_init :: "(string \<times> string) list option \<Rightarrow> build_version" where
  "version_init info =
     (let v = \<lparr>gitCommit = ''unknown'', commitDate = ''unknown'', repoState = ''unknown''\<rparr> in
      case info of None \<Rightarrow> v | Some settings \<Rightarrow> fold version_setting settings v)"

definition version_String :: "build_version \<Rightarrow> string" where
  "version_String v = ''revision: '' @ fmt_q (gitCommit v) @ '', date: '' @ fmt_q (commitDate v) @ '', state: '' @ fmt_q (repoState v)"

definition BundleDeploymentHealth :: string where "BundleDeploymentHealth = ''BundleDeploymentHealth''"

definition rukpakFeatureGates :: "string \<rightharpoonup> bool" where
  "rukpakFeatureGates = [BundleDeploymentHealth \<mapsto> False]"

definition gate_enabled :: "(string \<rightharpoonup> bool) \<Rightarrow> string \<Rightarrow> bool" where
  "gate_enabled flag gate = ((rukpakFeatureGates ++ flag) gate = Some True)"

section \<open>Flags and libraries\<close>

record flags =
  fl_httpBindAddr :: string
  fl_httpExternalAddr :: string
  fl_bundleCAFile :: string
  fl_enableLeaderElection :: bool
  fl_probeAddr :: string
  fl_systemNamespace :: string
  fl_unpackCacheDir :: string
  fl_rukpakVersion :: bool
  fl_storageDirectory :: string
  fl_featureGates :: "string \<rightharpoonup> bool"

definition default_flags :: flags where
  "default_flags = \<lparr>fl_httpBindAddr = '':8080'', fl_httpExternalAddr = ''http://localhost:8080'', fl_bundleCAFile = [],
     fl_enableLeaderElection = False, fl_probeAddr = '':8081'', fl_systemNamespace = [], fl_unpackCacheDir = ''/var/cache/unpack'',
     fl_rukpakVersion = False, fl_storageDirectory = DefaultBundleCacheDir, fl_featureGates = Map.empty\<rparr>"

text \<open>
  The manager's options: where it listens, what it serves under which path, the namespaces it caches (all
  namespaces, for the objects with the owner label), and its leader election.
\<close>

record manager_options =
  mo_BindAddress :: string
  mo_Bundles :: LocalDirectory
  mo_BundlesPath :: string
  mo_HealthProbeBindAddress :: string
  mo_LeaderElection :: bool
  mo_LeaderElectionID :: string
  mo_SystemNamespace :: string
  mo_DependentLabel :: "string \<times> string list"

text \<open>What the handlers call, and what a manager calls.\<close>

record handler_libs =
  hl_Marshal :: "kobject \<Rightarrow> string result"
  hl_sha256 :: "string \<Rightarrow> nat list"
  hl_builder :: reader_builder
  hl_convert :: convert_libs
  hl_LoadArchive :: archive_loader
  hl_Validate :: "chart \<Rightarrow> gerror option"
  hl_MarshalJSON :: "json \<Rightarrow> json result"
  hl_ReadValues :: "string \<Rightarrow> json result"

record ('w, 'g, 'c, 's, 'k, 'r, 'a, 'l) manager_libs =
  ml_BuildInfo :: "(string \<times> string) list option"
  ml_NewRequirement :: "string \<times> string list \<Rightarrow> gerror option"
  ml_url_Parse :: "string \<Rightarrow> url result"
  ml_ReadFile :: "string \<Rightarrow> string result"
  ml_pem_Decode :: "string \<Rightarrow> ((string \<times> string) \<times> string) option"
  ml_ParseCertificate :: "string \<Rightarrow> string result"
  ml_GetConfig :: "string result"
  ml_NewManager :: "manager_options \<Rightarrow> gerror option"
  ml_disk :: "('w, disk) lens"
  ml_tarfs :: tarfs_new
  ml_depth :: nat
  ml_request_error :: "string \<Rightarrow> gerror option"
  ml_Do :: "'w \<Rightarrow> http_do"
  ml_Register :: "string list \<Rightarrow> string \<Rightarrow> gerror option"
  ml_Finalizers :: "(string \<times> (BundleDeployment \<Rightarrow> ('w, unit) M)) list \<Rightarrow> 'w finalizers"
  ml_sources :: "('s, 'k) source_libs"
  ml_source_world :: "('w, ('s, 'k, 'r, 'a, 'l) source_world) lens"
  ml_NewActionConfigGetter :: "(BundleDeployment \<Rightarrow> string) \<Rightarrow> (BundleDeployment \<Rightarrow> string) \<Rightarrow> 'g result"
  ml_NewActionClientGetter :: "'g \<Rightarrow> 'w action_getter result"
  ml_NewCRDClient :: "('w \<Rightarrow> 'c preflight_libs) result"
  ml_NewAggregate :: new_aggregate
  ml_Build :: "manager_setup \<Rightarrow> gerror option"
  ml_AddHealthzCheck :: "string \<Rightarrow> gerror option"
  ml_AddReadyzCheck :: "string \<Rightarrow> gerror option"
  ml_handlers :: handler_libs

section \<open>Setting up a manager\<close>

text \<open>
  How the set-up ends: with the version printed, with an exit after a message, in a panic, in a call that does not return, or at the start of the manager with its
  options and controllers.
\<close>

datatype 'p process = VersionPrinted string | Exited string gerror | Crashed string | Hung | Started 'p

type_synonym 'w manager_process = "(manager_options \<times> 'w controller list) process"

definition or_exit :: "'a result \<Rightarrow> string \<Rightarrow> ('a \<Rightarrow> 'p process) \<Rightarrow> 'p process" where
  "or_exit r msg k = (case r of Inl err \<Rightarrow> Exited msg err | Inr x \<Rightarrow> k x)"

definition check_exit :: "gerror option \<Rightarrow> string \<Rightarrow> 'p process \<Rightarrow> 'p process" where
  "check_exit err msg k = (case err of Some e \<Rightarrow> Exited msg e | None \<Rightarrow> k)"

definition outcome_exit :: "'a outcome \<Rightarrow> string \<Rightarrow> ('a \<Rightarrow> 'p process) \<Rightarrow> 'p process" where
  "outcome_exit r msg k =
     (case r of Ok x \<Rightarrow> k x | Err e \<Rightarrow> Exited msg e | Panic p \<Rightarrow> Crashed p | Diverge \<Rightarrow> Hung)"

definition dependentRequirement :: "string \<times> string list" where
  "dependentRequirement = (CoreOwnerKindKey, [BundleDeploymentKind])"

definition system_namespace :: "('w, 'g, 'c, 's, 'k, 'r, 'a, 'l) manager_libs \<Rightarrow> flags \<Rightarrow> string" where
  "system_namespace L f = (if fl_systemNamespace f = [] then PodNamespace (ml_ReadFile L) else fl_systemNamespace f)"

definition new_local_storage :: "flags \<Rightarrow> url \<Rightarrow> LocalDirectory" where
  "new_local_storage f storageURL = \<lparr>ld_RootDirectory = fl_storageDirectory f, ld_URL = storageURL\<rparr>"

definition root_CAs :: "('w, 'g, 'c, 's, 'k, 'r, 'a, 'l) manager_libs \<Rightarrow> flags \<Rightarrow> string list option outcome" where
  "root_CAs L f =
     (if fl_bundleCAFile f = [] then Ok None
      else obind (LoadCertPool (ml_pem_Decode L) (ml_ParseCertificate L) (ml_ReadFile L) (fl_bundleCAFile f)) (\<lambda>pool. Ok (Some pool)))"

definition new_bundle_storage :: "('w, 'g, 'c, 's, 'k, 'r, 'a, 'l) manager_libs \<Rightarrow> string \<Rightarrow> LocalDirectory \<Rightarrow> string list option \<Rightarrow> 'w bundle_store" where
  "new_bundle_storage L bearerToken localStorage rootCAs =
     (let httpLoader = NewHTTP [WithRootCAs rootCAs, WithBearerToken bearerToken] in
      WithFallbackLoader (local_store (ml_disk L) (ml_tarfs L) (ml_depth L) localStorage)
        (\<lambda>owner w. (HTTP_Load (ml_tarfs L) (ml_request_error L) (ml_Do L w) httpLoader owner, w)))"

text \<open>The default unpacker, on its part of the world (the constructor never fails); and the three handlers.\<close>

definition default_unpacker :: "('w, 'g, 'c, 's, 'k, 'r, 'a, 'l) manager_libs \<Rightarrow> string \<Rightarrow> string \<Rightarrow> 'w Unpacker result" where
  "default_unpacker L namespace cacheDir =
     (let u = NewDefaultUnpacker (ml_sources L) namespace cacheDir; l = ml_source_world L in
      Inr \<lparr>up_Unpack = (\<lambda>bd. through l (up_Unpack u bd)), up_Cleanup = (\<lambda>bd. through l (up_Cleanup u bd))\<rparr>)"

definition plain_handler_of :: "('w, 'g, 'c, 's, 'k, 'r, 'a, 'l) manager_libs \<Rightarrow> handler" where
  "plain_handler_of L = (let h = ml_handlers L in plain_HandleBundleDeployment (hl_Marshal h) (hl_sha256 h) (hl_builder h))"

definition registry_handler_of :: "('w, 'g, 'c, 's, 'k, 'r, 'a, 'l) manager_libs \<Rightarrow> handler" where
  "registry_handler_of L = (let h = ml_handlers L in registry_HandleBundleDeployment (hl_convert h) (hl_Marshal h) (hl_sha256 h) (hl_builder h))"

definition helm_handler_of :: "('w, 'g, 'c, 's, 'k, 'r, 'a, 'l) manager_libs \<Rightarrow> handler" where
  "helm_handler_of L =
     (let h = ml_handlers L in helm_HandleBundleDeployment (ml_depth L) (hl_LoadArchive h) (hl_Validate h) (hl_MarshalJSON h) (hl_ReadValues h))"

text \<open>The two finalizers, each registered under its key; the registry refuses a key it does not accept after the ones before.\<close>

definition with_finalizers ::
  "('w, 'g, 'c, 's, 'k, 'r, 'a, 'l) manager_libs \<Rightarrow> flags \<Rightarrow> string \<Rightarrow> 'w bundle_store \<Rightarrow> ('w Unpacker \<Rightarrow> 'w finalizers \<Rightarrow> 'w manager_process) \<Rightarrow> 'w manager_process" where
  "with_finalizers L f systemNamespace bundleStorage k =
     check_exit (ml_Register L [] DeleteCachedBundleKey) ''unable to register finalizer'' (
     or_exit (default_unpacker L systemNamespace (fl_unpackCacheDir f)) ''unable to setup bundle unpacker'' (\<lambda>unpacker.
     check_exit (ml_Register L [DeleteCachedBundleKey] CleanupUnpackCacheKey) ''unable to register finalizer'' (
       k unpacker (ml_Finalizers L [(DeleteCachedBundleKey, DeleteCachedBundle_Finalize bundleStorage),
                                    (CleanupUnpackCacheKey, CleanupUnpackCache_Finalize unpacker)]))))"

definition bdNamespaceMapper :: "BundleDeployment \<Rightarrow> string" where
  "bdNamespaceMapper bd = spec_InstallNamespace (bd_Spec bd)"

definition with_action_clients :: "('w, 'g, 'c, 's, 'k, 'r, 'a, 'l) manager_libs \<Rightarrow> string \<Rightarrow> ('w action_getter \<Rightarrow> 'w manager_process) \<Rightarrow> 'w manager_process" where
  "with_action_clients L systemNamespace k =
     or_exit (ml_NewActionConfigGetter L bdNamespaceMapper (\<lambda>_. systemNamespace)) ''unable to create action config getter'' (\<lambda>cfgGetter.
     or_exit (ml_NewActionClientGetter L cfgGetter) ''unable to create action client getter'' k)"

definition with_controller ::
  "('w, 'g, 'c, 's, 'k, 'r, 'a, 'l) manager_libs \<Rightarrow> string \<Rightarrow> ('w controller \<Rightarrow> 'w controller) list \<Rightarrow> ('w controller \<Rightarrow> 'w manager_process) \<Rightarrow> 'w manager_process" where
  "with_controller L systemNamespace opts k =
     outcome_exit (SetupWithManager (ml_NewAggregate L) (ml_Build L) systemNamespace opts) ''unable to create controller'' k"

definition start_manager :: "('w, 'g, 'c, 's, 'k, 'r, 'a, 'l) manager_libs \<Rightarrow> manager_options \<Rightarrow> 'w controller list \<Rightarrow> 'w manager_process" where
  "start_manager L mo cs =
     check_exit (ml_AddHealthzCheck L ''healthz'') ''unable to set up health check'' (
     check_exit (ml_AddReadyzCheck L ''readyz'') ''unable to set up ready check'' (Started (mo, cs)))"

definition new_manager_options :: "flags \<Rightarrow> string \<Rightarrow> string \<Rightarrow> LocalDirectory \<Rightarrow> manager_options" where
  "new_manager_options f leaderElectionID systemNamespace localStorage =
     \<lparr>mo_BindAddress = fl_httpBindAddr f, mo_Bundles = localStorage, mo_BundlesPath = ''/bundles/'',
      mo_HealthProbeBindAddress = fl_probeAddr f, mo_LeaderElection = fl_enableLeaderElection f, mo_LeaderElectionID = leaderElectionID,
      mo_SystemNamespace = systemNamespace, mo_DependentLabel = dependentRequirement\<rparr>"

text \<open>The checks of the CRD preflight as a value of the interface \<open>Preflight\<close>.\<close>

definition crd_check :: "('w \<Rightarrow> 'c preflight_libs) \<Rightarrow> Preflight \<Rightarrow> 'w release_check" where
  "crd_check P p = \<lparr>rc_Install = (\<lambda>rel w. (Preflight_Install p rel, w)), rc_Upgrade = (\<lambda>rel w. (Preflight_Upgrade (P w) p rel, w))\<rparr>"

text \<open>The gate of the health checks in each manager: only the core manager adds the flag of the feature gates.\<close>

definition core_health_gate :: "flags \<Rightarrow> bool" where
  "core_health_gate f = gate_enabled (fl_featureGates f) BundleDeploymentHealth"

definition helm_health_gate :: bool where
  "helm_health_gate = gate_enabled Map.empty BundleDeploymentHealth"

text \<open>The controllers of each manager, on the parts they share, and the start.\<close>

definition core_controllers ::
  "('w, 'g, 'c, 's, 'k, 'r, 'a, 'l) manager_libs \<Rightarrow> string \<Rightarrow> manager_options \<Rightarrow> 'w action_getter \<Rightarrow> 'w finalizers \<Rightarrow> 'w bundle_store \<Rightarrow> 'w Unpacker
   \<Rightarrow> 'w manager_process" where
  "core_controllers L systemNamespace mo acg bundleFinalizers bundleStorage unpacker =
     or_exit (ml_NewCRDClient L) ''unable to create apiextensions client'' (\<lambda>aeClient.
     let commonBDProvisionerOptions = [WithActionClientGetter (Some acg), WithFinalizers (Some bundleFinalizers),
           WithStorage (Some bundleStorage), WithUnpacker (Some unpacker), WithPreflights [crd_check aeClient (NewPreflight [])]] in
     with_controller L systemNamespace (commonBDProvisionerOptions @ [WithProvisionerID plain_ProvisionerID, WithHandler (Some (plain_handler_of L))]) (\<lambda>c1.
     with_controller L systemNamespace (commonBDProvisionerOptions @ [WithProvisionerID registry_ProvisionerID, WithHandler (Some (registry_handler_of L))]) (\<lambda>c2.
     start_manager L mo [c1, c2])))"

definition helm_controllers ::
  "('w, 'g, 'c, 's, 'k, 'r, 'a, 'l) manager_libs \<Rightarrow> string \<Rightarrow> manager_options \<Rightarrow> 'w action_getter \<Rightarrow> 'w finalizers \<Rightarrow> 'w bundle_store \<Rightarrow> 'w Unpacker
   \<Rightarrow> 'w manager_process" where
  "helm_controllers L systemNamespace mo acg bundleFinalizers bundleStorage unpacker =
     (let commonBDProvisionerOptions = [WithFinalizers (Some bundleFinalizers), WithActionClientGetter (Some acg),
           WithStorage (Some bundleStorage), WithUnpacker (Some unpacker)] in
      with_controller L systemNamespace (commonBDProvisionerOptions @ [WithProvisionerID helm_ProvisionerID, WithHandler (Some (helm_handler_of L))]) (\<lambda>c1.
      start_manager L mo [c1]))"

definition core_main :: "('w, 'g, 'c, 's, 'k, 'r, 'a, 'l) manager_libs \<Rightarrow> flags \<Rightarrow> 'w manager_process" where
  "core_main L f =
     (if fl_rukpakVersion f then VersionPrinted (version_String (version_init (ml_BuildInfo L)))
      else
        check_exit (ml_NewRequirement L dependentRequirement) ''unable to create dependent label selector for cache'' (
        or_exit (ml_GetConfig L) ''unable to get kubeconfig'' (\<lambda>cfg.
        let systemNamespace = system_namespace L f in
        or_exit (ml_url_Parse L (fl_httpExternalAddr f @ ''/bundles/'')) ''unable to parse bundle content server URL'' (\<lambda>storageURL.
        let localStorage = new_local_storage f storageURL; mo = new_manager_options f ''core.rukpak.io'' systemNamespace localStorage in
        check_exit (ml_NewManager L mo) ''unable to create manager'' (
        outcome_exit (root_CAs L f) ''unable to parse bundle certificate authority file'' (\<lambda>rootCAs.
        let bundleStorage = new_bundle_storage L cfg localStorage rootCAs in
        with_finalizers L f systemNamespace bundleStorage (\<lambda>unpacker bundleFinalizers.
        with_action_clients L systemNamespace (\<lambda>acg.
        core_controllers L systemNamespace mo acg bundleFinalizers bundleStorage unpacker))))))))"

definition helm_main :: "('w, 'g, 'c, 's, 'k, 'r, 'a, 'l) manager_libs \<Rightarrow> flags \<Rightarrow> 'w manager_process" where
  "helm_main L f =
     (if fl_rukpakVersion f then VersionPrinted (version_String (version_init (ml_BuildInfo L)))
      else
        check_exit (ml_NewRequirement L dependentRequirement) ''unable to create dependent label selector for cache'' (
        or_exit (ml_GetConfig L) ''unable to get kubeconfig'' (\<lambda>cfg.
        let systemNamespace = system_namespace L f in
        or_exit (ml_url_Parse L (fl_httpExternalAddr f @ ''/bundles/'')) ''unable to parse bundle content server URL'' (\<lambda>storageURL.
        let localStorage = new_local_storage f storageURL in
        outcome_exit (root_CAs L f) ''unable to parse bundle certificate authority file'' (\<lambda>rootCAs.
        let bundleStorage = new_bundle_storage L cfg localStorage rootCAs;
            mo = new_manager_options f ''helm.core.rukpak.io'' systemNamespace localStorage in
        check_exit (ml_NewManager L mo) ''unable to create manager'' (
        with_finalizers L f systemNamespace bundleStorage (\<lambda>unpacker bundleFinalizers.
        with_action_clients L systemNamespace (\<lambda>acg.
        helm_controllers L systemNamespace mo acg bundleFinalizers bundleStorage unpacker))))))))"

section \<open>What a started manager runs\<close>

lemma or_exit_Started [simp]: "or_exit r msg k = Started p \<longleftrightarrow> (\<exists>x. r = Inr x \<and> k x = Started p)"
  by (auto simp: or_exit_def split: sum.split)

lemma check_exit_Started [simp]: "check_exit e msg k = Started p \<longleftrightarrow> e = None \<and> k = Started p"
  by (auto simp: check_exit_def split: option.split)

lemma outcome_exit_Started [simp]: "outcome_exit r msg k = Started p \<longleftrightarrow> (\<exists>x. r = Ok x \<and> k x = Started p)"
  by (auto simp: outcome_exit_def split: outcome.split)

lemma SetupWithManager_Ok:
  "SetupWithManager NA Build ns opts = Ok c \<Longrightarrow> c = foldl (\<lambda>c f. f c) empty_controller opts"
  by (auto simp: SetupWithManager_def Let_def split: option.splits)

lemmas options = WithHandler_def WithProvisionerID_def WithFinalizers_def WithStorage_def WithUnpacker_def WithActionClientGetter_def
  WithPreflights_def empty_controller_def

text \<open>A controller of a manager: every part it shares with the others, its identifier and its handler.\<close>

definition managed ::
  "('w, 'g, 'c, 's, 'k, 'r, 'a, 'l) manager_libs \<Rightarrow> flags \<Rightarrow> 'w bundle_store \<Rightarrow> 'w action_getter \<Rightarrow> 'w release_check list
   \<Rightarrow> string \<Rightarrow> handler \<Rightarrow> 'w controller" where
  "managed L f sto acg checks provisionerID h =
     (let u = projr (default_unpacker L (system_namespace L f) (fl_unpackCacheDir f)) in
      \<lparr>c_handler = Some h, c_provisionerID = provisionerID, c_acg = Some acg, c_storage = Some sto, c_preflights = checks,
       c_unpacker = Some u,
       c_finalizers = Some (ml_Finalizers L [(DeleteCachedBundleKey, DeleteCachedBundle_Finalize sto),
                                             (CleanupUnpackCacheKey, CleanupUnpackCache_Finalize u)])\<rparr>)"

definition storage_of ::
  "('w, 'g, 'c, 's, 'k, 'r, 'a, 'l) manager_libs \<Rightarrow> flags \<Rightarrow> manager_options \<Rightarrow> string \<Rightarrow> 'w bundle_store \<Rightarrow> bool" where
  "storage_of L f mo ident sto \<longleftrightarrow>
     (\<exists>cfg url CAs. ml_url_Parse L (fl_httpExternalAddr f @ ''/bundles/'') = Inr url \<and> root_CAs L f = Ok CAs \<and>
        mo = new_manager_options f ident (system_namespace L f) (new_local_storage f url) \<and> sto = new_bundle_storage L cfg (mo_Bundles mo) CAs)"

lemma managed_eq:
  "default_unpacker L (system_namespace L f) (fl_unpackCacheDir f) = Inr u \<Longrightarrow>
   \<lparr>c_handler = Some h, c_provisionerID = i, c_acg = Some acg, c_storage = Some sto, c_preflights = checks, c_unpacker = Some u,
        c_finalizers = Some (ml_Finalizers L [(DeleteCachedBundleKey, DeleteCachedBundle_Finalize sto),
                                              (CleanupUnpackCacheKey, CleanupUnpackCache_Finalize u)])\<rparr>
     = managed L f sto acg checks i h"
  by (simp add: managed_def)

lemmas mains = Let_def core_controllers_def helm_controllers_def with_finalizers_def with_action_clients_def with_controller_def start_manager_def

lemma core_main_Started:
  assumes "core_main L f = Started (mo, cs)"
  obtains sto g acg ae where "storage_of L f mo ''core.rukpak.io'' sto" "ml_NewActionClientGetter L g = Inr acg" "ml_NewCRDClient L = Inr ae"
    "cs = [managed L f sto acg [crd_check ae (NewPreflight [])] plain_ProvisionerID (plain_handler_of L),
           managed L f sto acg [crd_check ae (NewPreflight [])] registry_ProvisionerID (registry_handler_of L)]"
proof -
  from assms obtain cfg url CAs u g acg ae where
    "ml_url_Parse L (fl_httpExternalAddr f @ ''/bundles/'') = Inr url" "root_CAs L f = Ok CAs"
    "mo = new_manager_options f ''core.rukpak.io'' (system_namespace L f) (new_local_storage f url)"
    and u: "default_unpacker L (system_namespace L f) (fl_unpackCacheDir f) = Inr u" and "ml_NewActionClientGetter L g = Inr acg" "ml_NewCRDClient L = Inr ae"
    and "cs = [managed L f (new_bundle_storage L cfg (new_local_storage f url) CAs) acg [crd_check ae (NewPreflight [])] plain_ProvisionerID (plain_handler_of L),
               managed L f (new_bundle_storage L cfg (new_local_storage f url) CAs) acg [crd_check ae (NewPreflight [])] registry_ProvisionerID (registry_handler_of L)]"
    by (auto simp: core_main_def mains options managed_eq dest!: SetupWithManager_Ok split: if_splits)
  then show thesis
    by (intro that [of "new_bundle_storage L cfg (new_local_storage f url) CAs"]) (auto simp: storage_of_def new_manager_options_def)
qed

lemma helm_main_Started:
  assumes "helm_main L f = Started (mo, cs)"
  obtains sto g acg where "storage_of L f mo ''helm.core.rukpak.io'' sto" "ml_NewActionClientGetter L g = Inr acg"
    "cs = [managed L f sto acg [] helm_ProvisionerID (helm_handler_of L)]"
proof -
  from assms obtain cfg url CAs u g acg where
    "ml_url_Parse L (fl_httpExternalAddr f @ ''/bundles/'') = Inr url" "root_CAs L f = Ok CAs"
    "mo = new_manager_options f ''helm.core.rukpak.io'' (system_namespace L f) (new_local_storage f url)"
    and u: "default_unpacker L (system_namespace L f) (fl_unpackCacheDir f) = Inr u" and "ml_NewActionClientGetter L g = Inr acg"
    and "cs = [managed L f (new_bundle_storage L cfg (new_local_storage f url) CAs) acg [] helm_ProvisionerID (helm_handler_of L)]"
    by (auto simp: helm_main_def mains options managed_eq dest!: SetupWithManager_Ok split: if_splits)
  then show thesis
    by (intro that [of "new_bundle_storage L cfg (new_local_storage f url) CAs"]) (auto simp: storage_of_def new_manager_options_def)
qed

text \<open>The parts of a controller of a started manager.\<close>

definition made_of ::
  "('w, 'g, 'c, 's, 'k, 'r, 'a, 'l) manager_libs \<Rightarrow> flags \<Rightarrow> manager_options \<Rightarrow> 'w bundle_store \<Rightarrow> 'w action_getter \<Rightarrow> 'w release_check list \<Rightarrow> string \<Rightarrow> handler
   \<Rightarrow> 'w controller \<Rightarrow> bool" where
  "made_of L f mo sto acg checks i h c \<longleftrightarrow>
     c = managed L f sto acg checks i h \<and> (\<exists>ident. storage_of L f mo ident sto) \<and> (\<exists>g. ml_NewActionClientGetter L g = Inr acg) \<and> i \<noteq> [] \<and>
     h \<in> {plain_handler_of L, registry_handler_of L, helm_handler_of L} \<and> (\<forall>p\<in>set checks. \<exists>ae q. ml_NewCRDClient L = Inr ae \<and> p = crd_check ae q)"

lemma started_parts:
  assumes "core_main L f = Started (mo, cs) \<or> helm_main L f = Started (mo, cs)" and "c \<in> set cs"
  obtains sto acg checks i h where "made_of L f mo sto acg checks i h c"
proof -
  have "\<exists>sto acg checks i h. made_of L f mo sto acg checks i h c"
    using assms(1)
  proof (elim disjE core_main_Started helm_main_Started, goal_cases)
    case (1 sto g acg ae)
    have ids: "plain_ProvisionerID \<noteq> []" "registry_ProvisionerID \<noteq> []"
      by (simp_all add: plain_ProvisionerID_def registry_ProvisionerID_def)
    have "made_of L f mo sto acg [crd_check ae (NewPreflight [])] plain_ProvisionerID (plain_handler_of L) c \<or>
        made_of L f mo sto acg [crd_check ae (NewPreflight [])] registry_ProvisionerID (registry_handler_of L) c"
      using 1 assms(2) ids unfolding made_of_def by auto
    then show ?case by blast
  next
    case (2 sto g acg)
    have "made_of L f mo sto acg [] helm_ProvisionerID (helm_handler_of L) c"
      using 2 assms(2) unfolding made_of_def by (auto simp: helm_ProvisionerID_def)
    then show ?case by blast
  qed
  then show ?thesis using that by blast
qed

text \<open>Every controller of a started manager stores its bundles in the directory that the manager serves.\<close>

lemma started_storage:
  assumes "core_main L f = Started (mo, cs) \<or> helm_main L f = Started (mo, cs)" and "c \<in> set cs"
  obtains cfg CAs where "c_storage c = Some (new_bundle_storage L cfg (mo_Bundles mo) CAs)"
  using assms by (auto simp: managed_def storage_of_def Let_def elim!: core_main_Started helm_main_Started)

text \<open>The Helm manager is built without preflights.\<close>

lemma helm_manager_no_preflights: "helm_main L f = Started (mo, cs) \<Longrightarrow> c \<in> set cs \<Longrightarrow> c_preflights c = []"
  by (elim helm_main_Started) (simp add: managed_def Let_def)

text \<open>The health checks can be enabled in the core manager only.\<close>

lemma helm_manager_no_health_gate: "\<not> helm_health_gate" "core_health_gate (f\<lparr>fl_featureGates := [BundleDeploymentHealth \<mapsto> b]\<rparr>) = b"
  by (simp_all add: helm_health_gate_def core_health_gate_def gate_enabled_def rukpakFeatureGates_def)

section \<open>What a manager's storage gives back\<close>

definition same_files :: "nat \<Rightarrow> fs_FS option \<Rightarrow> fs_FS \<Rightarrow> bool" where
  "same_files depth x fsys \<longleftrightarrow>
     (\<exists>b. x = Some b \<and>
        (distinct (map fst (bundle_entries depth b)) \<and> list_all ValidPath (map fst (bundle_entries depth b)) \<longrightarrow>
           (\<forall>(p, e) \<in> set (bundle_entries depth b). regular_entry e \<longrightarrow> fs_ReadFile fsys p = fs_ReadFile b p)))"

lemma through_iff: "through l m w = (r, w') \<longleftrightarrow> (\<exists>x. m (ln_get l w) = (r, x) \<and> w' = ln_put l x w)"
  by (auto simp: through_def split: prod.splits)

lemma lens_get [simp]: "lens_law l \<Longrightarrow> ln_get l (ln_put l x w) = x"
  by (simp add: lens_law_def)

lemma new_bundle_storage_stores:
  assumes lens: "lens_law (ml_disk L)" and tar: "tarfs_law (ml_tarfs L)"
  shows "stores_as (new_bundle_storage L cfg s CAs) (same_files (ml_depth L))"
  unfolding stores_as_def
proof (intro allI impI)
  fix bd bd' x fsys url w w1 w2 w3
  let ?sto = "new_bundle_storage L cfg s CAs"
  assume st: "bs_Store ?sto bd x w = (Ok (), w1)" and url: "bs_URLFor ?sto bd w1 = (Ok url, w2)"
    and ld: "bs_Load ?sto bd' w2 = (Ok fsys, w3)" and core: "bd_core bd' = bd_core bd"
  from st obtain b d' where x: "x = Some b" and d': "LocalDirectory_Store (ml_depth L) s (ln_get (ml_disk L) w) bd b = (Ok (), d')"
    and w1: "w1 = ln_put (ml_disk L) d' w"
    by (auto simp: new_bundle_storage_def WithFallbackLoader_def local_store_def Let_def through_iff split: option.splits)
  have w2: "ln_get (ml_disk L) w2 = d'"
    using url w1 lens by (auto simp: new_bundle_storage_def WithFallbackLoader_def local_store_def Let_def)
  have name: "bd_Name bd' = bd_Name bd" using core by (metis bd_core_fields(1))
  obtain es where es: "FSToTarGZ (ml_depth L) (\<lambda>_. None) b = Ok es" using d' by (auto simp: Store_Ok)
  have "fs_ReadFile fsys p = fs_ReadFile b p"
    if wf: "distinct (map fst (bundle_entries (ml_depth L) b))" "list_all ValidPath (map fst (bundle_entries (ml_depth L) b))"
      and mem: "(p, e) \<in> set (bundle_entries (ml_depth L) b)" "regular_entry e" for p e
  proof -
    from archive_reads_back [OF tar es wf] obtain fsys' where fs': "ml_tarfs L es = Inr fsys'"
      "fs_ReadFile fsys' p = fs_ReadFile b p" using mem by fastforce
    then have "LocalDirectory_Load (ml_tarfs L) s d' bd' = Ok fsys'"
      using local_dir.load_store [OF d' name, of "ml_tarfs L"] by (simp add: stored_image_def es)
    then have "fsys = fsys'"
      using ld w2 by (simp add: new_bundle_storage_def WithFallbackLoader_def local_store_def Let_def through_def)
    then show ?thesis using fs' by simp
  qed
  then show "same_files (ml_depth L) x fsys"
    unfolding same_files_def x by blast
qed

section \<open>Properties\<close>

definition accepts_bd :: "string \<Rightarrow> 'w controller \<Rightarrow> BundleDeployment \<Rightarrow> bool" where
  "accepts_bd ns c bd \<longleftrightarrow> su_For (controller_setup ns c) bd"

lemma managed_accepts [simp]:
  "accepts_bd ns (managed L f sto acg checks i h) bd \<longleftrightarrow> spec_ProvisionerClassName (bd_Spec bd) = i"
  by (simp add: accepts_bd_def controller_setup_def managed_def Let_def BundleDeploymentProvisionerFilter_def)

lemma managed_configured: "i \<noteq> [] \<Longrightarrow> config_errors (managed L f sto acg checks i h) = []"
  by (simp add: config_errors_def managed_def Let_def)

lemmas provisionerIDs = plain_ProvisionerID_def registry_ProvisionerID_def helm_ProvisionerID_def

text \<open>C33. Of the controllers that a core manager and a Helm manager run together, one accepts a bundle deployment whose class is one of
  the three provisioners, and none accepts any other; every one of them is completely configured.\<close>

theorem one_controller_per_bundle_deployment:
  assumes "core_main L f = Started (mo, cs)" and "helm_main L' f' = Started (mo', cs')"
  shows "length (filter (\<lambda>c. accepts_bd ns c bd) (cs @ cs')) =
      (if spec_ProvisionerClassName (bd_Spec bd) \<in> {plain_ProvisionerID, registry_ProvisionerID, helm_ProvisionerID} then 1 else 0)
    \<and> (\<forall>c \<in> set (cs @ cs'). config_errors c = [])"
  using assms
  by (elim core_main_Started helm_main_Started) (auto simp: managed_configured provisionerIDs)

lemma managed_unpacks:
  assumes "unpacked_as (managed L f sto acg checks i h) b res"
  shows "\<exists>bd w w' x. bd_core bd = b \<and> res_State res = StateUnpacked \<and> res_Bundle res = Some x \<and>
     up_Unpack (NewDefaultUnpacker (ml_sources L) (system_namespace L f) (fl_unpackCacheDir f)) bd (ln_get (ml_source_world L) w) = (Ok res, w')"
proof -
  obtain bd w w' where bd: "bd_core bd = b" and st: "res_State res = StateUnpacked"
    and run: "up_Unpack (NewDefaultUnpacker (ml_sources L) (system_namespace L f) (fl_unpackCacheDir f)) bd (ln_get (ml_source_world L) w) = (Ok res, w')"
    using assms by (auto simp: unpacked_as_def managed_def default_unpacker_def Let_def through_iff)
  then show ?thesis
    using default_unpacker_result_ok [OF run] by (auto simp: result_ok_def split: option.splits)
qed

section \<open>A small manager\<close>

text \<open>
  A manager over a disk and an HTTP server with one archive, for the witnesses, in a world that also has the bundle deployments of an API server. Its Helm client knows no
  release and installs every chart.
\<close>

type_synonym demo_world = "disk \<times> (unit, unit, string, unit, string) source_world \<times> (string \<rightharpoonup> BundleDeployment)"

definition fresh_client :: "'w ActionInterface" where
  "fresh_client = \<lparr>ai_Get = (\<lambda>n w. (Err (ReleaseNotFound ''release: not found''), w)),
     ai_Install = (\<lambda>n ns c v opts w. (Ok (demo_render n c), w)), ai_Upgrade = (\<lambda>n ns c v opts w. (Ok (demo_render n c), w)),
     ai_Reconcile = (\<lambda>r w. (Ok (), w))\<rparr>"

definition demo_handlers :: handler_libs where
  "demo_handlers = \<lparr>hl_Marshal = (\<lambda>_. Inr ''y''), hl_sha256 = (\<lambda>_. [2, 3]), hl_builder = demo_builder, hl_convert = demo_convert_libs,
     hl_LoadArchive = demo_loader, hl_Validate = (\<lambda>_. None), hl_MarshalJSON = Inr, hl_ReadValues = (\<lambda>_. Inr JNull)\<rparr>"

definition demo_manager :: "(demo_world, unit, nat, unit, unit, string, unit, string) manager_libs" where
  "demo_manager = \<lparr>ml_BuildInfo = None, ml_NewRequirement = (\<lambda>_. None), ml_url_Parse = (\<lambda>s. Inr \<lparr>url_String = s, url_Path = ''/bundles/''\<rparr>),
     ml_ReadFile = (\<lambda>_. Inl (Msg [])), ml_pem_Decode = (\<lambda>_. None), ml_ParseCertificate = Inr, ml_GetConfig = Inr ''token'',
     ml_NewManager = (\<lambda>_. None), ml_disk = \<lparr>ln_get = fst, ln_put = (\<lambda>d w. (d, snd w))\<rparr>, ml_tarfs = tar_MapFS, ml_depth = 4,
     ml_request_error = (\<lambda>_. None), ml_Do = (\<lambda>_. demo_server), ml_Register = (\<lambda>_ _. None), ml_Finalizers = (\<lambda>_ bd w. (Ok (bd, None), w)),
     ml_sources = demo_libs, ml_source_world = \<lparr>ln_get = (\<lambda>w. fst (snd w)), ln_put = (\<lambda>x w. (fst w, x, snd (snd w)))\<rparr>,
     ml_NewActionConfigGetter = (\<lambda>_ _. Inr ()), ml_NewActionClientGetter = (\<lambda>_. Inr (\<lambda>_ w. (Ok fresh_client, w))),
     ml_NewCRDClient = Inr (\<lambda>_. demo_preflight_libs), ml_NewAggregate = plain_aggregate, ml_Build = (\<lambda>_. None),
     ml_AddHealthzCheck = (\<lambda>_. None), ml_AddReadyzCheck = (\<lambda>_. None), ml_handlers = demo_handlers\<rparr>"

lemma demo_started_with:
  assumes "\<not> fl_rukpakVersion f" and "fl_bundleCAFile f = []"
  shows "\<exists>mo c cs. core_main demo_manager f = Started (mo, c # cs)" "\<exists>mo cs. helm_main demo_manager f = Started (mo, cs)"
  by (simp_all add: assms core_main_def helm_main_def mains demo_manager_def or_exit_def check_exit_def outcome_exit_def
      root_CAs_def SetupWithManager_def validateConfig_def config_errors_def options default_unpacker_def plain_aggregate_def provisionerIDs)

lemmas demo_started = demo_started_with [where f = default_flags, simplified default_flags_def, simplified, folded default_flags_def]

theorem one_controller_per_bundle_deployment_witness:
  "\<exists>mo cs mo' cs'. core_main demo_manager default_flags = Started (mo, cs) \<and> helm_main demo_manager default_flags = Started (mo', cs') \<and>
     length (filter (\<lambda>c. accepts_bd ''rukpak-system'' c (mk_bd ''b'' plain_ProvisionerID (empty_source SourceTypeHTTP))) (cs @ cs')) = 1 \<and>
     length (filter (\<lambda>c. accepts_bd ''rukpak-system'' c (mk_bd ''b'' ''other'' (empty_source SourceTypeHTTP))) (cs @ cs')) = 0"
proof -
  obtain mo cs mo' cs' where run: "core_main demo_manager default_flags = Started (mo, cs)" "helm_main demo_manager default_flags = Started (mo', cs')"
    using demo_started by blast
  show ?thesis
    using run one_controller_per_bundle_deployment [OF run, of "''rukpak-system''" "mk_bd ''b'' plain_ProvisionerID (empty_source SourceTypeHTTP)"]
      one_controller_per_bundle_deployment [OF run, of "''rukpak-system''" "mk_bd ''b'' ''other'' (empty_source SourceTypeHTTP)"]
    by (fastforce simp: mk_bd_def provisionerIDs)
qed

text \<open>The first controller of the small manager reconciles a bundle deployment with the archive of the HTTP server.\<close>

definition demo_world_with :: "(string \<rightharpoonup> BundleDeployment) \<Rightarrow> demo_world" where
  "demo_world_with objs = (empty_disk, demo_source_world\<lparr>sw_Secret := (\<lambda>_ _. Inr \<lparr>secret_Data = [''username'' \<mapsto> ''u'', ''password'' \<mapsto> ''p'']\<rparr>)\<rparr>, objs)"

abbreviation demo_http_world :: demo_world where
  "demo_http_world \<equiv> demo_world_with Map.empty"

definition demo_unpacked_fs :: fs_FS where
  "demo_unpacked_fs = projr (tar_MapFS demo_archive)"

definition demo_plain_libs :: "'w ctrl_libs" where
  "demo_plain_libs = \<lparr>k_setSC = upsert_condition 1, k_gate = True, k_builder = (\<lambda>_ _. (None, Inr [Some (demo_object ''a'')])),
     k_ToUnstructured = Inr, k_Watch = (\<lambda>_ w. (Ok (), w)), k_health = (\<lambda>_. demo_health_libs)\<rparr>"

definition demo_http_start :: "demo_world rstate" where
  "demo_http_start = \<lparr>rs_bd = demo_http_bd, rs_watched = {}, rs_world = demo_http_world\<rparr>"

lemma demo_tarfs: "tar_MapFS demo_archive = Inr demo_unpacked_fs"
  by (simp add: demo_unpacked_fs_def tar_MapFS_def)

lemma demo_http_unpack:
  assumes "bd_Spec bd = bd_Spec demo_http_bd"
  shows "up_Unpack (NewDefaultUnpacker demo_libs ns dir) bd (fst (snd (demo_world_with objs)))
     = (Ok \<lparr>res_Bundle = Some demo_unpacked_fs, res_ResolvedSource = Some (bd_Source demo_http_bd), res_State = StateUnpacked,
          res_Message = generateMessage ''http''\<rparr>, fst (snd (demo_world_with objs)))"
  by (simp add: NewDefaultUnpacker_def default_sources_def NewUnpacker_def unpacker_Unpack_def reading_def demo_world_with_def demo_libs_def
      HTTP_Unpack_def assms demo_http_bd_def mk_bd_def empty_source_def new_request_def http_authorize_def demo_source_world_def
      HTTP_getCredentials_def secret_value_def demo_server_def http_response_fs_def demo_tarfs)

lemma demo_repacked: "FSToTarGZ 4 (\<lambda>_. None) demo_unpacked_fs = Ok demo_archive"
  by code_simp

lemma demo_handled: "\<exists>chrt. plain_HandleBundleDeployment (\<lambda>_. Inr ''y'') (\<lambda>_. [2, 3]) demo_builder demo_unpacked_fs bd = Ok (chrt, None)"
proof -
  have "case plain_HandleBundleDeployment (\<lambda>_. Inr ''y'') (\<lambda>_. [2, 3]) demo_builder demo_unpacked_fs demo_owner of
          Ok (chrt, v) \<Rightarrow> v = None | _ \<Rightarrow> False"
    by code_simp
  then show ?thesis
    by (auto simp: plain_HandleBundleDeployment_def split: outcome.splits)
qed

lemma demo_store_http:
  "\<exists>d. LocalDirectory_Store 4 s empty_disk bd demo_unpacked_fs = (Ok (), d) \<and>
     (\<forall>bd'. bd_Name bd' = bd_Name bd \<longrightarrow> LocalDirectory_Load tar_MapFS s d bd' = Ok demo_unpacked_fs)"
proof -
  obtain d where d: "LocalDirectory_Store 4 s empty_disk bd demo_unpacked_fs = (Ok (), d)"
    by (auto simp: Store_Ok demo_repacked empty_disk_def)
  then show ?thesis
    using local_dir.load_store [OF d, of _ tar_MapFS] by (auto simp: stored_image_def demo_repacked demo_tarfs)
qed

lemma demo_storage_run:
  assumes "storage_of demo_manager default_flags mo ident sto"
  obtains d where "bs_Store sto bd (Some demo_unpacked_fs) (demo_world_with objs) = (Ok (), (d, snd (demo_world_with objs)))"
    "bs_URLFor sto bd (d, snd (demo_world_with objs)) = (LocalDirectory_URLFor (mo_Bundles mo) bd, (d, snd (demo_world_with objs)))"
    "\<forall>bd'. bd_Name bd' = bd_Name bd \<longrightarrow> bs_Load sto bd' (d, snd (demo_world_with objs)) = (Ok demo_unpacked_fs, (d, snd (demo_world_with objs)))"
proof -
  from assms obtain cfg CAs where sto: "sto = new_bundle_storage demo_manager cfg (mo_Bundles mo) CAs"
    by (auto simp: storage_of_def)
  obtain d where "LocalDirectory_Store 4 (mo_Bundles mo) empty_disk bd demo_unpacked_fs = (Ok (), d)" 
    "\<And>bd'. bd_Name bd' = bd_Name bd \<Longrightarrow> LocalDirectory_Load tar_MapFS (mo_Bundles mo) d bd' = Ok demo_unpacked_fs"
    using demo_store_http [of "mo_Bundles mo" bd] by blast
  then show thesis
    by (intro that [of d]) (auto simp: sto new_bundle_storage_def WithFallbackLoader_def local_store_def Let_def through_def demo_manager_def
        demo_world_with_def)
qed

text \<open>The small manager with another registry of finalizers.\<close>

abbreviation with_registry :: "((string \<times> (BundleDeployment \<Rightarrow> (demo_world, unit) M)) list \<Rightarrow> demo_world finalizers)
    \<Rightarrow> (demo_world, unit, nat, unit, unit, string, unit, string) manager_libs" where
  "with_registry reg \<equiv> demo_manager\<lparr>ml_Finalizers := reg\<rparr>"

lemma with_registry_storage: "storage_of (with_registry reg) f mo ident sto = storage_of demo_manager f mo ident sto"
  by (simp add: storage_of_def system_namespace_def root_CAs_def new_bundle_storage_def)

lemma with_registry_unpacker: "default_unpacker (with_registry reg) ns dir = default_unpacker demo_manager ns dir"
  by (simp add: default_unpacker_def)

text \<open>The two finalizers, and the status that the reconciliation leaves.\<close>

definition demo_registered :: "demo_world bundle_store \<Rightarrow> (string \<times> (BundleDeployment \<Rightarrow> (demo_world, unit) M)) list" where
  "demo_registered sto = [(DeleteCachedBundleKey, DeleteCachedBundle_Finalize sto),
     (CleanupUnpackCacheKey, CleanupUnpackCache_Finalize
        (projr (default_unpacker demo_manager (system_namespace demo_manager default_flags) (fl_unpackCacheDir default_flags))))]"

definition demo_status :: "LocalDirectory \<Rightarrow> string \<Rightarrow> BundleDeploymentStatus \<Rightarrow> BundleDeploymentStatus" where
  "demo_status dir name st =
     set_cond (upsert_condition 1) TypeHealthy ConditionTrue ReasonHealthy ''BundleDeployment is healthy''
       (set_cond (upsert_condition 1) TypeInstalled ConditionTrue ReasonInstallationSucceeded (''Instantiated bundle '' @ name @ '' successfully'')
         (updateStatusUnpacked (upsert_condition 1) st (Some (bd_Source demo_http_bd)) (generateMessage ''http'')
            (url_String (ld_URL dir) @ localDirectoryBundleFile name)))"

lemma demo_status_unpacked: "unpacked_status (demo_status dir name st)"
  by (simp add: demo_status_def unpacked_status_def status_writers set_cond_view [OF upsert_condition_setter])

lemma demo_status_settled: "demo_status dir name (demo_status dir name empty_status) = demo_status dir name empty_status"
  by (simp add: demo_status_def status_writers set_cond_def new_condition_def empty_status_def)

lemma demo_status_generation: "st_ObservedGeneration (demo_status dir name st) = st_ObservedGeneration st"
  by (simp add: demo_status_def status_writers)

lemma demo_reconciled_with:
  assumes started: "core_main (with_registry reg) default_flags = Started (mo, c # cs)"
    and reg: "\<And>sto. storage_of demo_manager default_flags mo ''core.rukpak.io'' sto \<Longrightarrow>
       reg (demo_registered sto) (bd\<lparr>bd_Status := (bd_Status bd)\<lparr>st_ObservedGeneration := om_Generation (bd_Meta bd)\<rparr>\<rparr>) (demo_world_with objs)
         = (Ok (bd', None), demo_world_with objs)"
    and bd': "bd_Spec bd' = bd_Spec demo_http_bd"
  shows "\<exists>s'. reconcile demo_plain_libs c \<lparr>rs_bd = bd, rs_watched = W, rs_world = demo_world_with objs\<rparr> = (Ok (), s') \<and>
     rs_bd s' = bd'\<lparr>bd_Status := demo_status (mo_Bundles mo) (bd_Name bd') (bd_Status bd')\<rparr> \<and> snd (rs_world s') = snd (demo_world_with objs)"
proof -
  obtain sto g acg ae where sto: "storage_of demo_manager default_flags mo ''core.rukpak.io'' sto"
    and g: "ml_NewActionClientGetter (with_registry reg) g = Inr acg" and "ml_NewCRDClient (with_registry reg) = Inr ae"
    and c: "c = managed (with_registry reg) default_flags sto acg [crd_check ae (NewPreflight [])] plain_ProvisionerID (plain_handler_of (with_registry reg))"
    using started by (elim core_main_Started) (auto simp: with_registry_storage)
  have acg: "acg = (\<lambda>_ w. (Ok fresh_client, w))" using g by (simp add: demo_manager_def)
  let ?u = "projr (default_unpacker demo_manager (system_namespace demo_manager default_flags) (fl_unpackCacheDir default_flags))"
  obtain d where st: "bs_Store sto bd' (Some demo_unpacked_fs) (demo_world_with objs) = (Ok (), (d, snd (demo_world_with objs)))"
    "bs_URLFor sto bd' (d, snd (demo_world_with objs)) = (LocalDirectory_URLFor (mo_Bundles mo) bd', (d, snd (demo_world_with objs)))"
    "\<forall>b. bd_Name b = bd_Name bd' \<longrightarrow> bs_Load sto b (d, snd (demo_world_with objs)) = (Ok demo_unpacked_fs, (d, snd (demo_world_with objs)))"
    using demo_storage_run [OF sto, of bd' objs] by blast
  obtain chrt where h: "\<And>bd. plain_HandleBundleDeployment (\<lambda>_. Inr ''y'') (\<lambda>_. [2, 3]) demo_builder demo_unpacked_fs bd = Ok (chrt, None)"
    using demo_handled [of demo_owner] by (auto simp: plain_HandleBundleDeployment_def)
  have ns: "system_namespace (with_registry reg) default_flags = system_namespace demo_manager default_flags"
    by (simp add: system_namespace_def)
  have u: "up_Unpack ?u bd' (demo_world_with objs)
     = (Ok \<lparr>res_Bundle = Some demo_unpacked_fs, res_ResolvedSource = Some (bd_Source demo_http_bd), res_State = StateUnpacked,
          res_Message = generateMessage ''http''\<rparr>, demo_world_with objs)"
    using demo_http_unpack [OF bd', of "system_namespace demo_manager default_flags" "fl_unpackCacheDir default_flags" objs]
    by (simp add: default_unpacker_def Let_def through_def demo_manager_def)
  show ?thesis
    using u st reg [OF sto, unfolded demo_registered_def]
    by (simp add: c acg managed_def with_registry_unpacker ns plain_handler_of_def Let_def reconcile_unfold set_status_def h fresh_client_def
      demo_plain_libs_def demo_manager_def [THEN arg_cong [where f = ml_handlers]] demo_handlers_def IsReleaseNotFound_def errors_As_def ManifestObjects_def infosToObjects_def
      demo_healthy demo_status_def LocalDirectory_URLFor_def demo_render_def crd_check_def Preflight_Install_def)
qed

lemma demo_http_reconciled:
  assumes "core_main demo_manager default_flags = Started (mo, c # cs)"
  shows "\<exists>s'. reconcile demo_plain_libs c demo_http_start = (Ok (), s') \<and> unpacked_status (bd_Status (rs_bd s'))"
proof -
  let ?reg = "\<lambda>_ bd w. (Ok (bd, None), w)"
  have "core_main (with_registry ?reg) default_flags = Started (mo, c # cs)"
    using assms by (simp add: demo_manager_def)
  from demo_reconciled_with [where bd = demo_http_bd and W = "{}" and objs = Map.empty, OF this refl] show ?thesis
    unfolding demo_http_start_def by (auto simp: demo_status_unpacked)
qed

end
