(* ===== verification/Webhook_Managers.thy ===== *)
theory Webhook_Managers
  imports Managers
begin

text \<open>
  The processes that serve the admission webhooks: the validators of bundle deployments and config maps
  (cmd/webhooks/main.go, with the registration in internal/webhook) and the validator of custom resource
  definitions (cmd/crdvalidator/main.go): their flags, the server they configure and what they register under
  which path. The manager and the API server are parameters.
\<close>

section \<open>The webhook servers\<close>

text \<open>What is registered under a path. \<open>True\<close>: the panics of the validator are recovered.\<close>

datatype registered = BundleDeploymentValidator string bool | ConfigMapValidator bool | CrdValidatorHandler

type_synonym hooks = "(string \<times> registered) list"

record tls_server =
  ts_NextProtos :: "string list"

record server_options =
  so_TLSOpts :: "tls_server \<Rightarrow> tls_server"
  so_CertDir :: string

text \<open>The webhook server starts from the library's protocols (HTTP/2 first) and applies the options.\<close>

definition server_protocols :: "string list \<Rightarrow> server_options \<Rightarrow> string list" where
  "server_protocols protos so = ts_NextProtos (so_TLSOpts so \<lparr>ts_NextProtos = protos\<rparr>)"

definition disableHTTP2 :: "bool \<Rightarrow> tls_server \<Rightarrow> tls_server" where
  "disableHTTP2 enableHTTP2 c = (if enableHTTP2 then c else c\<lparr>ts_NextProtos := [''http/1.1'']\<rparr>)"

definition BundleDeployment_SetupWebhookWithManager :: "string \<Rightarrow> hooks \<Rightarrow> gerror option \<times> hooks" where
  "BundleDeployment_SetupWebhookWithManager SystemNamespace hs =
     (None, hs @ [(''/validate-core-rukpak-io-v1alpha2-bundledeployment'', BundleDeploymentValidator SystemNamespace True)])"

definition ConfigMap_SetupWebhookWithManager :: "hooks \<Rightarrow> gerror option \<times> hooks" where
  "ConfigMap_SetupWebhookWithManager hs = (None, hs @ [(''/validate-core-v1-configmap'', ConfigMapValidator True)])"

section \<open>Flags and set-up\<close>

record webhook_flags =
  wf_metricsAddr :: string
  wf_probeAddr :: string
  wf_systemNamespace :: string
  wf_rukpakVersion :: bool
  wf_enableHTTP2 :: bool

definition default_webhook_flags :: webhook_flags where
  "default_webhook_flags = \<lparr>wf_metricsAddr = '':8080'', wf_probeAddr = '':8081'', wf_systemNamespace = [], wf_rukpakVersion = False,
     wf_enableHTTP2 = False\<rparr>"

text \<open>The options of the manager, and what it calls.\<close>

record webhook_manager_options =
  wm_MetricsBindAddress :: string
  wm_CacheNamespaces :: "string list"
  wm_HealthProbeBindAddress :: string
  wm_Server :: server_options

record webhook_libs =
  wl_BuildInfo :: "(string \<times> string) list option"
  wl_GetConfig :: "string result"
  wl_ReadFile :: "string \<Rightarrow> string result"
  wl_NewManager :: "webhook_manager_options \<Rightarrow> gerror option"
  wl_AddHealthzCheck :: "string \<Rightarrow> gerror option"
  wl_AddReadyzCheck :: "string \<Rightarrow> gerror option"

definition webhook_namespace :: "webhook_libs \<Rightarrow> webhook_flags \<Rightarrow> string" where
  "webhook_namespace L f = (if wf_systemNamespace f = [] then PodNamespace (wl_ReadFile L) else wf_systemNamespace f)"

definition with_hooks :: "gerror option \<times> hooks \<Rightarrow> string \<Rightarrow> (hooks \<Rightarrow> 'p process) \<Rightarrow> 'p process" where
  "with_hooks r msg k = check_exit (fst r) msg (k (snd r))"

definition webhooks_main :: "webhook_libs \<Rightarrow> webhook_flags \<Rightarrow> (webhook_manager_options \<times> hooks) process" where
  "webhooks_main L f =
     (if wf_rukpakVersion f then VersionPrinted (version_String (version_init (wl_BuildInfo L)))
      else
        or_exit (wl_GetConfig L) ''unable to get kubeconfig'' (\<lambda>cfg.
        let systemNamespace = webhook_namespace L f;
            webhookServer = \<lparr>so_TLSOpts = disableHTTP2 (wf_enableHTTP2 f), so_CertDir = []\<rparr>;
            mo = \<lparr>wm_MetricsBindAddress = wf_metricsAddr f, wm_CacheNamespaces = [systemNamespace],
                  wm_HealthProbeBindAddress = wf_probeAddr f, wm_Server = webhookServer\<rparr> in
        check_exit (wl_NewManager L mo) ''unable to create manager'' (
        with_hooks (BundleDeployment_SetupWebhookWithManager systemNamespace []) ''unable to create webhook'' (\<lambda>hs.
        with_hooks (ConfigMap_SetupWebhookWithManager hs) ''unable to create webhook'' (\<lambda>hs.
        check_exit (wl_AddHealthzCheck L ''healthz'') ''unable to set up health check'' (
        check_exit (wl_AddReadyzCheck L ''readyz'') ''unable to set up ready check'' (Started (mo, hs))))))))"

definition defaultCertDir :: string where "defaultCertDir = ''/etc/admission-webhook/tls''"

text \<open>The manager of the CRD validator has the default options but for its server.\<close>

definition crdvalidator_main :: "string result \<Rightarrow> (server_options \<Rightarrow> gerror option) \<Rightarrow> bool \<Rightarrow> (server_options \<times> hooks) process" where
  "crdvalidator_main GetConfig NewManager enableHTTP2 =
     (let webhookServer = \<lparr>so_TLSOpts = disableHTTP2 enableHTTP2, so_CertDir = defaultCertDir\<rparr> in
      or_exit GetConfig ''unable to get kubeconfig'' (\<lambda>cfg.
      check_exit (NewManager webhookServer) ''unable to set up overall controller manager'' (
      Started (webhookServer, [(''/validate-crd'', CrdValidatorHandler)]))))"

section \<open>What the servers serve\<close>

lemma webhooks_main_Started:
  assumes "webhooks_main L f = Started (mo, hs)"
  shows "map_of hs ''/validate-core-rukpak-io-v1alpha2-bundledeployment'' = Some (BundleDeploymentValidator (webhook_namespace L f) True)"
    and "map_of hs ''/validate-core-v1-configmap'' = Some (ConfigMapValidator True)"
    and "wm_CacheNamespaces mo = [webhook_namespace L f]"
    and "wm_Server mo = \<lparr>so_TLSOpts = disableHTTP2 (wf_enableHTTP2 f), so_CertDir = []\<rparr>"
  using assms
  by (auto simp: webhooks_main_def with_hooks_def BundleDeployment_SetupWebhookWithManager_def ConfigMap_SetupWebhookWithManager_def Let_def
      split: if_splits)

text \<open>Unless the flag enables it, neither webhook server offers HTTP/2, whatever the library offers.\<close>

lemma http2_disabled:
  assumes "webhooks_main L f = Started (mo, hs)" and "crdvalidator_main G N e = Started (so, hs')"
  shows "server_protocols protos (wm_Server mo) = (if wf_enableHTTP2 f then protos else [''http/1.1''])"
    and "server_protocols protos so = (if e then protos else [''http/1.1''])"
  using webhooks_main_Started(4) [OF assms(1)] assms(2)
  by (auto simp: server_protocols_def disableHTTP2_def crdvalidator_main_def Let_def)

text \<open>The webhooks check the config maps in the namespace that the unpacker of the core manager reads them from.\<close>

lemma same_namespace:
  assumes "wf_systemNamespace g = fl_systemNamespace f" and "wl_ReadFile W = ml_ReadFile L"
  shows "webhook_namespace W g = system_namespace L f"
  using assms by (simp add: webhook_namespace_def system_namespace_def)

end
