(* ===== verification/Event_Flow.thy ===== *)
theory Event_Flow
  imports Managers
begin

text \<open>
  The way from a change in the cluster to a request (internal/controllers/bundledeployment/bundledeployment.go, \<open>SetupWithManager\<close> and the dynamic
  watches of \<open>reconcile\<close>): what the handlers that a controller registers with the manager enqueue, the runs of a controller among
  the steps of everything else in the cluster, and what is watched along them.
\<close>

section \<open>Events and requests\<close>

text \<open>
  An event for one of the kinds of \<open>SetupWithManager\<close>, or for an object of a kind that is watched since it was in a release. The libraries are the parser of group versions, the lookup of kinds,
  the reads of the handlers, and the handler of controller-runtime that enqueues the owners of an object.
\<close>

datatype cluster_event =
    BundleDeploymentEvent BundleDeployment
  | PodEvent kobject
  | ConfigMapEvent ConfigMap
  | ObjectEvent kobject dependent_event

record event_libs =
  el_ParseGroupVersion :: parse_gv
  el_GVKForObject :: "kobject \<Rightarrow> GroupVersionKind result"
  el_Get :: bd_decoder
  el_List :: "BundleDeployment list result"
  el_EnqueueOwner :: "BundleDeployment \<Rightarrow> bool \<Rightarrow> kobject \<Rightarrow> NamespacedName list"

abbreviation request_for :: "BundleDeployment \<Rightarrow> NamespacedName" where
  "request_for bd \<equiv> \<lparr>nn_Namespace = [], nn_Name = bd_Name bd\<rparr>"

definition event_requests :: "event_libs \<Rightarrow> manager_setup \<Rightarrow> watch set \<Rightarrow> BundleDeployment \<Rightarrow> cluster_event \<Rightarrow> NamespacedName set" where
  "event_requests EL su ws owner ev =
     (case ev of
        BundleDeploymentEvent bd \<Rightarrow> if su_For su bd then {\<lparr>nn_Namespace = om_Namespace (bd_Meta bd), nn_Name = bd_Name bd\<rparr>} else {}
      | PodEvent pod \<Rightarrow> set (fst (MapOwneeToOwnerProvisionerHandler (el_ParseGroupVersion EL) (Inr BundleDeploymentGVK) (el_GVKForObject EL) (el_Get EL)
                               (su_PodProvisioner su) owner pod))
      | ConfigMapEvent cm \<Rightarrow> set (su_ConfigMaps su (el_List EL) cm)
      | ObjectEvent obj change \<Rightarrow>
          \<Union>x\<in>{x \<in> ws. ko_GVK (wt_Object x) = ko_GVK obj \<and> wt_Predicate x change}. set (el_EnqueueOwner EL (wt_Owner x) (wt_OnlyControllerOwner x) obj))"

text \<open>The controller of an object, and what is documented of the handler that enqueues owners: for a cluster-scoped owner, the name of the
  controller reference when that is of the owner's group and kind.\<close>

definition controller_ref :: "kobject \<Rightarrow> OwnerReference option" where
  "controller_ref obj = find (\<lambda>ref. or_Controller ref = Some True) (om_OwnerReferences (ko_Meta obj))"

definition controlled_by :: "event_libs \<Rightarrow> kobject \<Rightarrow> string \<Rightarrow> bool" where
  "controlled_by EL obj n \<longleftrightarrow>
     (case controller_ref obj of
        None \<Rightarrow> False
      | Some ref \<Rightarrow> or_Kind ref = gvk_Kind BundleDeploymentGVK \<and> or_Name ref = n \<and>
          (case el_ParseGroupVersion EL (or_APIVersion ref) of Inl _ \<Rightarrow> False | Inr gv \<Rightarrow> fst gv = gvk_Group BundleDeploymentGVK))"

definition owner_handler_law :: "event_libs \<Rightarrow> bool" where
  "owner_handler_law EL \<longleftrightarrow> (\<forall>owner obj n. \<lparr>nn_Namespace = [], nn_Name = n\<rparr> \<in> set (el_EnqueueOwner EL owner True obj) \<longleftrightarrow> controlled_by EL obj n)"

section \<open>The runs of a controller\<close>

text \<open>
  The state of a controller is the kinds it watches and the world. It handles requests, in any order and however they end; in
  between, \<open>outside\<close> steps change the world.
\<close>

inductive runs ::
  "new_aggregate \<Rightarrow> semantic \<Rightarrow> 'w ctrl_libs \<Rightarrow> 'w bd_client \<Rightarrow> 'w controller \<Rightarrow> ('w \<Rightarrow> 'w \<Rightarrow> bool)
   \<Rightarrow> GroupVersionKind set \<times> 'w \<Rightarrow> GroupVersionKind set \<times> 'w \<Rightarrow> bool"
  for NA E K cl c outside where
  start: "runs NA E K cl c outside x x"
| request: "runs NA E K cl c outside x y \<Longrightarrow> Reconcile NA E K cl c req y = (r, z) \<Longrightarrow> runs NA E K cl c outside x z"
| other: "runs NA E K cl c outside x (W, w) \<Longrightarrow> outside w w' \<Longrightarrow> runs NA E K cl c outside x (W, w')"

lemma runs_trans: "runs NA E K cl c outside y z \<Longrightarrow> runs NA E K cl c outside x y \<Longrightarrow> runs NA E K cl c outside x z"
  by (induction rule: runs.induct) (auto intro: runs.intros)

text \<open>
  What is documented of the watches: only the controller's \<open>Watch\<close> adds to them, one at a time, and a watch that is accepted is there from then on.
\<close>

definition client_keeps :: "('w \<Rightarrow> 'v) \<Rightarrow> 'w ActionInterface \<Rightarrow> bool" where
  "client_keeps view cl \<longleftrightarrow>
     (\<forall>n. keeps view (ai_Get cl n)) \<and> (\<forall>n ns ch v opts. keeps view (ai_Install cl n ns ch v opts) \<and> keeps view (ai_Upgrade cl n ns ch v opts)) \<and>
     (\<forall>rel. keeps view (ai_Reconcile cl rel))"

definition watch_law :: "('w \<Rightarrow> watch set) \<Rightarrow> 'w ctrl_libs \<Rightarrow> 'w controller \<Rightarrow> bool" where
  "watch_law watches K c \<longleftrightarrow>
     (\<forall>F bd. c_finalizers c = Some F \<longrightarrow> keeps watches (F bd)) \<and>
     (\<forall>u bd. c_unpacker c = Some u \<longrightarrow> keeps watches (up_Unpack u bd)) \<and>
     (\<forall>sto bd b. c_storage c = Some sto \<longrightarrow> keeps watches (bs_Store sto bd b) \<and> keeps watches (bs_URLFor sto bd) \<and> keeps watches (bs_Load sto bd)) \<and>
     (\<forall>g bd. c_acg c = Some g \<longrightarrow> keeps watches (g bd) \<and> (\<forall>w cl w'. g bd w = (Ok cl, w') \<longrightarrow> client_keeps watches cl)) \<and>
     (\<forall>p\<in>set (c_preflights c). \<forall>rel. keeps watches (rc_Install p rel) \<and> keeps watches (rc_Upgrade p rel)) \<and>
     (\<forall>x w r w'. k_Watch K x w = (r, w') \<longrightarrow> watches w \<subseteq> watches w' \<and> watches w' \<subseteq> insert x (watches w) \<and> (r = Ok () \<longrightarrow> x \<in> watches w'))"

definition world_law :: "('w \<Rightarrow> 'v) \<Rightarrow> 'w bd_client \<Rightarrow> ('w \<Rightarrow> 'w \<Rightarrow> bool) \<Rightarrow> bool" where
  "world_law watches cl outside \<longleftrightarrow>
     (\<forall>k. keeps watches (bc_Get cl k)) \<and> (\<forall>bd. keeps watches (bc_StatusUpdate cl bd) \<and> keeps watches (bc_Update cl bd)) \<and>
     (\<forall>w w'. outside w w' \<longrightarrow> watches w' = watches w)"

text \<open>Every kind the controller takes to be watched has a watch, and every watch enqueues controllers and uses the predicate.\<close>

abbreviation dependent_watch :: "watch \<Rightarrow> bool" where
  "dependent_watch x \<equiv> wt_OnlyControllerOwner x \<and> wt_Predicate x = DependentPredicateFuncs"

definition covers :: "watch set \<Rightarrow> GroupVersionKind set \<Rightarrow> bool" where
  "covers ws W \<longleftrightarrow> (\<forall>x\<in>ws. dependent_watch x) \<and> W \<subseteq> (ko_GVK \<circ> wt_Object) ` ws"

lemma covers_more: "covers ws W \<Longrightarrow> dependent_watch x \<Longrightarrow> ws \<subseteq> ws' \<Longrightarrow> ws' \<subseteq> insert x ws \<Longrightarrow> covers ws' W"
  unfolding covers_def by (auto 4 3)

lemma covers_insert: "covers ws W \<Longrightarrow> x \<in> ws \<Longrightarrow> covers ws (insert (ko_GVK (wt_Object x)) W)"
  unfolding covers_def by auto

text \<open>The changes that call for a reconciliation: a deletion, and an update that differs in a field other than the status, or in the
  metadata other than in the resource version.\<close>

definition noticed :: "dependent_event \<Rightarrow> bool" where
  "noticed change \<longleftrightarrow>
     (case change of
        CreateEvent _ \<Rightarrow> False | GenericEvent _ \<Rightarrow> False | DeleteEvent _ \<Rightarrow> True
      | UpdateEvent old new \<Rightarrow>
          (\<exists>f. f \<noteq> ''status'' \<and> ro_Fields old f \<noteq> ro_Fields new f) \<or>
          (case (ro_Metadata old, ro_Metadata new) of
             (None, None) \<Rightarrow> False | (Some m, Some m') \<Rightarrow> \<exists>f. f \<noteq> ''resourceVersion'' \<and> m f \<noteq> m' f | _ \<Rightarrow> True))"

lemma covered_request:
  assumes "covers ws W" and "ko_GVK obj \<in> W" and "owner_handler_law EL" and "controlled_by EL obj n"
  shows "\<lparr>nn_Namespace = [], nn_Name = n\<rparr> \<in> event_requests EL su ws owner (ObjectEvent obj change) \<longleftrightarrow> noticed change"
proof -
  have "DependentPredicateFuncs change \<longleftrightarrow> noticed change" unfolding dependent_event_reconciles_iff noticed_def ..
  with assms show ?thesis unfolding covers_def owner_handler_law_def event_requests_def by (auto 4 3)
qed

lemma keeping_safe: "(law \<Longrightarrow> keeps watches m) \<Longrightarrow> safe_call (\<lambda>s. law \<longrightarrow> covers (watches (rs_world s)) (rs_watched s)) m"
  by (auto simp: safe_call_def dest!: keepsD)

lemma keeping_client_safe:
  "(law \<Longrightarrow> client_keeps watches cl) \<Longrightarrow> safe_client (\<lambda>s. law \<longrightarrow> covers (watches (rs_world s)) (rs_watched s)) cl"
  by (auto simp: safe_client_def client_keeps_def intro!: keeping_safe)

lemma watch_object_covers:
  assumes "watch_law watches K c" and "covers (watches (rs_world s)) (rs_watched s)" and "watch_object K obj s = (r, s')"
  shows "covers (watches (rs_world s')) (rs_watched s')"
proof -
  let ?x = "\<lparr>wt_Object = obj, wt_Owner = rs_bd s, wt_OnlyControllerOwner = True, wt_Predicate = DependentPredicateFuncs\<rparr>"
  have keep: "covers (watches w') (rs_watched s)" if "k_Watch K ?x (rs_world s) = (r, w')" for r w'
    using that assms(1) covers_more [OF assms(2), of ?x] by (simp add: watch_law_def)
  have "covers (watches w') (insert (ko_GVK obj) (rs_watched s))" if "k_Watch K ?x (rs_world s) = (Ok (), w')" for w'
  proof -
    have "?x \<in> watches w'" using that assms(1) unfolding watch_law_def by blast
    from covers_insert [OF keep [OF that] this] show ?thesis by simp
  qed
  then show ?thesis
    using assms(2,3) keep by (auto simp: watch_object_def on_world_iff split: if_splits prod.splits outcome.splits)
qed

lemma watch_lawD:
  assumes "watch_law watches K c"
  shows "c_finalizers c = Some F \<Longrightarrow> keeps watches (F bd)" and "c_unpacker c = Some u \<Longrightarrow> keeps watches (up_Unpack u bd)"
    and "c_storage c = Some sto \<Longrightarrow> keeps watches (bs_Store sto bd b)" and "c_storage c = Some sto \<Longrightarrow> keeps watches (bs_URLFor sto bd)"
    and "c_storage c = Some sto \<Longrightarrow> keeps watches (bs_Load sto bd)" and "c_acg c = Some g \<Longrightarrow> keeps watches (g bd)"
    and "c_acg c = Some g \<Longrightarrow> g bd w = (Ok cl, w') \<Longrightarrow> client_keeps watches cl"
    and "p \<in> set (c_preflights c) \<Longrightarrow> keeps watches (rc_Install p rel)" and "p \<in> set (c_preflights c) \<Longrightarrow> keeps watches (rc_Upgrade p rel)"
  using assms unfolding watch_law_def by fast+

interpretation watches_covered: call_invariant "\<lambda>s. watch_law watches K c \<longrightarrow> covers (watches (rs_world s)) (rs_watched s)" K c for watches K c
  by unfold_locales (auto intro!: keeping_safe keeping_client_safe intro: watch_lawD dest: watch_object_covers)

text \<open>So the watches cover the watched kinds along every run.\<close>

lemma reconcile_covers:
  assumes law: "watch_law watches K c" and "covers (watches (rs_world s)) (rs_watched s)"
  shows "covers (watches (rs_world (snd (reconcile K c s)))) (rs_watched (snd (reconcile K c s)))"
proof -
  have fin: "covers (watches w') (rs_watched s)" if "c_finalizers c = Some F" "covers (watches (rs_world s)) (rs_watched s)" "F (rs_bd s) (rs_world s) = (r, w')"
    for F r s w'
    using that(2) keepsD [OF watch_lawD(1) [OF law that(1)] that(3)] by simp
  have "watch_law watches K c \<longrightarrow> covers (watches (rs_world (snd (reconcile K c s)))) (rs_watched (snd (reconcile K c s)))"
    by (rule watches_covered.reconciles) (use assms in \<open>auto simp: on_world_iff intro: fin\<close>)
  then show ?thesis using law by simp
qed

lemma write_back_keeps:
  assumes "\<And>bd. keeps view (Write bd)" and "\<And>bd. keeps view (k bd)"
  shows "keeps view (write_back NA e b Write bd k)"
proof (rule keepsI)
  fix w r w'
  assume "write_back NA e b Write bd k w = (r, w')"
  then show "view w' = view w"
    using keepsD [OF assms(1)] keepsD [OF assms(2)] by (auto simp: write_back_def split: if_splits prod.splits outcome.splits)
qed

lemma finish_keeps:
  fixes view :: "'w \<Rightarrow> 'v"
  assumes "\<And>bd. keeps view (bc_StatusUpdate cl bd)" and "\<And>bd. keeps view (bc_Update cl bd)"
  shows "keeps view (finish NA E cl a b e)"
proof -
  have "keeps view (write_back NA e b (bc_Update cl) bd (\<lambda>_ w. (err_option e, w)))" for b bd
    using assms by (intro write_back_keeps) (simp_all add: keeps_def)
  moreover have "keeps view (\<lambda>w. if b then (Panic p, w) else m w)" if "keeps view m" for b p and m :: "('w, unit) M"
    using that by (simp add: keeps_def)
  ultimately show ?thesis
    using assms unfolding finish_def Let_def by (intro write_back_keeps) simp_all
qed

lemma Reconcile_covers:
  assumes law: "watch_law watches K c" "world_law watches cl outside" and cov: "covers (watches w) W"
    and run: "Reconcile NA E K cl c req (W, w) = (r, (W', w'))"
  shows "covers (watches w') W'"
proof -
  obtain r1 w1 where get: "bc_Get cl req w = (r1, w1)" by force
  then have cov1: "covers (watches w1) W"
    using cov keepsD [of watches "bc_Get cl req", OF _ get] law(2) by (simp add: world_law_def)
  show ?thesis
  proof (cases r1)
    case (Ok bd)
    let ?s = "\<lparr>rs_bd = bd, rs_watched = W, rs_world = w1\<rparr>"
    obtain r2 s2 where rec: "reconcile K c ?s = (r2, s2)" by force
    then have cov2: "covers (watches (rs_world s2)) (rs_watched s2)"
      using reconcile_covers [OF law(1), of ?s] cov1 by simp
    have "covers (watches w'') (rs_watched s2)" if "finish NA E cl bd b e (rs_world s2) = (r, w'')" for b e r w''
      using cov2 keepsD [OF finish_keeps that, of watches] law(2) by (simp add: world_law_def)
    then show ?thesis
      using run get Ok rec cov2 by (auto simp: Reconcile_def split: outcome.splits prod.splits)
  qed (use run get cov1 in \<open>auto simp: Reconcile_def\<close>)
qed

lemma runs_cover:
  assumes "runs NA E K cl c outside x y" and law: "watch_law watches K c" "world_law watches cl outside"
  shows "covers (watches (snd x)) (fst x) \<Longrightarrow> covers (watches (snd y)) (fst y)"
  using assms(1)
proof (induction rule: runs.induct)
  case (request x y req r z)
  then show ?case using Reconcile_covers [OF law] by (metis prod.collapse)
next
  case (other x W w w')
  then show ?case using law(2) by (auto simp: world_law_def)
qed

lemma Reconcile_watches:
  assumes "bc_Get cl req w = (Ok bd, w1)" and "reconcile K c \<lparr>rs_bd = bd, rs_watched = W, rs_world = w1\<rparr> = (r1, s1)"
    and "Reconcile NA E K cl c req (W, w) = (r, (W', w'))"
  shows "W' = rs_watched s1"
  using assms by (auto simp: Reconcile_def split: outcome.splits prod.splits)

lemma Reconcile_finishes:
  assumes "bc_Get cl req w = (Ok bd, w1)" and "reconcile K c \<lparr>rs_bd = bd, rs_watched = W, rs_world = w1\<rparr> = (Ok (), s1)"
    and "Reconcile NA E K cl c req (W, w) = (r, (W', w'))"
    and "\<And>b. keeps view (bc_StatusUpdate cl b)" and "\<And>b. keeps view (bc_Update cl b)"
  shows "view w' = view (rs_world s1)"
  using assms(1-3) keepsD [OF finish_keeps [OF assms(4,5)]] by (auto simp: Reconcile_def split: prod.splits)

lemma Reconcile_watches_grow:
  assumes "Reconcile NA E K cl c req (W, w) = (r, (W', w'))"
  shows "W \<subseteq> W'"
proof (cases "bc_Get cl req w")
  case (Pair r1 w1)
  show ?thesis
  proof (cases r1)
    case (Ok bd)
    obtain r2 s2 where rec: "reconcile K c \<lparr>rs_bd = bd, rs_watched = W, rs_world = w1\<rparr> = (r2, s2)" by force
    from reconcile_watches_grow [OF this] Reconcile_watches [OF _ rec assms] Pair Ok show ?thesis by simp
  qed (use assms Pair in \<open>auto simp: Reconcile_def\<close>)
qed

lemma runs_watch_more: "runs NA E K cl c outside x y \<Longrightarrow> fst x \<subseteq> fst y"
proof (induction rule: runs.induct)
  case (request x y req r z)
  then show ?case using Reconcile_watches_grow by (metis prod.collapse subset_trans)
qed simp_all

section \<open>Properties\<close>

lemma runs_covered:
  assumes "runs NA E K cl c outside ({}, w0) x" and "runs NA E K cl c outside x (W, w)" and "watches w0 = {}"
    and "watch_law watches K c" and "world_law watches cl outside"
  shows "covers (watches w) W" and "fst x \<subseteq> W"
  using runs_cover [OF runs_trans [OF assms(2,1)] assms(4,5)] runs_watch_more [OF assms(2)] assms(3) by (simp_all add: covers_def)


text \<open>C14. A controller also handles the bundle deployments of other provisioners. Its filter rejects the events of a bundle deployment whose class is not
  its own; but once it watches the kind of an object which that bundle deployment controls, the deletion of the object, or an update beyond status and resource version, enqueues the
  bundle deployment. The request is not checked again: when its reconciliation ends without error with the bundle unpacked, then after the request a release of a chart made by
  this controller's handler is in place for the bundle deployment, and the kinds of the release's objects are watched. (The writes of the bundle deployment itself leave the releases alone.)\<close>

theorem foreign_bundle_deployment_reconciled:
  assumes sc: "condition_setter (k_setSC K)" and fin: "finalizers_law c" and put: "puts_in_place P K c"
    and law: "watch_law watches K c" "world_law watches cl outside" and own: "owner_handler_law EL"
    and kept: "\<And>b. keeps (\<lambda>w rel. P rel w) (bc_StatusUpdate cl b)" "\<And>b. keeps (\<lambda>w rel. P rel w) (bc_Update cl b)"
    and run: "watches w0 = {}" "runs NA E K cl c outside ({}, w0) (W, w)" and kind: "ko_GVK obj \<in> W"
    and ctrl: "controlled_by EL obj (bd_Name bd)" and foreign: "ProvisionerClassName bd \<noteq> c_provisionerID c"
    and get: "bc_Get cl (request_for bd) w = (Ok bd, w1)"
    and rec: "reconcile K c \<lparr>rs_bd = bd, rs_watched = W, rs_world = w1\<rparr> = (Ok (), s1)" "unpacked_status (bd_Status (rs_bd s1))"
    and req: "Reconcile NA E K cl c (request_for bd) (W, w) = (r, (W', w'))"
  shows "event_requests EL (controller_setup ns c) (watches w) owner (BundleDeploymentEvent bd) = {} \<and>
     (\<forall>o'. request_for bd \<in> event_requests EL (controller_setup ns c) (watches w) owner (ObjectEvent obj (DeleteEvent o'))) \<and>
     (\<forall>old new f. f \<noteq> ''status'' \<longrightarrow> ro_Fields old f \<noteq> ro_Fields new f \<longrightarrow>
        request_for bd \<in> event_requests EL (controller_setup ns c) (watches w) owner (ObjectEvent obj (UpdateEvent old new))) \<and>
     (\<forall>old new m m' f. ro_Metadata old = Some m \<longrightarrow> ro_Metadata new = Some m' \<longrightarrow> f \<noteq> ''resourceVersion'' \<longrightarrow> m f \<noteq> m' f \<longrightarrow>
        request_for bd \<in> event_requests EL (controller_setup ns c) (watches w) owner (ObjectEvent obj (UpdateEvent old new))) \<and>
     (\<exists>h b fsys cv cli rel objs. c_handler c = Some h \<and> bd_core b = bd_core bd \<and> h fsys b = Ok cv \<and> client_for c (bd_core bd) cli \<and>
        release_of cli (bd_core bd) cv rel \<and> P rel w' \<and>
        ManifestObjects (k_builder K) (rel_Manifest rel) (rel_Name rel @ ''-release-manifest'') = Ok objs \<and>
        (\<forall>x\<in>set objs. \<exists>u. k_ToUnstructured K x = Inr u \<and> ko_GVK u \<in> W'))"
proof (intro conjI)
  note requested = covered_request [OF runs_covered(1) [OF run(2) runs.start run(1) law] kind own ctrl]
  show "event_requests EL (controller_setup ns c) (watches w) owner (BundleDeploymentEvent bd) = {}"
    using foreign by (simp add: event_requests_def controller_setup_def BundleDeploymentProvisionerFilter_def ProvisionerClassName_def)
  show "\<forall>o'. request_for bd \<in> event_requests EL (controller_setup ns c) (watches w) owner (ObjectEvent obj (DeleteEvent o'))"
    and "\<forall>old new f. f \<noteq> ''status'' \<longrightarrow> ro_Fields old f \<noteq> ro_Fields new f \<longrightarrow>
        request_for bd \<in> event_requests EL (controller_setup ns c) (watches w) owner (ObjectEvent obj (UpdateEvent old new))"
    and "\<forall>old new m m' f. ro_Metadata old = Some m \<longrightarrow> ro_Metadata new = Some m' \<longrightarrow> f \<noteq> ''resourceVersion'' \<longrightarrow> m f \<noteq> m' f \<longrightarrow>
        request_for bd \<in> event_requests EL (controller_setup ns c) (watches w) owner (ObjectEvent obj (UpdateEvent old new))"
    unfolding requested by (auto simp: noticed_def)
  obtain cv where "charted c (\<lambda>_ _. True) (bd_core bd) cv" "deployed P K c (bd_core bd) cv (Ok (), s1)"
    using reconcile_deployed [OF sc fin _ put rec, of "\<lambda>_ _. True"] by auto
  then obtain fsys cli rel objs where "handled c (bd_core bd) fsys cv" and rel: "client_for c (bd_core bd) cli" "release_of cli (bd_core bd) cv rel"
    "P rel (rs_world s1)" "ManifestObjects (k_builder K) (rel_Manifest rel) (rel_Name rel @ ''-release-manifest'') = Ok objs"
    "\<forall>x\<in>set objs. \<exists>u. k_ToUnstructured K x = Inr u \<and> ko_GVK u \<in> rs_watched s1"
    by (auto simp: charted_def deployed_def manifest_watched_def)
  then obtain h b where "c_handler c = Some h" "bd_core b = bd_core bd" "h fsys b = Ok cv" by (auto simp: handled_def)
  moreover have "W' = rs_watched s1" by (rule Reconcile_watches [OF get rec(1) req])
  moreover have "P rel w'" using Reconcile_finishes [OF get rec(1) req kept] rel(3) by metis
  ultimately show "\<exists>h b fsys cv cli rel objs. c_handler c = Some h \<and> bd_core b = bd_core bd \<and> h fsys b = Ok cv \<and> client_for c (bd_core bd) cli \<and>
        release_of cli (bd_core bd) cv rel \<and> P rel w' \<and>
        ManifestObjects (k_builder K) (rel_Manifest rel) (rel_Name rel @ ''-release-manifest'') = Ok objs \<and>
        (\<forall>x\<in>set objs. \<exists>u. k_ToUnstructured K x = Inr u \<and> ko_GVK u \<in> W')"
    using rel by blast
qed


section \<open>A small cluster\<close>

text \<open>
  A world of releases and watches. The client stores the releases it installs and reconciles; the controller is of the plain provisioner, its
  bundles are always unpacked and always become the same chart.
\<close>

type_synonym watch_world = "helm_world \<times> watch set"

definition placing_put :: "string \<Rightarrow> string \<Rightarrow> chart \<Rightarrow> json option \<Rightarrow> action_option list \<Rightarrow> (watch_world, release) M" where
  "placing_put n ns ch v opts w = (Ok (demo_render n ch), if DryRun True \<in> set opts then w else ((fst w)(n \<mapsto> demo_render n ch), snd w))"

definition placing_client :: "watch_world ActionInterface" where
  "placing_client = \<lparr>ai_Get = (\<lambda>n w. (case fst w n of None \<Rightarrow> Err (ReleaseNotFound ''release: not found'') | Some r \<Rightarrow> Ok r, w)),
     ai_Install = placing_put, ai_Upgrade = placing_put, ai_Reconcile = (\<lambda>r w. (Ok (), ((fst w)(rel_Name r \<mapsto> r), snd w)))\<rparr>"

definition placing_controller :: "watch_world controller" where
  "placing_controller = \<lparr>c_handler = Some (\<lambda>_ _. Ok (\<lparr>ch_Name = ''c'', ch_Templates = []\<rparr>, None)), c_provisionerID = plain_ProvisionerID,
     c_acg = Some (\<lambda>_ w. (Ok placing_client, w)), c_storage = Some demo_store, c_preflights = [demo_check],
     c_unpacker = Some \<lparr>up_Unpack = (\<lambda>_ w. (Ok demo_result, w)), up_Cleanup = (\<lambda>_ w. (Ok (), w))\<rparr>,
     c_finalizers = Some (\<lambda>bd w. (Ok (bd, None), w))\<rparr>"

definition placing_libs :: "watch_world ctrl_libs" where
  "placing_libs = \<lparr>k_setSC = upsert_condition 1, k_gate = True, k_builder = (\<lambda>_ _. (None, Inr [Some (demo_object ''a'')])),
     k_ToUnstructured = Inr, k_Watch = (\<lambda>x w. (Ok (), (fst w, insert x (snd w)))), k_health = (\<lambda>_. demo_health_libs)\<rparr>"

definition placing_bd :: BundleDeployment where
  "placing_bd = mk_bd ''b1'' plain_ProvisionerID (empty_source SourceTypeHTTP)"

definition foreign_bd :: BundleDeployment where
  "foreign_bd = mk_bd ''f'' registry_ProvisionerID (empty_source SourceTypeHTTP)"

definition placing_api :: "watch_world bd_client" where
  "placing_api = \<lparr>bc_Get = (\<lambda>k w. (Ok (if nn_Name k = ''f'' then foreign_bd else placing_bd), w)), bc_StatusUpdate = (\<lambda>bd w. (Ok bd, w)), bc_Update = (\<lambda>bd w. (Ok bd, w))\<rparr>"

definition placing_events :: event_libs where
  "placing_events = \<lparr>el_ParseGroupVersion = (\<lambda>_. Inr (''core.rukpak.io'', ''v1alpha2'')), el_GVKForObject = (\<lambda>x. Inr (ko_GVK x)),
     el_Get = (\<lambda>_ _. (None, placing_bd)), el_List = Inr [placing_bd],
     el_EnqueueOwner = (\<lambda>_ _ obj. case controller_ref obj of None \<Rightarrow> []
        | Some ref \<Rightarrow> if or_Kind ref = ''BundleDeployment'' then [\<lparr>nn_Namespace = [], nn_Name = or_Name ref\<rparr>] else [])\<rparr>"

definition owned_object :: "string \<Rightarrow> kobject" where
  "owned_object n = (demo_object ''a'')\<lparr>ko_Meta := (empty_meta ''ns'' ''a'')\<lparr>om_OwnerReferences :=
     [\<lparr>or_APIVersion = ''core.rukpak.io/v1alpha2'', or_Kind = ''BundleDeployment'', or_Name = n, or_UID = [], or_Controller = Some True\<rparr>]\<rparr>\<rparr>"

abbreviation others :: "watch_world \<Rightarrow> watch_world \<Rightarrow> bool" where
  "others w w' \<equiv> snd w' = snd w"

lemmas placing_defs = placing_controller_def placing_libs_def placing_client_def placing_put_def demo_store_def demo_check_def demo_render_def demo_result_def

lemma placing_laws:
  "condition_setter (k_setSC placing_libs)" "finalizers_law placing_controller"
  "puts_in_place (\<lambda>r w. fst w (rel_Name r) = Some r) placing_libs placing_controller"
  "watch_law snd placing_libs placing_controller" "world_law snd placing_api others" "owner_handler_law placing_events"
proof -
  show "condition_setter (k_setSC placing_libs)" "finalizers_law placing_controller"
    using upsert_condition_setter by (simp_all add: placing_defs finalizers_law_def)
  show "puts_in_place (\<lambda>r w. fst w (rel_Name r) = Some r) placing_libs placing_controller"
    by (auto simp: puts_in_place_def puts_def keeps_def placing_defs)
  show "watch_law snd placing_libs placing_controller"
    by (auto simp: watch_law_def client_keeps_def keeps_def placing_defs split: if_splits)
  show "world_law snd placing_api others"
    by (simp add: world_law_def keeps_def placing_api_def)
  show "owner_handler_law placing_events"
    by (auto simp: owner_handler_law_def placing_events_def controlled_by_def BundleDeploymentGVK_def split: option.splits)
qed

lemma placing_reconciled:
  assumes "fst w (bd_Name bd) = None"
  shows "\<exists>s'. reconcile placing_libs placing_controller \<lparr>rs_bd = bd, rs_watched = W, rs_world = w\<rparr> = (Ok (), s') \<and> unpacked_status (bd_Status (rs_bd s')) \<and>
     ko_GVK (demo_object ''a'') \<in> rs_watched s'"
  using assms
  by (auto simp: reconcile_unfold placing_defs IsReleaseNotFound_def errors_As_def set_status_def ManifestObjects_def infosToObjects_def
      demo_healthy status_writers unpacked_status_def set_cond_view [OF upsert_condition_setter])

lemma owned_object_controlled: "controlled_by placing_events (owned_object n) n"
  by (simp add: controlled_by_def controller_ref_def owned_object_def placing_events_def BundleDeploymentGVK_def)

lemma owned_object_kind: "ko_GVK (owned_object n) = ko_GVK (demo_object ''a'')"
  by (simp add: owned_object_def)


text \<open>A bundle deployment of the registry provisioner is deployed by the handler of the plain provisioner.\<close>

theorem foreign_bundle_deployment_reconciled_witness:
  "\<exists>W w r W' w' cv cli rel. runs plain_aggregate plain_semantic placing_libs placing_api placing_controller others ({}, (Map.empty, {})) (W, w) \<and>
     request_for foreign_bd \<in> event_requests placing_events (controller_setup ''sys'' placing_controller) (snd w) placing_bd
       (ObjectEvent (owned_object ''f'') (DeleteEvent \<lparr>ro_Fields = Map.empty, ro_Metadata = None\<rparr>)) \<and>
     Reconcile plain_aggregate plain_semantic placing_libs placing_api placing_controller (request_for foreign_bd) (W, w) = (r, (W', w')) \<and>
     client_for placing_controller (bd_core foreign_bd) cli \<and> release_of cli (bd_core foreign_bd) cv rel \<and> fst w' (rel_Name rel) = Some rel"
proof -
  let ?w = "(Map.empty, {}) :: watch_world"
  let ?Reconcile = "Reconcile plain_aggregate plain_semantic placing_libs placing_api placing_controller"
  obtain s1 where rec1: "reconcile placing_libs placing_controller \<lparr>rs_bd = placing_bd, rs_watched = {}, rs_world = ?w\<rparr> = (Ok (), s1)"
    "ko_GVK (demo_object ''a'') \<in> rs_watched s1"
    using placing_reconciled [of ?w placing_bd "{}"] by auto
  obtain r W w where req: "?Reconcile (request_for placing_bd) ({}, ?w) = (r, (W, w))"
    by (metis prod.collapse)
  let ?lost = "(Map.empty, snd w) :: watch_world"
  have names: "bd_Name placing_bd = ''b1''" "bd_Name foreign_bd = ''f''"
    by (simp_all add: placing_bd_def foreign_bd_def mk_bd_def empty_meta_def)
  then have get: "bc_Get placing_api (request_for placing_bd) ?w = (Ok placing_bd, ?w)" "bc_Get placing_api (request_for foreign_bd) ?lost = (Ok foreign_bd, ?lost)"
    by (simp_all add: placing_api_def)
  have run: "runs plain_aggregate plain_semantic placing_libs placing_api placing_controller others ({}, ?w) (W, ?lost)"
    by (rule runs.other [OF runs.request [OF runs.start req]]) simp
  have kind: "ko_GVK (owned_object ''f'') \<in> W"
    using Reconcile_watches [OF get(1) rec1(1) req] rec1(2) by (simp add: owned_object_kind)
  obtain s2 where rec2: "reconcile placing_libs placing_controller \<lparr>rs_bd = foreign_bd, rs_watched = W, rs_world = ?lost\<rparr> = (Ok (), s2)"
    "unpacked_status (bd_Status (rs_bd s2))"
    using placing_reconciled [of ?lost foreign_bd W] by auto
  obtain r' W' w' where req2: "?Reconcile (request_for foreign_bd) (W, ?lost) = (r', (W', w'))"
    by (metis prod.collapse)
  have foreign: "ProvisionerClassName foreign_bd \<noteq> c_provisionerID placing_controller"
    by (simp add: ProvisionerClassName_def foreign_bd_def mk_bd_def placing_controller_def provisionerIDs)
  have ctrl: "controlled_by placing_events (owned_object ''f'') (bd_Name foreign_bd)"
    using owned_object_controlled [of "''f''"] names by simp
  have kept: "keeps (\<lambda>w rel. fst w (rel_Name rel) = Some rel) (bc_StatusUpdate placing_api b)" "keeps (\<lambda>w rel. fst w (rel_Name rel) = Some rel) (bc_Update placing_api b)" for b
    by (simp_all add: keeps_def placing_api_def)
  from foreign_bundle_deployment_reconciled [OF placing_laws kept _ run kind ctrl foreign get(2) rec2 req2, of "''sys''" placing_bd]
  obtain cv cli rel where "client_for placing_controller (bd_core foreign_bd) cli" "release_of cli (bd_core foreign_bd) cv rel" "fst w' (rel_Name rel) = Some rel"
    "\<forall>o'. request_for foreign_bd \<in> event_requests placing_events (controller_setup ''sys'' placing_controller) (snd ?lost) placing_bd (ObjectEvent (owned_object ''f'') (DeleteEvent o'))"
    by auto
  with run req2 show ?thesis by blast
qed


end
