(* ===== verification/Processes.thy ===== *)
theory Processes
  imports Webhook_Managers Event_Flow
begin

text \<open>
  The four commands as processes, from the initialisation of their packages to their exit code: the registration of the types with the scheme
  (api/v1alpha2/groupversion_info.go, bundledeployment_types.go and the \<open>init\<close> functions of cmd/), the set-up of the managers, and how the process ends.
\<close>

section \<open>Schemes\<close>

text \<open>
  A Go type is known by its package and its name. The scheme, the builder of controller-runtime and the registrations of the Kubernetes packages are
  parameters; a registration gives its error, if any, and the scheme it leaves.
\<close>

record go_type =
  gt_Package :: string
  gt_Name :: string

record GroupVersion =
  gv_Group :: string
  gv_Version :: string

record ('b, 'sch) scheme_libs =
  sl_NewScheme :: 'sch
  sl_Builder :: "GroupVersion \<Rightarrow> 'b"
  sl_Register :: "go_type list \<Rightarrow> 'b \<Rightarrow> 'b"
  sl_Build :: "'b \<Rightarrow> 'sch \<Rightarrow> gerror option \<times> 'sch"
  sl_clientgo :: "'sch \<Rightarrow> gerror option \<times> 'sch"
  sl_apiextensions :: "'sch \<Rightarrow> gerror option \<times> 'sch"
  sl_apiregistration :: "'sch \<Rightarrow> gerror option \<times> 'sch"
  sl_GVKForObject :: "go_type \<Rightarrow> 'sch \<Rightarrow> GroupVersionKind result"

definition v1alpha2_GroupVersion :: GroupVersion where
  "v1alpha2_GroupVersion = \<lparr>gv_Group = ''core.rukpak.io'', gv_Version = ''v1alpha2''\<rparr>"

definition SchemeBuilder :: "('b, 'sch) scheme_libs \<Rightarrow> 'b" where
  "SchemeBuilder SL = sl_Builder SL v1alpha2_GroupVersion"

definition BundleDeployment_type :: go_type where "BundleDeployment_type = \<lparr>gt_Package = ''v1alpha2'', gt_Name = ''BundleDeployment''\<rparr>"
definition BundleDeploymentList_type :: go_type where "BundleDeploymentList_type = \<lparr>gt_Package = ''v1alpha2'', gt_Name = ''BundleDeploymentList''\<rparr>"

definition v1alpha2_init :: "('b, 'sch) scheme_libs \<Rightarrow> 'b \<Rightarrow> 'b" where
  "v1alpha2_init SL = sl_Register SL [BundleDeployment_type, BundleDeploymentList_type]"

text \<open>\<open>AddToScheme\<close> is a method value of the builder's pointer: it adds what is registered by the time it is called, after the package's \<open>init\<close>.\<close>

definition AddToScheme :: "('b, 'sch) scheme_libs \<Rightarrow> 'sch \<Rightarrow> gerror option \<times> 'sch" where
  "AddToScheme SL sch = sl_Build SL (v1alpha2_init SL (SchemeBuilder SL)) sch"

section \<open>Initialisation\<close>

definition Must :: "gerror option \<times> 'sch \<Rightarrow> ('sch \<Rightarrow> 'p process) \<Rightarrow> 'p process" where
  "Must r k = (case fst r of Some e \<Rightarrow> Crashed (Error e) | None \<Rightarrow> k (snd r))"

definition core_init :: "('b, 'sch) scheme_libs \<Rightarrow> ('sch \<Rightarrow> 'p process) \<Rightarrow> 'p process" where
  "core_init SL k =
     Must (sl_clientgo SL (sl_NewScheme SL)) (\<lambda>sch.
     Must (sl_apiextensions SL sch) (\<lambda>sch.
     Must (AddToScheme SL sch) (\<lambda>sch.
     Must (sl_apiregistration SL sch) k)))"

definition helm_init :: "('b, 'sch) scheme_libs \<Rightarrow> ('sch \<Rightarrow> 'p process) \<Rightarrow> 'p process" where
  "helm_init SL k =
     Must (sl_clientgo SL (sl_NewScheme SL)) (\<lambda>sch.
     Must (sl_apiextensions SL sch) (\<lambda>sch.
     Must (AddToScheme SL sch) k))"

definition webhooks_init :: "('b, 'sch) scheme_libs \<Rightarrow> ('sch \<Rightarrow> 'p process) \<Rightarrow> 'p process" where
  "webhooks_init SL k = Must (sl_clientgo SL (sl_NewScheme SL)) (\<lambda>sch. Must (AddToScheme SL sch) k)"

definition crdvalidator_init :: "('b, 'sch) scheme_libs \<Rightarrow> ('sch \<Rightarrow> 'p process) \<Rightarrow> 'p process" where
  "crdvalidator_init SL k =
     (let r = sl_apiextensions SL (sl_NewScheme SL) in check_exit (fst r) ''unable to set up crd scheme'' (k (snd r)))"

section \<open>Processes\<close>

text \<open>
  The manager is built with the scheme. Its \<open>Start\<close> runs the controllers until it gets a signal; it returns nothing while it runs, nil or an error.
\<close>

definition with_scheme :: "'sch \<Rightarrow> 'p process \<Rightarrow> ('sch \<times> 'p) process" where
  "with_scheme sch p = map_process (Pair sch) p"

definition core_process :: "('b, 'sch) scheme_libs \<Rightarrow> ('w, 'g, 'c, 's, 'k, 'r, 'a, 'l) manager_libs \<Rightarrow> flags \<Rightarrow> ('sch \<times> manager_options \<times> 'w controller list) process" where
  "core_process SL L f = core_init SL (\<lambda>sch. with_scheme sch (core_main L f))"

definition helm_process :: "('b, 'sch) scheme_libs \<Rightarrow> ('w, 'g, 'c, 's, 'k, 'r, 'a, 'l) manager_libs \<Rightarrow> flags \<Rightarrow> ('sch \<times> manager_options \<times> 'w controller list) process" where
  "helm_process SL L f = helm_init SL (\<lambda>sch. with_scheme sch (helm_main L f))"

definition webhooks_process :: "('b, 'sch) scheme_libs \<Rightarrow> webhook_libs \<Rightarrow> webhook_flags \<Rightarrow> ('sch \<times> webhook_manager_options \<times> hooks) process" where
  "webhooks_process SL L f = webhooks_init SL (\<lambda>sch. with_scheme sch (webhooks_main L f))"

definition crdvalidator_process ::
  "('b, 'sch) scheme_libs \<Rightarrow> string result \<Rightarrow> (server_options \<Rightarrow> gerror option) \<Rightarrow> bool \<Rightarrow> ('sch \<times> server_options \<times> hooks) process" where
  "crdvalidator_process SL GetConfig NewManager enableHTTP2 = crdvalidator_init SL (\<lambda>sch. with_scheme sch (crdvalidator_main GetConfig NewManager enableHTTP2))"

definition run_manager :: "('p \<Rightarrow> gerror option option) \<Rightarrow> 'p \<Rightarrow> nat option" where
  "run_manager Start p = (case Start p of None \<Rightarrow> None | Some (Some err) \<Rightarrow> Some 1 | Some None \<Rightarrow> Some 0)"

definition exit_code :: "('p \<Rightarrow> gerror option option) \<Rightarrow> 'p process \<Rightarrow> nat option" where
  "exit_code Start pr =
     (case pr of VersionPrinted v \<Rightarrow> Some 0 | Exited msg err \<Rightarrow> Some 1 | Crashed p \<Rightarrow> Some 2 | Hung \<Rightarrow> None | Started p \<Rightarrow> run_manager Start p)"

section \<open>What the managers know\<close>

definition Pod_type :: go_type where "Pod_type = \<lparr>gt_Package = ''corev1'', gt_Name = ''Pod''\<rparr>"
definition ConfigMap_type :: go_type where "ConfigMap_type = \<lparr>gt_Package = ''corev1'', gt_Name = ''ConfigMap''\<rparr>"
definition Secret_type :: go_type where "Secret_type = \<lparr>gt_Package = ''corev1'', gt_Name = ''Secret''\<rparr>"
definition CRD_type :: go_type where "CRD_type = \<lparr>gt_Package = ''apiextensionsv1'', gt_Name = ''CustomResourceDefinition''\<rparr>"

abbreviation core_kind :: "go_type \<Rightarrow> GroupVersionKind" where
  "core_kind t \<equiv> \<lparr>gvk_Group = [], gvk_Version = ''v1'', gvk_Kind = gt_Name t\<rparr>"

text \<open>
  What is documented of a registration that succeeds: it adds its types under their names and keeps the others.
\<close>

definition adds :: "('b, 'sch) scheme_libs \<Rightarrow> (go_type \<rightharpoonup> GroupVersionKind) \<Rightarrow> ('sch \<Rightarrow> gerror option \<times> 'sch) \<Rightarrow> bool" where
  "adds SL types reg \<longleftrightarrow>
     (\<forall>sch sch' t g. reg sch = (None, sch') \<longrightarrow>
        (types t = Some g \<longrightarrow> sl_GVKForObject SL t sch' = Inr g) \<and>
        (types t = None \<longrightarrow> sl_GVKForObject SL t sch = Inr g \<longrightarrow> sl_GVKForObject SL t sch' = Inr g))"

text \<open>The Kubernetes packages register the types of their own packages.\<close>

definition types_of :: "string \<Rightarrow> (go_type \<rightharpoonup> GroupVersionKind) \<Rightarrow> bool" where
  "types_of pkg types \<longleftrightarrow> (\<forall>t. types t \<noteq> None \<longrightarrow> gt_Package t = pkg)"

definition scheme_law :: "('b, 'sch) scheme_libs \<Rightarrow> bool" where
  "scheme_law SL \<longleftrightarrow>
     (\<forall>gv ts. adds SL (\<lambda>t. if t \<in> set ts then Some \<lparr>gvk_Group = gv_Group gv, gvk_Version = gv_Version gv, gvk_Kind = gt_Name t\<rparr> else None) (sl_Build SL (sl_Register SL ts (sl_Builder SL gv)))) \<and>
     (\<exists>types. (\<forall>t. types t \<noteq> None \<longrightarrow> gt_Package t \<notin> {''v1alpha2'', ''apiextensionsv1''}) \<and> adds SL types (sl_clientgo SL) \<and>
        (\<forall>t\<in>{Pod_type, ConfigMap_type, Secret_type}. types t = Some (core_kind t))) \<and>
     (\<exists>types. types_of ''apiextensionsv1'' types \<and> adds SL types (sl_apiextensions SL) \<and> types CRD_type = Some CRD_GVK) \<and>
     (\<exists>types. types_of ''apiregistration'' types \<and> adds SL types (sl_apiregistration SL))"

lemma Must_Started [simp]: "Must r k = Started p \<longleftrightarrow> (\<exists>sch. r = (None, sch) \<and> k sch = Started p)"
  by (cases r) (simp add: Must_def split: option.split)

lemma with_scheme_Started [simp]: "with_scheme sch p = Started x \<longleftrightarrow> (\<exists>y. p = Started y \<and> x = (sch, y))"
  by (cases p) (auto simp: with_scheme_def)

lemma addsD:
  assumes "adds SL types reg" and "reg sch = (None, sch')"
  shows "types t = Some g \<Longrightarrow> sl_GVKForObject SL t sch' = Inr g"
    and "types t = None \<Longrightarrow> sl_GVKForObject SL t sch = Inr g \<Longrightarrow> sl_GVKForObject SL t sch' = Inr g"
  using assms by (simp_all add: adds_def)

lemmas type_defs = BundleDeployment_type_def BundleDeploymentList_type_def Pod_type_def ConfigMap_type_def Secret_type_def CRD_type_def

text \<open>What each registration does to the types the program uses.\<close>

lemma AddToScheme_adds:
  assumes "scheme_law SL" and "AddToScheme SL sch = (None, sch')"
  shows "sl_GVKForObject SL BundleDeployment_type sch' = Inr BundleDeploymentGVK"
    and "t \<in> {Pod_type, ConfigMap_type, Secret_type, CRD_type} \<Longrightarrow> sl_GVKForObject SL t sch = Inr g \<Longrightarrow> sl_GVKForObject SL t sch' = Inr g"
proof -
  let ?ts = "[BundleDeployment_type, BundleDeploymentList_type]"
  have run: "sl_Build SL (sl_Register SL ?ts (sl_Builder SL v1alpha2_GroupVersion)) sch = (None, sch')"
    using assms(2) by (simp add: AddToScheme_def v1alpha2_init_def SchemeBuilder_def)
  have "adds SL (\<lambda>t. if t \<in> set ?ts then Some \<lparr>gvk_Group = gv_Group v1alpha2_GroupVersion, gvk_Version = gv_Version v1alpha2_GroupVersion, gvk_Kind = gt_Name t\<rparr> else None)
      (sl_Build SL (sl_Register SL ?ts (sl_Builder SL v1alpha2_GroupVersion)))"
    using assms(1) unfolding scheme_law_def by blast
  note add = addsD [OF this run]
  show "sl_GVKForObject SL BundleDeployment_type sch' = Inr BundleDeploymentGVK"
    by (rule add(1)) (simp add: BundleDeploymentGVK_def v1alpha2_GroupVersion_def BundleDeployment_type_def)
  show "t \<in> {Pod_type, ConfigMap_type, Secret_type, CRD_type} \<Longrightarrow> sl_GVKForObject SL t sch = Inr g \<Longrightarrow> sl_GVKForObject SL t sch' = Inr g"
    by (rule add(2)) (auto simp: type_defs)
qed

lemma clientgo_adds:
  assumes "scheme_law SL" and "sl_clientgo SL sch = (None, sch')" and "t \<in> {Pod_type, ConfigMap_type, Secret_type}"
  shows "sl_GVKForObject SL t sch' = Inr (core_kind t)"
  using assms unfolding scheme_law_def by (meson addsD(1))

lemma apiextensions_adds:
  assumes "scheme_law SL" and "sl_apiextensions SL sch = (None, sch')"
  shows "sl_GVKForObject SL CRD_type sch' = Inr CRD_GVK"
    and "t \<in> {Pod_type, ConfigMap_type, Secret_type} \<Longrightarrow> sl_GVKForObject SL t sch = Inr g \<Longrightarrow> sl_GVKForObject SL t sch' = Inr g"
proof -
  obtain types where "types_of ''apiextensionsv1'' types" and add: "adds SL types (sl_apiextensions SL)" and crd: "types CRD_type = Some CRD_GVK"
    using assms(1) unfolding scheme_law_def by blast
  then have "types t = None" if "t \<in> {Pod_type, ConfigMap_type, Secret_type}" for t
    using that by (cases "types t") (auto simp: types_of_def type_defs)
  then show "t \<in> {Pod_type, ConfigMap_type, Secret_type} \<Longrightarrow> sl_GVKForObject SL t sch = Inr g \<Longrightarrow> sl_GVKForObject SL t sch' = Inr g"
    using addsD(2) [OF add assms(2)] by blast
  show "sl_GVKForObject SL CRD_type sch' = Inr CRD_GVK"
    by (rule addsD(1) [OF add assms(2) crd])
qed

lemma apiregistration_keeps:
  assumes "scheme_law SL" and "sl_apiregistration SL sch = (None, sch')" and "gt_Package t \<noteq> ''apiregistration''" and "sl_GVKForObject SL t sch = Inr g"
  shows "sl_GVKForObject SL t sch' = Inr g"
proof -
  obtain types where "types_of ''apiregistration'' types" and add: "adds SL types (sl_apiregistration SL)"
    using assms(1) unfolding scheme_law_def by blast
  then have "types t = None" using assms(3) by (auto simp: types_of_def)
  then show ?thesis by (rule addsD(2) [OF add assms(2) _ assms(4)])
qed

definition knows_types :: "('b, 'sch) scheme_libs \<Rightarrow> 'sch \<Rightarrow> bool" where
  "knows_types SL sch \<longleftrightarrow>
     sl_GVKForObject SL BundleDeployment_type sch = Inr BundleDeploymentGVK \<and>
     (\<forall>t\<in>{Pod_type, ConfigMap_type, Secret_type}. sl_GVKForObject SL t sch = Inr (core_kind t))"

lemma helm_scheme:
  assumes law: "scheme_law SL" and "helm_init SL k = Started p"
  obtains sch where "k sch = Started p" "knows_types SL sch" "sl_GVKForObject SL CRD_type sch = Inr CRD_GVK"
proof -
  obtain s1 s2 s3 where s: "sl_clientgo SL (sl_NewScheme SL) = (None, s1)" "sl_apiextensions SL s1 = (None, s2)" "AddToScheme SL s2 = (None, s3)" "k s3 = Started p"
    using assms(2) by (auto simp: helm_init_def)
  have "knows_types SL s3"
    using clientgo_adds [OF law s(1)] apiextensions_adds(2) [OF law s(2)] AddToScheme_adds [OF law s(3)] unfolding knows_types_def by blast
  moreover have "sl_GVKForObject SL CRD_type s3 = Inr CRD_GVK"
    using apiextensions_adds(1) [OF law s(2)] AddToScheme_adds(2) [OF law s(3)] by blast
  ultimately show ?thesis using s(4) that by blast
qed

lemma core_init_eq: "core_init SL k = helm_init SL (\<lambda>sch. Must (sl_apiregistration SL sch) k)"
  by (simp add: core_init_def helm_init_def)

lemma core_scheme:
  assumes law: "scheme_law SL" and "core_init SL k = Started p"
  obtains sch where "k sch = Started p" "knows_types SL sch" "sl_GVKForObject SL CRD_type sch = Inr CRD_GVK"
proof -
  obtain sch sch' where sch: "knows_types SL sch" "sl_GVKForObject SL CRD_type sch = Inr CRD_GVK" "sl_apiregistration SL sch = (None, sch')" "k sch' = Started p"
    by (rule helm_scheme [OF law assms(2) [unfolded core_init_eq]]) (auto simp: that)
  have keep: "sl_GVKForObject SL t sch = Inr g \<Longrightarrow> sl_GVKForObject SL t sch' = Inr g"
    if "t \<in> {BundleDeployment_type, Pod_type, ConfigMap_type, Secret_type, CRD_type}" for t g
    by (rule apiregistration_keeps [OF law sch(3)]) (use that in \<open>auto simp: type_defs\<close>)
  then have "knows_types SL sch'" using sch(1) unfolding knows_types_def by blast
  moreover have "sl_GVKForObject SL CRD_type sch' = Inr CRD_GVK" using keep sch(2) by blast
  ultimately show ?thesis using sch(4) that by blast
qed

lemma webhooks_scheme:
  assumes law: "scheme_law SL" and "webhooks_init SL k = Started p"
  obtains sch where "k sch = Started p" "knows_types SL sch"
proof -
  obtain s1 s2 where s: "sl_clientgo SL (sl_NewScheme SL) = (None, s1)" "AddToScheme SL s1 = (None, s2)" "k s2 = Started p"
    using assms(2) by (auto simp: webhooks_init_def)
  have "knows_types SL s2"
    using clientgo_adds [OF law s(1)] AddToScheme_adds [OF law s(2)] unfolding knows_types_def by blast
  with s(3) that show ?thesis by blast
qed

lemma crdvalidator_scheme:
  assumes law: "scheme_law SL" and "crdvalidator_init SL k = Started p"
  obtains sch where "k sch = Started p" "sl_GVKForObject SL CRD_type sch = Inr CRD_GVK"
  using assms(2) apiextensions_adds(1) [OF law] that
  by (cases "sl_apiextensions SL (sl_NewScheme SL)") (auto simp: crdvalidator_init_def Let_def)

text \<open>C35. The processes know the types they work with. When one of the four commands starts its manager, its scheme finds the kinds of the objects that its
  clients, handlers and decoders name: bundle deployments, pods, config maps, secrets and custom resource definitions in the core and Helm managers, bundle
  deployments and config maps in the webhook manager, and custom resource definitions in the CRD validator.\<close>

theorem schemes_know_types:
  assumes "scheme_law SL"
  shows "(core_process SL L f = Started (sch, x) \<or> helm_process SL L f = Started (sch, x) \<longrightarrow>
       knows_types SL sch \<and> sl_GVKForObject SL CRD_type sch = Inr CRD_GVK \<and> (core_main L f = Started x \<or> helm_main L f = Started x)) \<and>
     (webhooks_process SL W g = Started (sch, y) \<longrightarrow> knows_types SL sch \<and> webhooks_main W g = Started y) \<and>
     (crdvalidator_process SL G N e = Started (sch, z) \<longrightarrow> sl_GVKForObject SL CRD_type sch = Inr CRD_GVK \<and> crdvalidator_main G N e = Started z)"
  unfolding core_process_def helm_process_def webhooks_process_def crdvalidator_process_def
  by (auto elim!: core_scheme [OF assms] helm_scheme [OF assms] webhooks_scheme [OF assms] crdvalidator_scheme [OF assms])

text \<open>So the handler of pod events never stops at an unknown kind: in a started manager, an event for the pod of an image source reaches the bundle deployment.\<close>

lemma started_manager_follows_pods:
  assumes "scheme_law SL" and "core_process SL L f = Started (sch, x) \<or> helm_process SL L f = Started (sch, x)"
    and "PGV (bd_APIVersion bd) = Inr (gvk_Group BundleDeploymentGVK, gvk_Version BundleDeploymentGVK)" and "bd_Kind bd = gvk_Kind BundleDeploymentGVK"
    and "Get (request_for bd) owner = (None, bd)" and "ProvisionerClassName bd = prov" and "ko_Meta obj = p_Meta (getDesiredPodApplyConfig env i bd img)"
  shows "MapOwneeToOwnerProvisionerHandler PGV (sl_GVKForObject SL BundleDeployment_type sch) (\<lambda>_. sl_GVKForObject SL Pod_type sch) Get prov owner obj
     = ([request_for bd], bd)"
proof -
  have "sl_GVKForObject SL BundleDeployment_type sch = Inr BundleDeploymentGVK" "sl_GVKForObject SL Pod_type sch = Inr (core_kind Pod_type)"
    using assms(1,2) unfolding core_process_def helm_process_def
    by (auto elim!: core_scheme [OF assms(1)] helm_scheme [OF assms(1)] simp: knows_types_def)
  with assms(3-) show ?thesis
    by (simp add: MapOwneeToOwnerProvisionerHandler_def getDesiredPodApplyConfig_def)
qed

text \<open>How a process ends: with code zero only after it printed its version or its manager ended without error.\<close>

lemma exit_code_zero:
  "exit_code Start pr = Some 0 \<longleftrightarrow> (\<exists>v. pr = VersionPrinted v) \<or> (\<exists>p. pr = Started p \<and> Start p = Some None)"
  by (auto simp: exit_code_def run_manager_def split: process.split option.split)

text \<open>A scheme is a list of types with their kinds.\<close>

type_synonym demo_scheme = "go_type \<rightharpoonup> GroupVersionKind"

definition demo_schemes :: "(GroupVersion \<times> go_type list, demo_scheme) scheme_libs" where
  "demo_schemes = \<lparr>sl_NewScheme = Map.empty,
     sl_Builder = (\<lambda>gv. (gv, [])), sl_Register = (\<lambda>ts (gv, us). (gv, us @ ts)),
     sl_Build = (\<lambda>(gv, ts) sch. (None, (\<lambda>t. if t \<in> set ts then Some \<lparr>gvk_Group = gv_Group gv, gvk_Version = gv_Version gv, gvk_Kind = gt_Name t\<rparr> else sch t))),
     sl_clientgo = (\<lambda>sch. (None, (\<lambda>t. if gt_Package t = ''corev1'' then Some (core_kind t) else sch t))),
     sl_apiextensions = (\<lambda>sch. (None, sch(CRD_type \<mapsto> CRD_GVK))), sl_apiregistration = (\<lambda>sch. (None, sch)),
     sl_GVKForObject = (\<lambda>t sch. case sch t of None \<Rightarrow> Inl (Msg ''no kind is registered'') | Some g \<Rightarrow> Inr g)\<rparr>"

lemma demo_scheme_law: "scheme_law demo_schemes"
proof -
  have "adds demo_schemes (\<lambda>t. if gt_Package t = ''corev1'' then Some (core_kind t) else None) (sl_clientgo demo_schemes)"
    by (auto simp: adds_def demo_schemes_def)
  then have "\<exists>types. (\<forall>t. types t \<noteq> None \<longrightarrow> gt_Package t \<notin> {''v1alpha2'', ''apiextensionsv1''}) \<and> adds demo_schemes types (sl_clientgo demo_schemes) \<and>
      (\<forall>t\<in>{Pod_type, ConfigMap_type, Secret_type}. types t = Some (core_kind t))"
    by (rule_tac x = "\<lambda>t. if gt_Package t = ''corev1'' then Some (core_kind t) else None" in exI) (auto simp: type_defs)
  moreover have "adds demo_schemes [CRD_type \<mapsto> CRD_GVK] (sl_apiextensions demo_schemes)"
    by (auto simp: adds_def demo_schemes_def)
  then have "\<exists>types. types_of ''apiextensionsv1'' types \<and> adds demo_schemes types (sl_apiextensions demo_schemes) \<and> types CRD_type = Some CRD_GVK"
    by (intro exI [of _ "[CRD_type \<mapsto> CRD_GVK]"]) (auto simp: types_of_def CRD_type_def)
  moreover have "types_of ''apiregistration'' Map.empty \<and> adds demo_schemes Map.empty (sl_apiregistration demo_schemes)"
    by (auto simp: types_of_def adds_def demo_schemes_def)
  moreover have "adds demo_schemes (\<lambda>t. if t \<in> set ts then Some \<lparr>gvk_Group = gv_Group gv, gvk_Version = gv_Version gv, gvk_Kind = gt_Name t\<rparr> else None)
      (sl_Build demo_schemes (sl_Register demo_schemes ts (sl_Builder demo_schemes gv)))" for gv ts
    by (auto simp: adds_def demo_schemes_def)
  ultimately show ?thesis unfolding scheme_law_def by blast
qed

lemma demo_process_started: "\<exists>sch x. core_process demo_schemes demo_manager default_flags = Started (sch, x)"
proof -
  obtain mo c cs where "core_main demo_manager default_flags = Started (mo, c # cs)"
    using demo_started(1) by blast
  then show ?thesis
    by (simp add: core_process_def core_init_def AddToScheme_def v1alpha2_init_def SchemeBuilder_def demo_schemes_def Must_def with_scheme_def)
qed

theorem schemes_know_types_witness:
  "\<exists>sch x. core_process demo_schemes demo_manager default_flags = Started (sch, x) \<and> knows_types demo_schemes sch \<and>
     sl_GVKForObject demo_schemes CRD_type sch = Inr CRD_GVK"
  using demo_process_started schemes_know_types [OF demo_scheme_law, of demo_manager default_flags] by blast

end
