(* ===== verification/Unpack_Pods.thy ===== *)
theory Unpack_Pods
  imports Managers
begin

text \<open>
  The unpack command as a process (cmd/unpack/main.go) and the pod it runs in (pkg/source/image.go): the pod source asks for a container that runs the command on the
  root of the bundle image, and reads the bundle from what the command printed.
\<close>

section \<open>The command\<close>

text \<open>
  The parsing of the command line is cobra's; the operating system gives the working directory and the files below a directory; JSON is the library's. The command ends with the
  JSON document or the version on its output, or after a message of \<open>log.Fatal\<close>, or its walk does not end.
\<close>

record unpack_flags =
  uf_bundleDir :: string
  uf_rukpakVersion :: bool

record unpack_libs =
  ul_Parse :: "string list \<Rightarrow> unpack_flags \<Rightarrow> (unpack_flags \<times> string list) result"
  ul_ExactArgs :: "nat \<Rightarrow> string list \<Rightarrow> gerror option"
  ul_BuildInfo :: "(string \<times> string) list option"
  ul_Getwd :: "string result"
  ul_DirFS :: "string \<Rightarrow> fs_FS"
  ul_Encode :: "blob \<Rightarrow> string result"

datatype unpack_exit = Printed string | Versioned string | Fatal string | Walking

definition filepath_Abs :: "string result \<Rightarrow> string \<Rightarrow> string result" where
  "filepath_Abs Getwd p =
     (if is_rooted p then Inr (Clean p) else (case Getwd of Inl e \<Rightarrow> Inl e | Inr wd \<Rightarrow> Inr (Join [wd, p])))"

definition default_unpack_flags :: unpack_flags where
  "default_unpack_flags = \<lparr>uf_bundleDir = [], uf_rukpakVersion = False\<rparr>"

definition unpack_cmd :: "nat \<Rightarrow> unpack_libs \<Rightarrow> unpack_flags \<Rightarrow> unpack_exit" where
  "unpack_cmd depth L f =
     (if uf_rukpakVersion f then Versioned (version_String (version_init (ul_BuildInfo L)))
      else
        (case filepath_Abs (ul_Getwd L) (uf_bundleDir f) of
           Inl err \<Rightarrow> Fatal (''get absolute path of bundle directory '' @ fmt_q [] @ '': '' @ Error err)
         | Inr bundleDir \<Rightarrow>
             (case unpack_RunE depth bundleDir (ul_DirFS L bundleDir) of
                Err err \<Rightarrow> Fatal (Error err)
              | Panic p \<Rightarrow> Fatal p
              | Diverge \<Rightarrow> Walking
              | Ok es \<Rightarrow>
                  (case ul_Encode L (TarGz es) of
                     Inl err \<Rightarrow> Fatal (''encode bundle map as JSON: '' @ Error err)
                   | Inr out \<Rightarrow> Printed out))))"

definition unpack_main :: "nat \<Rightarrow> unpack_libs \<Rightarrow> string list \<Rightarrow> unpack_exit" where
  "unpack_main depth L argv =
     (case ul_Parse L argv default_unpack_flags of
        Inl err \<Rightarrow> Fatal (Error err)
      | Inr (f, args) \<Rightarrow> (case ul_ExactArgs L 0 args of Some err \<Rightarrow> Fatal (Error err) | None \<Rightarrow> unpack_cmd depth L f))"

section \<open>The root directory\<close>

text \<open>
  In the root directory the command leaves out some paths. As long as these are directories or symbolic links, what it archives is the file system without these
  directories: \<open>without_skipped\<close> takes them out of the listings.
\<close>

definition skipped :: "string \<Rightarrow> bool" where
  "skipped path \<longleftrightarrow> Join [''/'', path] \<in> skipRootPaths"

definition stays :: "string \<Rightarrow> DirEntry \<Rightarrow> bool" where
  "stays name d \<longleftrightarrow> \<not> (de_IsDir d \<and> skipped (Join [name, de_Name d]))"

definition without_skipped :: "fs_FS \<Rightarrow> fs_FS" where
  "without_skipped fsys = fsys\<lparr>fs_ReadDir := (\<lambda>name. case fs_ReadDir fsys name of Inl e \<Rightarrow> Inl e | Inr ds \<Rightarrow> Inr (filter (stays name) ds))\<rparr>"

definition no_skipped_files :: "(string \<times> DirEntry) list \<Rightarrow> bool" where
  "no_skipped_files = list_all (\<lambda>x. not_symlink x \<longrightarrow> \<not> skipped (fst x))"

lemma tar_write_opens: "fs_Open fsys' = fs_Open fsys \<Longrightarrow> tar_write w fsys' = tar_write w fsys"
  by (intro ext) (simp only: tar_write_def)

lemma without_skipped_reads [simp]:
  "fs_Open (without_skipped fsys) = fs_Open fsys" "fs_Stat (without_skipped fsys) = fs_Stat fsys"
  "fs_ReadFile (without_skipped fsys) = fs_ReadFile fsys" "tar_visit w (without_skipped fsys) = tar_visit w fsys"
proof -
  show opens: "fs_Open (without_skipped fsys) = fs_Open fsys" by (simp add: without_skipped_def)
  show "fs_Stat (without_skipped fsys) = fs_Stat fsys" "fs_ReadFile (without_skipped fsys) = fs_ReadFile fsys"
    by (intro ext, simp add: fs_Stat_def fs_ReadFile_def opens)+
  show "tar_visit w (without_skipped fsys) = tar_visit w fsys"
    by (intro ext) (simp only: tar_visit_def tar_write_opens [OF opens])
qed

lemma without_skipped_ReadDir [simp]:
  "fs_ReadDir (without_skipped fsys) name = (case fs_ReadDir fsys name of Inl e \<Rightarrow> Inl e | Inr ds \<Rightarrow> Inr (filter (stays name) ds))"
  by (simp add: without_skipped_def)

lemma visit_kept: "(not_symlink (p, d) \<longrightarrow> \<not> skipped p) \<Longrightarrow> unpack_visit w ''/'' fsys p (Some d) e s = tar_visit w fsys p (Some d) e s"
  by (simp add: unpack_visit_def tar_visit_def skipped_def not_symlink_def split: option.split)

lemma walk_skipped:
  assumes "\<not> stays name d" and "walkDir n fsys (unpack_visit w ''/'' fsys) (Join [name, de_Name d]) d s = Some (r, s')"
  shows "r = WNil \<and> s' = s"
  using assms by (cases n) (auto simp: stays_def skipped_def unpack_visit_def simp del: Join.simps)

lemma root_walk:
  "no_skipped_files (listing n (without_skipped fsys) name d) \<Longrightarrow> walkDir n fsys (unpack_visit w ''/'' fsys) name d s = Some x \<Longrightarrow>
     walkDir n (without_skipped fsys) (tar_visit w fsys) name d s = Some x"
  "no_skipped_files (concat (map (\<lambda>d1. listing n (without_skipped fsys) (Join [name, de_Name d1]) d1) (filter (stays name) ds))) \<Longrightarrow>
     walkEntries n fsys (unpack_visit w ''/'' fsys) name ds s = Some x \<Longrightarrow>
     walkEntries n (without_skipped fsys) (tar_visit w fsys) name (filter (stays name) ds) s = Some x"
proof (induction n fsys "unpack_visit w ''/'' fsys" name d s and n fsys "unpack_visit w ''/'' fsys" name ds s arbitrary: x and x rule: walkDir_walkEntries.induct)
  case (2 n fsys name d s)
  have visit: "unpack_visit w ''/'' fsys name (Some d) e s = tar_visit w fsys name (Some d) e s" for e s
    by (rule visit_kept) (use 2(2) in \<open>simp add: no_skipped_files_def\<close>)
  obtain r s1 where fn: "tar_visit w fsys name (Some d) None s = (r, s1)" by fastforce
  show ?case
  proof (cases "r \<noteq> WNil \<or> \<not> de_IsDir d")
    case False
    show ?thesis
    proof (cases "fs_ReadDir fsys name")
      case (Inr dirs)
      with False fn 2(3) have "walkEntries n fsys (unpack_visit w ''/'' fsys) name dirs s1 = Some x" by (simp add: visit)
      moreover have "no_skipped_files (concat (map (\<lambda>d1. listing n (without_skipped fsys) (Join [name, de_Name d1]) d1) (filter (stays name) dirs)))"
        using 2(2) False Inr by (simp add: no_skipped_files_def del: Join.simps)
      moreover have "unpack_visit w ''/'' fsys name (Some d) None s = (r, s1)" using fn visit by simp
      ultimately have "walkEntries n (without_skipped fsys) (tar_visit w fsys) name (filter (stays name) dirs) s1 = Some x"
        using False Inr by (intro 2(1)) simp_all
      with False fn Inr show ?thesis by simp
    qed (use 2(3) fn False visit in \<open>simp add: prod.case_eq_if\<close>)
  qed (use 2(3) fn visit in auto)
next
  case (4 n fsys name d1 ds s)
  obtain r s1 where w: "walkDir n fsys (unpack_visit w ''/'' fsys) (Join [name, de_Name d1]) d1 s = Some (r, s1)"
    using 4(4) by (fastforce split: option.splits)
  show ?case
  proof (cases "stays name d1")
    case True
    let ?ls = "map (\<lambda>d1. listing n (without_skipped fsys) (Join [name, de_Name d1]) d1)"
    have none: "no_skipped_files (listing n (without_skipped fsys) (Join [name, de_Name d1]) d1)" "no_skipped_files (concat (?ls (filter (stays name) ds)))"
      using 4(3) True by (simp_all add: no_skipped_files_def del: Join.simps)
    have d1: "walkDir n (without_skipped fsys) (tar_visit w fsys) (Join [name, de_Name d1]) d1 s = Some (r, s1)"
      by (rule 4(1) [OF none(1) w])
    show ?thesis
    proof (cases r)
      case WNil
      with 4(4) w have "walkEntries n fsys (unpack_visit w ''/'' fsys) name ds s1 = Some x" by (simp del: Join.simps)
      then have "walkEntries n (without_skipped fsys) (tar_visit w fsys) name (filter (stays name) ds) s1 = Some x"
        using 4(2) [OF w refl WNil none(2)] by blast
      with True d1 WNil show ?thesis by (simp del: Join.simps)
    qed (use True d1 w 4(4) in \<open>auto simp del: Join.simps\<close>)
  next
    case False
    then have none: "no_skipped_files (concat (map (\<lambda>d1. listing n (without_skipped fsys) (Join [name, de_Name d1]) d1) (filter (stays name) ds)))"
      using 4(3) by (simp del: Join.simps)
    have r: "r = WNil" "s1 = s" using walk_skipped [OF False w] by simp_all
    then have "walkEntries n fsys (unpack_visit w ''/'' fsys) name ds s1 = Some x" using 4(4) w by (simp del: Join.simps)
    with 4(2) [OF w refl r(1) none] False r(2) show ?thesis by simp
  qed
qed auto

lemma root_archive:
  assumes "no_skipped_files (bundle_entries depth (without_skipped fsys))" and "unpack_RunE depth ''/'' fsys = Ok es"
  shows "FSToTarGZ depth (\<lambda>_. None) (without_skipped fsys) = Ok es"
proof -
  have all: "no_skipped_files (listing depth (without_skipped fsys) ''.'' (FileInfoToDirEntry info))" if "fs_Stat fsys ''.'' = Inr info" for info
    using assms(1) that by (auto simp: no_skipped_files_def bundle_entries_def list_all_iff)
  obtain r where "WalkDir depth fsys ''.'' (unpack_visit (\<lambda>_. None) ''/'' fsys) [] = Some (None, es)"
    using assms(2) by (auto simp: unpack_RunE_def split: option.splits prod.splits)
  then have "WalkDir depth (without_skipped fsys) ''.'' (tar_visit (\<lambda>_. None) fsys) [] = Some (None, es)"
    using root_walk(1) [OF all] by (auto simp: WalkDir_def unpack_visit_def tar_visit_def split: option.splits sum.splits prod.splits)
  then show ?thesis by (simp add: FSToTarGZ_def)
qed

text \<open>The command always ends on a tree of bounded depth.\<close>

lemma unpack_RunE_ends:
  assumes "\<And>info. fs_Stat fsys ''.'' = Inr info \<Longrightarrow> walk_bounded depth fsys ''.'' (FileInfoToDirEntry info)"
  shows "unpack_RunE depth dir fsys \<noteq> Diverge"
proof -
  have "WalkDir depth fsys ''.'' fn s \<noteq> None" for fn :: "tar_entry list walk_fn" and s
  proof (cases "fs_Stat fsys ''.''")
    case (Inr info)
    then show ?thesis using walkDir_ends(1) [OF assms [OF Inr], of fn s] by (auto simp: WalkDir_def split: option.split)
  qed (simp add: WalkDir_def prod.case_eq_if)
  then show ?thesis by (auto simp: unpack_RunE_def split: option.split)
qed

section \<open>The pod\<close>

text \<open>What is documented of the libraries: cobra takes the flag's value from the command line and the command takes no other arguments; JSON gives back what was encoded.\<close>

definition cobra_law :: "unpack_libs \<Rightarrow> bool" where
  "cobra_law L \<longleftrightarrow>
     (\<forall>dir f. ul_Parse L [''--bundle-dir'', dir] f = Inr (f\<lparr>uf_bundleDir := dir\<rparr>, [])) \<and> (\<forall>n args. ul_ExactArgs L n args = None \<longleftrightarrow> length args = n)"

definition json_law :: "(blob \<Rightarrow> string result) \<Rightarrow> (string \<Rightarrow> blob result) \<Rightarrow> bool" where
  "json_law Encode Unmarshal \<longleftrightarrow> (\<forall>x out. Encode x = Inr out \<longrightarrow> Unmarshal out = Inr x)"

lemma Clean_root: "Clean ''/'' = ''/''"
  by code_simp

lemma unpack_main_root:
  assumes "cobra_law L" and "unpack_main depth L [''--bundle-dir'', ''/''] = Printed out"
  shows "\<exists>es. unpack_RunE depth ''/'' (ul_DirFS L ''/'') = Ok es \<and> ul_Encode L (TarGz es) = Inr out"
  using assms
  by (auto simp: unpack_main_def cobra_law_def default_unpack_flags_def unpack_cmd_def filepath_Abs_def is_rooted_def HasPrefix_def Clean_root
      split: option.splits outcome.splits sum.splits)

text \<open>Reading the log of a pod that printed an archive.\<close>

lemma logged_contents:
  assumes "k_Logs k (om_Namespace (p_Meta pod)) (om_Name (p_Meta pod)) w = (Inr (Inr out), w')" and "Unmarshal out = Inr (TarGz es)" and "tarfs_New es = Inr b"
  shows "getBundleContents tarfs_New Unmarshal k pod w = (Ok b, w')"
  using assms by (simp add: getBundleContents_def getPodLogs_def)

text \<open>C27. A bundle image unpacks to its own files. The pod that the source applies is there unchanged, has succeeded, and its status has the image's
  digest; its log is what the command line of its bundle container printed on the image's file system. When no regular file has one of the paths that the command leaves out, and the
  paths are valid and distinct, the source gives an unpacked bundle, resolved to the digest, in which every regular file that is outside the
  directories left out reads as in the image.\<close>

theorem image_unpacks_to_its_files:
  assumes src: "src_Type (bd_Source bd) = SourceTypeImage" "src_Image (bd_Source bd) = Some img"
    and pod: "ensureUnpackPod DeepEqual k env i bd img w = (Ok (OperationResultNone, pod), w1)" "om_DeletionTimestamp (p_Meta pod) = None"
      "ps_Phase (p_Status pod) = ''Succeeded''" "getBundleImageDigest pod = Inr digest"
    and con: "p_Spec (getDesiredPodApplyConfig env i bd img) = Some spec" "con \<in> set (pod_Containers spec)"
    and printed: "unpack_main depth U (tl (c_Command con)) = Printed out"
    and logs: "k_Logs k (om_Namespace (p_Meta pod)) (om_Name (p_Meta pod)) w1 = (Inr (Inr out), w2)"
    and laws: "cobra_law U" "json_law (ul_Encode U) Unmarshal" "tarfs_law tarfs_New"
    and ifs: "ifs = without_skipped (ul_DirFS U ''/'')" "no_skipped_files (bundle_entries depth ifs)"
      "distinct (map fst (bundle_entries depth ifs))" "list_all ValidPath (map fst (bundle_entries depth ifs))"
  shows "\<exists>r b src. Image_Unpack tarfs_New Unmarshal DeepEqual k env i bd w = (Ok r, w2) \<and> res_State r = StateUnpacked \<and> res_Bundle r = Some b \<and>
     res_ResolvedSource r = Some src \<and> map_option img_Ref (src_Image src) = Some digest \<and>
     (\<forall>(p, d) \<in> set (bundle_entries depth ifs). regular_entry d \<longrightarrow> fs_ReadFile b p = fs_ReadFile (ul_DirFS U ''/'') p)"
proof -
  have "tl (c_Command con) = [''--bundle-dir'', ''/'']" using con by (auto simp: getDesiredPodApplyConfig_def)
  then obtain es where es: "unpack_RunE depth ''/'' (ul_DirFS U ''/'') = Ok es" and out: "ul_Encode U (TarGz es) = Inr out"
    using unpack_main_root [OF laws(1)] printed by auto
  have "Unmarshal out = Inr (TarGz es)" using laws(2) out by (simp add: json_law_def)
  moreover have "FSToTarGZ depth (\<lambda>_. None) ifs = Ok es"
    using root_archive es ifs(1,2) by simp
  from archive_reads_back [OF laws(3) this ifs(3,4)] obtain b where b: "tarfs_New es = Inr b"
    and files: "\<forall>(p, d) \<in> set (bundle_entries depth ifs). regular_entry d \<longrightarrow> fs_ReadFile b p = fs_ReadFile ifs p" by blast
  ultimately have "getBundleContents tarfs_New Unmarshal k pod w1 = (Ok b, w2)"
    using logged_contents [OF logs] by blast
  then show ?thesis
    using files ifs(1)
    by (simp add: Image_Unpack_def src pod pod_phase_result_def succeededPodResult_def)
qed

text \<open>An image with the command, a manifest and a device.\<close>

definition demo_image_files :: fs_FS where
  "demo_image_files = MapFS [(''bin/unpack'', \<lparr>mf_Data = ''elf'', mf_Type = RegularFile, mf_Perm = 493\<rparr>),
     (''manifests/cm.yaml'', \<lparr>mf_Data = ''kind'', mf_Type = RegularFile, mf_Perm = 420\<rparr>)]"

definition demo_image_archive :: "tar_entry list" where
  "demo_image_archive = (case unpack_RunE 4 ''/'' demo_image_files of Ok es \<Rightarrow> es | _ \<Rightarrow> [])"

definition demo_unpack_libs :: unpack_libs where
  "demo_unpack_libs = \<lparr>ul_Parse = (\<lambda>argv f. case argv of [a, dir] \<Rightarrow> Inr (f\<lparr>uf_bundleDir := dir\<rparr>, []) | _ \<Rightarrow> Inr (f, argv)),
     ul_ExactArgs = (\<lambda>n args. if length args = n then None else Some (Msg ''accepts no arguments'')), ul_BuildInfo = None, ul_Getwd = Inr ''/'',
     ul_DirFS = (\<lambda>_. demo_image_files), ul_Encode = (\<lambda>x. if x = TarGz demo_image_archive then Inr ''log'' else Inl (Msg []))\<rparr>"

lemma demo_unpack_laws: "cobra_law demo_unpack_libs" "json_law (ul_Encode demo_unpack_libs) (\<lambda>_. Inr (TarGz demo_image_archive))"
  by (auto simp: cobra_law_def json_law_def demo_unpack_libs_def split: if_splits)

lemma demo_unpack_prints: "unpack_main 4 demo_unpack_libs [''--bundle-dir'', ''/''] = Printed ''log''"
proof -
  have "unpack_RunE 4 ''/'' demo_image_files = Ok demo_image_archive" by code_simp
  then show ?thesis
    by (simp add: unpack_main_def demo_unpack_libs_def default_unpack_flags_def unpack_cmd_def filepath_Abs_def is_rooted_def HasPrefix_def Clean_root)
qed

lemma demo_image_entries:
  "no_skipped_files (bundle_entries 4 (without_skipped demo_image_files))" "distinct (map fst (bundle_entries 4 (without_skipped demo_image_files)))"
  "list_all ValidPath (map fst (bundle_entries 4 (without_skipped demo_image_files)))"
  "\<exists>d. (''manifests/cm.yaml'', d) \<in> set (bundle_entries 4 (without_skipped demo_image_files)) \<and> regular_entry d"
proof -
  show "no_skipped_files (bundle_entries 4 (without_skipped demo_image_files))" "distinct (map fst (bundle_entries 4 (without_skipped demo_image_files)))"
    "list_all ValidPath (map fst (bundle_entries 4 (without_skipped demo_image_files)))"
    by code_simp+
  have "map_of (bundle_entries 4 (without_skipped demo_image_files)) ''manifests/cm.yaml'' = Some (FileInfoToDirEntry (plain_info ''cm.yaml'' RegularFile 420))"
    by code_simp
  moreover have "regular_entry (FileInfoToDirEntry (plain_info ''cm.yaml'' RegularFile 420))"
    by code_simp
  ultimately show "\<exists>d. (''manifests/cm.yaml'', d) \<in> set (bundle_entries 4 (without_skipped demo_image_files)) \<and> regular_entry d"
    by (meson map_of_SomeD)
qed

theorem image_unpacks_to_its_files_witness:
  "\<exists>r b. Image_Unpack tar_MapFS (\<lambda>_. Inr (TarGz demo_image_archive)) (=) demo_kube [] \<lparr>im_PodNamespace = ''sys'', im_UnpackImage = ''u''\<rparr> demo_image_bd () = (Ok r, ()) \<and>
     res_State r = StateUnpacked \<and> res_Bundle r = Some b \<and> fs_ReadFile b ''manifests/cm.yaml'' = Inr ''kind''"
proof -
  let ?i = "\<lparr>im_PodNamespace = ''sys'', im_UnpackImage = ''u''\<rparr>" and ?img = "the (src_Image (bd_Source demo_image_bd))"
  let ?spec = "the (p_Spec (getDesiredPodApplyConfig [] ?i demo_image_bd ?img))"
  have src: "src_Type (bd_Source demo_image_bd) = SourceTypeImage" "src_Image (bd_Source demo_image_bd) = Some ?img"
    by (simp_all add: demo_image_bd_def mk_bd_def empty_source_def)
  have pod: "ensureUnpackPod (=) demo_kube [] ?i demo_image_bd ?img () = (Ok (OperationResultNone, demo_done_pod), ())"
    "om_DeletionTimestamp (p_Meta demo_done_pod) = None" "ps_Phase (p_Status demo_done_pod) = ''Succeeded''" "getBundleImageDigest demo_done_pod = Inr ''h/r@sha256:d1''"
    by (simp_all add: ensureUnpackPod_def demo_kube_def apply_pod_def demo_done_pod_def named_pod_def empty_meta_def getBundleImageDigest_def
        imageBundleUnpackContainerName_def Let_def)
  have con: "p_Spec (getDesiredPodApplyConfig [] ?i demo_image_bd ?img) = Some ?spec" "hd (pod_Containers ?spec) \<in> set (pod_Containers ?spec)"
    "tl (c_Command (hd (pod_Containers ?spec))) = [''--bundle-dir'', ''/'']"
    by (simp_all add: getDesiredPodApplyConfig_def)
  have logs: "k_Logs demo_kube (om_Namespace (p_Meta demo_done_pod)) (om_Name (p_Meta demo_done_pod)) () = (Inr (Inr ''log''), ())"
    by (simp add: demo_kube_def)
  have files: "ul_DirFS demo_unpack_libs ''/'' = demo_image_files" by (simp add: demo_unpack_libs_def)
  have "fs_ReadFile demo_image_files ''manifests/cm.yaml'' = Inr ''kind''" by code_simp
  moreover from image_unpacks_to_its_files [OF src pod con(1,2) demo_unpack_prints [folded con(3)] logs demo_unpack_laws tar_MapFS_law, unfolded files, OF refl demo_image_entries(1-3)]
  obtain r b where "Image_Unpack tar_MapFS (\<lambda>_. Inr (TarGz demo_image_archive)) (=) demo_kube [] ?i demo_image_bd () = (Ok r, ())" "res_State r = StateUnpacked"
    "res_Bundle r = Some b" "\<forall>(p, d)\<in>set (bundle_entries 4 (without_skipped demo_image_files)). regular_entry d \<longrightarrow> fs_ReadFile b p = fs_ReadFile demo_image_files p"
    by blast
  ultimately show ?thesis using demo_image_entries(4) by fastforce
qed

end
