(* ===== verification/Bundle_Lifecycle.thy ===== *)
theory Bundle_Lifecycle
  imports Managers "HOL-Library.Multiset"
begin

text \<open>
  The archive of a bundle from one end of its life to the other: where it is after a reconciliation, what the
  content URL in the status serves, and what the finalizers do when the bundle deployment is deleted. The
  controllers are those of a started manager, with its storage, unpacker and finalizers.
\<close>

section \<open>What is kept on the way to success\<close>

text \<open>
  A property of the state that is kept by changes of the world which keep a view of it, by new conditions and by new watches. It
  holds after a stage that succeeds when the stage's calls keep the view.
\<close>

definition client_keeps :: "('w \<Rightarrow> 'v) \<Rightarrow> 'w ActionInterface \<Rightarrow> bool" where
  "client_keeps view cl \<longleftrightarrow>
     (\<forall>n. keeps view (ai_Get cl n)) \<and> (\<forall>n ns ch v opts. keeps view (ai_Install cl n ns ch v opts)) \<and>
     (\<forall>n ns ch v opts. keeps view (ai_Upgrade cl n ns ch v opts)) \<and> (\<forall>rel. keeps view (ai_Reconcile cl rel))"

text \<open>The Helm clients, the preflights and the watches keep a view.\<close>

definition deployment_keeps :: "('w \<Rightarrow> 'v) \<Rightarrow> 'w ctrl_libs \<Rightarrow> 'w controller \<Rightarrow> bool" where
  "deployment_keeps view K c \<longleftrightarrow>
     (\<forall>g bd. c_acg c = Some g \<longrightarrow> keeps view (g bd) \<and> (\<forall>w cl w'. g bd w = (Ok cl, w') \<longrightarrow> client_keeps view cl)) \<and>
     (\<forall>x. keeps view (k_Watch K x)) \<and>
     (\<forall>p\<in>set (c_preflights c). \<forall>rel. keeps view (rc_Install p rel) \<and> keeps view (rc_Upgrade p rel))"

lemma client_keeps_state: "client_keeps view cl \<Longrightarrow> keeps view (getReleaseState cl bd ch v post)"
proof -
  assume "client_keeps view cl"
  then have cl: "release_client view cl" by (simp add: client_keeps_def keeps_def release_client_def)
  have "view (snd (getReleaseState cl bd ch v post w)) = view w" for w
    by (cases "getReleaseState cl bd ch v post w") (simp add: getReleaseState_keeps [OF cl])
  then show ?thesis by (simp add: keeps_def)
qed

locale view_invariant =
  fixes I :: "'w rstate \<Rightarrow> bool" and view :: "'w \<Rightarrow> 'v"
  assumes world: "I s \<Longrightarrow> view w' = view (rs_world s) \<Longrightarrow> I (s\<lparr>rs_world := w'\<rparr>)"
    and conds: "I s \<Longrightarrow> I (set_status (set_cond setSC t c r m) s)"
    and watched: "I s \<Longrightarrow> I (s\<lparr>rs_watched := insert g (rs_watched s)\<rparr>)"
begin

definition fine :: "'a outcome \<times> 'w rstate \<Rightarrow> bool" where
  "fine x \<longleftrightarrow> (is_ok (fst x) \<longrightarrow> I (snd x))"

lemma fine_simps [simp]: "fine (Err e, s)" "fine (Panic p, s)" "fine (Diverge, s)" "fine (Ok x, s) \<longleftrightarrow> I s"
  by (simp_all add: fine_def)

lemma on_world: "keeps view m \<Longrightarrow> on_world m s = (r, s') \<Longrightarrow> I s \<Longrightarrow> I s'"
  by (auto simp: on_world_iff dest: keepsD intro: world)

lemmas call_fine = call_exits [where Q = fine]
lemmas deref_fine = deref_exits [where Q = fine]

lemma call_world:
  assumes "keeps view m" and "I s" and "\<And>x s. I s \<Longrightarrow> fine (k x s)"
  shows "fine (call (on_world m) wrap rec k s)"
  by (rule call_fine) (use assms(3) on_world [OF assms(1) _ assms(2)] in simp_all)

lemma call_pure: "I s \<Longrightarrow> (\<And>x s. I s \<Longrightarrow> fine (k x s)) \<Longrightarrow> fine (call (\<lambda>s. (f s, s)) wrap rec k s)"
  by (rule call_fine) simp_all

lemma watch_object:
  assumes "\<And>x. keeps view (k_Watch K x)" and "watch_object K obj s = (Ok u, s')" and "I s"
  shows "I s'"
  using assms(2,3) watched on_world [OF assms(1)]
  by (auto simp: watch_object_def split: if_splits prod.splits outcome.splits)

lemma watches:
  assumes "\<And>x. keeps view (k_Watch K x)" and "\<And>s. I s \<Longrightarrow> fine (k s)" and "I s"
  shows "fine (watch_stage K objs k s)"
  using assms(3)
proof (induction objs arbitrary: s)
  case (Cons obj objs)
  have "fine (call (watch_object K u) id rec (\<lambda>_. watch_stage K objs k) s')" if "I s'" for u rec s'
    by (rule call_fine) (use Cons.IH watch_object [OF assms(1) _ that] in simp_all)
  with Cons.prems show ?case by (simp add: call_pure)
qed (simp add: assms(2))

lemma healths: "I s \<Longrightarrow> fine (health_stage K objs s)"
  by (auto simp: health_stage_def Let_def intro!: call_pure conds)

lemma objects:
  assumes "\<And>x. keeps view (k_Watch K x)" and "I s"
  shows "fine (objects_stage K rel s)"
  unfolding objects_stage_def
  by (rule deref_fine) (auto intro!: call_pure watches [OF assms(1)] healths assms(2))

lemma applies:
  assumes cl: "client_keeps view cl" and k: "\<And>rel s. I s \<Longrightarrow> fine (k rel s)" and "I s"
  shows "fine (apply_stage K cl cv post rel state k s)"
  using assms(3) cl unfolding apply_stage_def Let_def client_keeps_def
  by (auto intro!: call_world k deref_fine)

lemma preflights:
  assumes "\<And>p rel. p \<in> set ps \<Longrightarrow> keeps view (rc_Install p rel) \<and> keeps view (rc_Upgrade p rel)"
    and "\<And>s. I s \<Longrightarrow> fine (k s)" and "I s"
  shows "fine (preflight_stage K ps state d k s)"
  using assms(1,3)
proof (induction ps arbitrary: s)
  case (Cons p ps)
  then show ?case by (auto intro!: call_world)
qed (simp add: assms(2))

lemma deploys:
  assumes keep: "deployment_keeps view K c" and "I s"
  shows "fine (deploy_stage K c cv s)"
proof -
  have w: "keeps view (k_Watch K x)" for x using keep by (simp add: deployment_keeps_def)
  show ?thesis
    unfolding deploy_stage_def
  proof (rule release_exits [where Q = fine])
    fix getter cl s1 rel desired state s2
    assume g: "c_acg c = Some getter" "on_world (getter (rs_bd s)) s = (Ok cl, s1)"
      and st: "on_world (getReleaseState cl (rs_bd s1) (fst cv) (snd cv) (owner_postrenderer (rs_bd s1))) s1 = (Ok (rel, desired, state, None), s2)"
    have cl: "client_keeps view cl" and keep_g: "keeps view (getter (rs_bd s))"
      using keep g by (auto simp: deployment_keeps_def on_world_iff)
    have "I s2" using on_world [OF client_keeps_state [OF cl] st] on_world [OF keep_g g(2) assms(2)] by blast
    then show "fine (preflight_stage K (c_preflights c) state desired (apply_stage K cl cv (owner_postrenderer (rs_bd s)) rel state (objects_stage K)) s2)"
      using keep by (intro preflights applies [OF cl] objects w) (simp_all add: deployment_keeps_def)
  qed simp_all
qed

lemma loads:
  assumes "deployment_keeps view K c" and "\<And>sto bd. c_storage c = Some sto \<Longrightarrow> keeps view (bs_Load sto bd)" and "I s"
  shows "fine (load_stage K c (deploy_stage K c) s)"
  unfolding load_stage_def
proof (rule deref_fine)
  fix sto assume "c_storage c = Some sto"
  from assms(2) [OF this] have load: "keeps view (bs_Load sto bd)" for bd .
  show "fine (call (on_world (bs_Load sto (rs_bd s))) id
         (\<lambda>e. set_cond (k_setSC K) TypeHasValidBundle ConditionFalse ReasonBundleLoadFailed (Error e)) (\<lambda>bundleFS.
         deref (c_handler c) (\<lambda>Handle s.
           call (\<lambda>s. (Handle bundleFS (rs_bd s), s)) id
             (\<lambda>e. set_cond (k_setSC K) TypeInstalled ConditionFalse ReasonInstallFailed (Error e)) (deploy_stage K c) s)) s)"
    by (rule call_world [OF load assms(3)]) (auto intro!: deref_fine call_pure deploys [OF assms(1)])
qed simp

end

section \<open>Where the archive is after a reconciliation\<close>

text \<open>The state after the bundle was stored: the disk and the content URL.\<close>

interpretation stored_state: view_invariant
  "\<lambda>s. view (rs_world s) = v \<and> st_ContentURL (bd_Status (rs_bd s)) = url" view
  for view v url
  by unfold_locales simp_all

text \<open>The archive of an unpacked bundle is what was stored last, under the URL in the status.\<close>

definition archive_kept ::
  "('w, 'g, 'c, 's, 'k, 'r, 'a, 'l) manager_libs \<Rightarrow> LocalDirectory \<Rightarrow> 'w controller \<Rightarrow> BundleDeployment
   \<Rightarrow> unit outcome \<times> 'w rstate \<Rightarrow> bool" where
  "archive_kept L dir c b x \<longleftrightarrow>
     (is_ok (fst x) \<longrightarrow> unpacked_status (bd_Status (rs_bd (snd x))) \<longrightarrow>
       (\<exists>res bundleFS bd d. unpacked_as c b res \<and> res_Bundle res = Some bundleFS \<and> bd_core bd = b \<and>
          LocalDirectory_Store (ml_depth L) dir d bd bundleFS = (Ok (), ln_get (ml_disk L) (rs_world (snd x))) \<and>
          LocalDirectory_URLFor dir bd = Ok (st_ContentURL (bd_Status (rs_bd (snd x))))))"

lemma archive_kept_failed [simp]:
  "archive_kept L dir c b (Err e, s)" "archive_kept L dir c b (Panic p, s)" "archive_kept L dir c b (Diverge, s)"
  by (simp_all add: archive_kept_def)

lemma new_bundle_storage_calls:
  assumes "lens_law (ml_disk L)"
  shows "bs_Store (new_bundle_storage L cfg dir CAs) bd x w = (Ok u, w') \<Longrightarrow>
      \<exists>b. x = Some b \<and> LocalDirectory_Store (ml_depth L) dir (ln_get (ml_disk L) w) bd b = (Ok (), ln_get (ml_disk L) w')"
    and "bs_URLFor (new_bundle_storage L cfg dir CAs) bd w = (LocalDirectory_URLFor dir bd, w)"
    and "keeps (ln_get (ml_disk L)) (bs_Load (new_bundle_storage L cfg dir CAs) bd)"
    and "bs_Delete (new_bundle_storage L cfg dir CAs) bd w = (Ok u, w') \<Longrightarrow>
      LocalDirectory_Delete dir (ln_get (ml_disk L) w) bd = (Ok (), ln_get (ml_disk L) w')"
  using assms
  by (auto simp: new_bundle_storage_def WithFallbackLoader_def local_store_def Let_def through_iff keeps_def through_def
      split: option.splits prod.splits outcome.splits)

lemma store_stage_kept:
  assumes lens: "lens_law (ml_disk L)" and sto: "c_storage c = Some (new_bundle_storage L cfg dir CAs)"
    and keep: "deployment_keeps (ln_get (ml_disk L)) K c" and res: "unpacked_as c b res" and core: "bd_core (rs_bd s) = b"
  shows "archive_kept L dir c b
    (store_stage K (new_bundle_storage L cfg dir CAs) res (load_stage K c (deploy_stage K c)) s)" (is "?Q (store_stage K ?sto _ _ _)")
  unfolding store_stage_def
proof (rule call_exits [where Q = ?Q])
  fix u s1 assume st: "on_world (bs_Store ?sto (rs_bd s) (res_Bundle res)) s = (Ok u, s1)"
  then obtain x where x: "res_Bundle res = Some x"
    and d: "LocalDirectory_Store (ml_depth L) dir (ln_get (ml_disk L) (rs_world s)) (rs_bd s) x = (Ok (), ln_get (ml_disk L) (rs_world s1))"
    using new_bundle_storage_calls(1) [OF lens] by (fastforce simp: on_world_iff)
  have bd: "rs_bd s1 = rs_bd s" using on_world_keeps(1) [OF st] .
  show "?Q (call (on_world (bs_URLFor ?sto (rs_bd s1))) (msg_prefix ''get content URL: '') (failing K) (\<lambda>contentURL s.
      load_stage K c (deploy_stage K c)
        (set_status (\<lambda>st. updateStatusUnpacked (k_setSC K) st (res_ResolvedSource res) (res_Message res) contentURL) s)) s1)"
  proof (rule call_exits [where Q = ?Q])
    fix url s2 assume url: "on_world (bs_URLFor ?sto (rs_bd s1)) s1 = (Ok url, s2)"
    then have s2: "s2 = s1" "LocalDirectory_URLFor dir (rs_bd s1) = Ok url"
      by (auto simp: on_world_iff new_bundle_storage_calls(2) [OF lens])
    let ?s = "set_status (\<lambda>st. updateStatusUnpacked (k_setSC K) st (res_ResolvedSource res) (res_Message res) url) s2"
    have start: "ln_get (ml_disk L) (rs_world ?s) = ln_get (ml_disk L) (rs_world s1) \<and> st_ContentURL (bd_Status (rs_bd ?s)) = url"
      by (simp add: s2 bd updateStatusUnpacked_def)
    have "keeps (ln_get (ml_disk L)) (bs_Load sto' bd')" if "c_storage c = Some sto'" for sto' bd'
      using that sto new_bundle_storage_calls(3) [OF lens, of cfg dir CAs] by auto
    from stored_state.loads [OF keep this start] show "?Q (load_stage K c (deploy_stage K c) ?s)"
      unfolding archive_kept_def stored_state.fine_def using x d s2 bd res core by auto
  qed simp_all
qed simp_all

lemma unpack_stage_kept:
  assumes lens: "lens_law (ml_disk L)" and sc: "condition_setter (k_setSC K)" and sto: "c_storage c = Some (new_bundle_storage L cfg dir CAs)"
    and keep: "deployment_keeps (ln_get (ml_disk L)) K c" and core: "bd_core (rs_bd s) = b"
  shows "archive_kept L dir c b (unpack_stage K c (load_stage K c (deploy_stage K c)) s)"
proof -
  let ?Q = "archive_kept L dir c b"
  have waiting: "?Q (Ok (), set_status (\<lambda>st. updateStatusUnpackPending (k_setSC K) st m) s')"
    "?Q (Ok (), set_status (\<lambda>st. updateStatusUnpacking (k_setSC K) st m) s')" for m s'
    by (simp_all add: archive_kept_def waiting_not_unpacked [OF sc])
  have "?Q (store_stage K sto' res (load_stage K c (deploy_stage K c)) s')"
    if "c_unpacker c = Some up" "on_world (up_Unpack up (rs_bd s)) s = (Ok res, s')" "res_State res = StateUnpacked" "c_storage c = Some sto'" for up res s' sto'
  proof -
    have "rs_bd s' = rs_bd s" using on_world_keeps(1) [OF that(2)] .
    moreover have "unpacked_as c b res" using that core by (auto simp: unpacked_as_def on_world_iff)
    ultimately show ?thesis using store_stage_kept [OF lens sto keep, of b res s'] sto that(4) core by simp
  qed
  then show ?thesis
    unfolding unpack_stage_def Let_def
    by (intro exits [where Q = ?Q]) (auto intro!: deref_exits [where Q = ?Q] waiting)
qed

lemma reconcile_stored:
  assumes lens: "lens_law (ml_disk L)" and sc: "condition_setter (k_setSC K)" and fin: "finalizers_law c"
    and sto: "c_storage c = Some (new_bundle_storage L cfg dir CAs)" and keep: "deployment_keeps (ln_get (ml_disk L)) K c"
  shows "archive_kept L dir c (bd_core (rs_bd s)) (reconcile K c s)"
  unfolding reconcile_def
proof (rule finalize_exits [where Q = "archive_kept L dir c (bd_core (rs_bd s))"])
  let ?s = "set_status (\<lambda>st. st\<lparr>st_ObservedGeneration := om_Generation (bd_Meta (rs_bd s))\<rparr>) s"
  fix F bd s1 assume "c_finalizers c = Some F" "on_world (F (rs_bd ?s)) ?s = (Ok (bd, None), s1)"
  then have "bd_core bd = bd_core (rs_bd s)" using finalized_core [OF fin] by fastforce
  then show "archive_kept L dir c (bd_core (rs_bd s)) (unpack_stage K c (load_stage K c (deploy_stage K c)) (s1\<lparr>rs_bd := bd\<rparr>))"
    by (intro unpack_stage_kept [OF lens sc sto keep]) simp
qed simp_all

text \<open>C9. The content URL in the status serves the bundle. When a controller of a started manager has reconciled a bundle deployment without error and the status says
  that the bundle is unpacked, then the default unpacker gave a bundle for it, and a request to the manager's bundle server under the path of the
  URL in the status is answered with the archive of that bundle. The assumptions are that the disk is a part of the world which the
  Helm clients, preflights and watches leave alone, that \<open>SetStatusCondition\<close> sets conditions, that the registry of finalizers changes no more than the
  finalizers of the object, and that the name of the bundle deployment is one that Kubernetes admits, with no directory in the
  place of its file.\<close>

theorem content_url_serves_bundle:
  assumes started: "core_main L f = Started (mo, cs) \<or> helm_main L f = Started (mo, cs)" and c: "c \<in> set cs"
    and lens: "lens_law (ml_disk L)" and sc: "condition_setter (k_setSC K)" and fin: "finalizers_law c"
    and keep: "deployment_keeps (ln_get (ml_disk L)) K c"
    and run: "reconcile K c s = (Ok (), s')" "unpacked_status (bd_Status (rs_bd s'))"
    and name: "owner_name (bd_Name (rs_bd s))" and path: "url_Path (ld_URL (mo_Bundles mo)) \<noteq> []"
    and dirs: "bundlePath (mo_Bundles mo) (bd_Name (rs_bd s)) \<notin> dirs"
  shows "\<exists>res b es file. unpacked_as c (bd_core (rs_bd s)) res \<and> res_Bundle res = Some b \<and> FSToTarGZ (ml_depth L) (\<lambda>_. None) b = Ok es \<and>
     st_ContentURL (bd_Status (rs_bd s')) = url_String (ld_URL (mo_Bundles mo)) @ file \<and>
     LocalDirectory_ServeHTTP blob_bytes dirs (mo_Bundles mo) (ln_get (ml_disk L) (rs_world s')) (url_Path (ld_URL (mo_Bundles mo)) @ file)
       = Served (blob_bytes (TarGz es))"
proof -
  obtain cfg CAs where sto: "c_storage c = Some (new_bundle_storage L cfg (mo_Bundles mo) CAs)"
    using started_storage [OF started c] .
  obtain res b bd d where res: "unpacked_as c (bd_core (rs_bd s)) res" "res_Bundle res = Some b" and core: "bd_core bd = bd_core (rs_bd s)"
    and store: "LocalDirectory_Store (ml_depth L) (mo_Bundles mo) d bd b = (Ok (), ln_get (ml_disk L) (rs_world s'))"
    and url: "LocalDirectory_URLFor (mo_Bundles mo) bd = Ok (st_ContentURL (bd_Status (rs_bd s')))"
    using reconcile_stored [OF lens sc fin sto keep, of s] run by (auto simp: archive_kept_def)
  have nm: "bd_Name bd = bd_Name (rs_bd s)" using bd_core_name [OF core] .
  show ?thesis
    using stored_bundle_served [OF store _ path, of dirs blob_bytes] name dirs nm res url by auto
qed

section \<open>The registry of finalizers\<close>

text \<open>
  What is documented of \<open>finalizer.Finalizers\<close>: it goes through the registered finalizers, in some order. For an object that is not being
  deleted it puts a missing key on the object; for an object that is being deleted and has the key it runs the
  finalizer, and takes the key off when that succeeds. The errors are collected.
\<close>

type_synonym 'w registered = "(string \<times> (BundleDeployment \<Rightarrow> ('w, unit) M)) list"

abbreviation finalizers_of :: "BundleDeployment \<Rightarrow> string list" where
  "finalizers_of bd \<equiv> om_Finalizers (bd_Meta bd)"

abbreviation deleted :: "BundleDeployment \<Rightarrow> bool" where
  "deleted bd \<equiv> om_DeletionTimestamp (bd_Meta bd) \<noteq> None"

definition set_finalizers :: "string list \<Rightarrow> BundleDeployment \<Rightarrow> BundleDeployment" where
  "set_finalizers fs bd = bd\<lparr>bd_Meta := (bd_Meta bd)\<lparr>om_Finalizers := fs\<rparr>\<rparr>"

fun finalize_each :: "'w registered \<Rightarrow> BundleDeployment \<Rightarrow> ('w, BundleDeployment \<times> gerror list) M" where
  "finalize_each [] bd w = (Ok (bd, []), w)"
| "finalize_each ((key, Finalize) # fs) bd w =
     (if \<not> deleted bd
      then finalize_each fs (set_finalizers (List.insert key (finalizers_of bd)) bd) w
      else if key \<in> set (finalizers_of bd)
      then (case Finalize bd w of
              (Ok _, w1) \<Rightarrow> finalize_each fs (set_finalizers (removeAll key (finalizers_of bd)) bd) w1
            | (Err e, w1) \<Rightarrow> (case finalize_each fs bd w1 of (Ok (bd', es), w2) \<Rightarrow> (Ok (bd', e # es), w2) | r \<Rightarrow> r)
            | (Panic p, w1) \<Rightarrow> (Panic p, w1)
            | (Diverge, w1) \<Rightarrow> (Diverge, w1))
      else finalize_each fs bd w)"

definition collected :: "new_aggregate \<Rightarrow> (BundleDeployment \<times> gerror list) outcome \<times> 'w \<Rightarrow> (BundleDeployment \<times> gerror option) outcome \<times> 'w" where
  "collected NA x = (case x of (Ok (bd, es), w) \<Rightarrow> (Ok (bd, NA es), w) | (Err e, w) \<Rightarrow> (Err e, w) | (Panic p, w) \<Rightarrow> (Panic p, w) | (Diverge, w) \<Rightarrow> (Diverge, w))"

definition finalizer_registry :: "new_aggregate \<Rightarrow> ('w registered \<Rightarrow> 'w finalizers) \<Rightarrow> bool" where
  "finalizer_registry NA reg \<longleftrightarrow> (\<forall>fs bd w. \<exists>ps. mset ps = mset fs \<and> reg fs bd w = collected NA (finalize_each ps bd w))"

lemma collected_Ok: "collected NA x = (Ok (bd, err), w) \<longleftrightarrow> (\<exists>es. x = (Ok (bd, es), w) \<and> err = NA es)"
  by (auto simp: collected_def split: prod.splits outcome.splits)

lemma set_finalizers_fields [simp]:
  "bd_core (set_finalizers fs bd) = bd_core bd" "finalizers_of (set_finalizers fs bd) = fs" "om_DeletionTimestamp (bd_Meta (set_finalizers fs bd)) = om_DeletionTimestamp (bd_Meta bd)"
  "bd_Spec (set_finalizers fs bd) = bd_Spec bd"
  by (simp_all add: set_finalizers_def bd_core_def)

lemma bd_core_deletion: "bd_core a = bd_core b \<Longrightarrow> om_DeletionTimestamp (bd_Meta a) = om_DeletionTimestamp (bd_Meta b)"
  by (cases "bd_Meta a"; cases "bd_Meta b") (simp add: bd_core_iff)

lemma finalize_each_live:
  "\<not> deleted bd \<Longrightarrow> \<exists>bd'. finalize_each ps bd w = (Ok (bd', []), w) \<and> bd_core bd' = bd_core bd
     \<and> set (finalizers_of bd') = set (finalizers_of bd) \<union> fst ` set ps"
proof (induction ps arbitrary: bd)
  case (Cons p ps)
  obtain k f where p: "p = (k, f)" by fastforce
  from Cons.IH [of "set_finalizers (List.insert k (finalizers_of bd)) bd"] Cons.prems
  show ?case by (auto simp: p)
qed simp

text \<open>One step of the walk over the finalizers of an object that is being deleted.\<close>

lemma finalize_each_step:
  assumes "finalize_each ((k, f) # ps) bd w = (Ok (bd', es), w')" and "deleted bd"
  obtains "k \<notin> set (finalizers_of bd)" "finalize_each ps bd w = (Ok (bd', es), w')"
  | w1 where "k \<in> set (finalizers_of bd)" "f bd w = (Ok (), w1)"
      "finalize_each ps (set_finalizers (removeAll k (finalizers_of bd)) bd) w1 = (Ok (bd', es), w')"
  | e w1 es' where "k \<in> set (finalizers_of bd)" "f bd w = (Err e, w1)" "es = e # es'" "finalize_each ps bd w1 = (Ok (bd', es'), w')"
  using assms by (auto split: if_splits prod.splits outcome.splits)

lemma finalize_each_deleted:
  assumes "finalize_each ps bd w = (Ok (bd', es), w')" and "deleted bd"
  shows "bd_core bd' = bd_core bd \<and> set (finalizers_of bd') \<subseteq> set (finalizers_of bd) \<and>
     set (finalizers_of bd) - fst ` set ps \<subseteq> set (finalizers_of bd') \<and> (es = [] \<longrightarrow> set (finalizers_of bd') \<inter> fst ` set ps = {})"
  using assms
proof (induction ps arbitrary: bd w es)
  case (Cons p ps)
  obtain k f where p: "p = (k, f)" by fastforce
  from Cons.prems(1) [unfolded p] Cons.prems(2) show ?case
  proof (cases rule: finalize_each_step)
    case 1
    then show ?thesis using Cons.IH [OF 1(2) Cons.prems(2)] by (auto simp: p)
  next
    case (2 w1)
    have "deleted (set_finalizers (removeAll k (finalizers_of bd)) bd)" using Cons.prems(2) by simp
    from Cons.IH [OF 2(3) this] show ?thesis by (auto simp: p)
  next
    case (3 e w1 es')
    then show ?thesis using Cons.IH [OF 3(4) Cons.prems(2)] by (auto simp: p)
  qed
qed simp

text \<open>A postcondition of one finalizer that the others keep holds when its key is gone.\<close>

lemma finalize_each_keeps:
  assumes "finalize_each ps bd w = (Ok (bd', es), w')" and "deleted bd" and "P w"
    and "\<And>k f bd w r w'. (k, f) \<in> set ps \<Longrightarrow> P w \<Longrightarrow> f bd w = (r, w') \<Longrightarrow> P w'"
  shows "P w'"
  using assms
proof (induction ps arbitrary: bd w es)
  case (Cons p ps)
  obtain k f where p: "p = (k, f)" by fastforce
  have rest: "P w2" if "(k, f) \<in> set ps" "P w1" "f b w1 = (r, w2)" for k f b w1 r w2
    using Cons.prems(4) that by (meson list.set_intros(2))
  have this1: "P w2" if "f b w = (r, w2)" for b r w2
    using Cons.prems(3,4) that p by (meson list.set_intros(1))
  from Cons.prems(1) [unfolded p] Cons.prems(2) show ?case
  proof (cases rule: finalize_each_step)
    case 1
    show ?thesis by (rule Cons.IH [OF 1(2) Cons.prems(2,3)]) (blast intro: rest)
  next
    case (2 w1)
    have "deleted (set_finalizers (removeAll k (finalizers_of bd)) bd)" using Cons.prems(2) by simp
    from Cons.IH [OF 2(3) this this1 [OF 2(2)]] show ?thesis using rest by blast
  next
    case (3 e w1 es')
    show ?thesis by (rule Cons.IH [OF 3(4) Cons.prems(2) this1 [OF 3(2)]]) (blast intro: rest)
  qed
qed simp

lemma finalize_each_post:
  assumes "finalize_each ps bd w = (Ok (bd', es), w')" and "deleted bd" and "distinct (map fst ps)" and "(k, f) \<in> set ps"
    and "k \<in> set (finalizers_of bd)" and "k \<notin> set (finalizers_of bd')"
    and post: "\<And>b w u w'. bd_core b = bd_core bd \<Longrightarrow> f b w = (Ok u, w') \<Longrightarrow> P w'"
    and kept: "\<And>k' g b w r w'. (k', g) \<in> set ps \<Longrightarrow> k' \<noteq> k \<Longrightarrow> P w \<Longrightarrow> g b w = (r, w') \<Longrightarrow> P w'"
  shows "P w'"
  using assms
proof (induction ps arbitrary: bd w es)
  case (Cons p ps)
  obtain k1 f1 where p: "p = (k1, f1)" by fastforce
  have others: "P w2" if "(k', g) \<in> set ps" "k' \<noteq> k" "P w1" "g b w1 = (r, w2)" for k' g b w1 r w2
    using Cons.prems(8) that by (meson list.set_intros(2))
  have tail: "(k, f) \<in> set ps" if "k1 \<noteq> k" using Cons.prems(4) that p by simp
  have dist: "distinct (map fst ps)" "k1 \<notin> fst ` set ps" using Cons.prems(3) p by simp_all
  from Cons.prems(1) [unfolded p] Cons.prems(2) show ?case
  proof (cases rule: finalize_each_step)
    case 1
    then have "k1 \<noteq> k" using Cons.prems(5) by blast
    with 1 show ?thesis
      by (intro Cons.IH [OF 1(2) Cons.prems(2) dist(1) tail Cons.prems(5,6)]) (blast intro: Cons.prems(7) others)+
  next
    case (2 w1)
    let ?b = "set_finalizers (removeAll k1 (finalizers_of bd)) bd"
    have del: "deleted ?b" using Cons.prems(2) by simp
    show ?thesis
    proof (cases "k1 = k")
      case True
      then have "f1 = f" using Cons.prems(4) dist(2) p by force
      then have "P w1" using Cons.prems(7) [OF refl] 2(2) by blast
      then show ?thesis
        by (rule finalize_each_keeps [OF 2(3) del]) (use others dist(2) True in \<open>metis fst_conv image_eqI\<close>)
    next
      case False
      have k: "k \<in> set (finalizers_of ?b)" and core: "bd_core ?b = bd_core bd" using Cons.prems(5) False by simp_all
      show ?thesis
        by (rule Cons.IH [OF 2(3) del dist(1) tail [OF False] k Cons.prems(6)]) (unfold core, (blast intro: Cons.prems(7) others)+)
    qed
  next
    case (3 e w1 es')
    show ?thesis
    proof (cases "k1 = k")
      case True
      then have "k \<in> set (finalizers_of bd')"
        using finalize_each_deleted [OF 3(4) Cons.prems(2)] dist(2) Cons.prems(5) by blast
      then show ?thesis using Cons.prems(6) by simp
    next
      case False
      then show ?thesis
        by (intro Cons.IH [OF 3(4) Cons.prems(2) dist(1) tail Cons.prems(5,6)]) (blast intro: Cons.prems(7) others)+
    qed
  qed
qed simp

section \<open>Deleting a bundle deployment\<close>

definition disk_apart :: "('w, 'g, 'c, 's, 'k, 'r, 'a, 'l) manager_libs \<Rightarrow> bool" where
  "disk_apart L \<longleftrightarrow> lens_law (ml_disk L) \<and> (\<forall>x w. ln_get (ml_disk L) (ln_put (ml_source_world L) x w) = ln_get (ml_disk L) w)"

lemma started_finalizers:
  assumes "core_main L f = Started (mo, cs) \<or> helm_main L f = Started (mo, cs)" and "c \<in> set cs"
  obtains cfg CAs u where "c_finalizers c = Some (ml_Finalizers L
      [(DeleteCachedBundleKey, DeleteCachedBundle_Finalize (new_bundle_storage L cfg (mo_Bundles mo) CAs)),
       (CleanupUnpackCacheKey, CleanupUnpackCache_Finalize u)])"
    "default_unpacker L (system_namespace L f) (fl_unpackCacheDir f) = Inr u"
  using assms by (auto simp: managed_def storage_of_def default_unpacker_def Let_def elim!: core_main_Started helm_main_Started)

lemma keys_distinct [simp]: "DeleteCachedBundleKey \<noteq> CleanupUnpackCacheKey"
  by (simp add: DeleteCachedBundleKey_def CleanupUnpackCacheKey_def)

lemma two_keys: "distinct (map fst [(DeleteCachedBundleKey, x), (CleanupUnpackCacheKey, y)])"
  by simp

lemma registry_keeps_core:
  assumes "finalizer_registry NA reg" and "reg fs bd w = (Ok (bd', e), w')"
  shows "bd_core bd' = bd_core bd"
proof -
  obtain ps es where run: "finalize_each ps bd w = (Ok (bd', es), w')"
    using assms unfolding finalizer_registry_def by (metis collected_Ok)
  show ?thesis
  proof (cases "deleted bd")
    case True
    then show ?thesis using finalize_each_deleted [OF run] by blast
  next
    case False
    then show ?thesis using run finalize_each_live [of bd ps w] by auto
  qed
qed

lemma registry_finalizers_law:
  assumes "core_main L f = Started (mo, cs) \<or> helm_main L f = Started (mo, cs)" and "c \<in> set cs" and "finalizer_registry NA (ml_Finalizers L)"
  shows "finalizers_law c"
  using started_finalizers [OF assms(1,2)] registry_keeps_core [OF assms(3)] unfolding finalizers_law_def by (metis option.inject)

lemma DeleteCachedBundle_removes:
  assumes "lens_law (ml_disk L)" and "DeleteCachedBundle_Finalize (new_bundle_storage L cfg dir CAs) bd w = (Ok u, w')"
  shows "disk_Files (ln_get (ml_disk L) w') (bundlePath dir (bd_Name bd)) = None"
  using new_bundle_storage_calls(4) [OF assms(1) assms(2) [unfolded DeleteCachedBundle_Finalize_def]] by (simp add: Delete_Ok)

text \<open>C10. The finalizers of a manager guard the stored bundle. As long as a bundle deployment is not being deleted, they are put on it and nothing is cleaned
  up. Once it is being deleted, the finalizer of the stored bundle goes off the object only after the
  archive was removed from the manager's storage, and no other finalizer goes off than the two of the manager; when
  no error is reported both are off.\<close>

theorem finalizers_guard_archive:
  assumes started: "core_main L f = Started (mo, cs) \<or> helm_main L f = Started (mo, cs)" and c: "c \<in> set cs"
    and apart: "disk_apart L" and reg: "finalizer_registry NA (ml_Finalizers L)" and agg: "aggregate_law NA"
    and F: "c_finalizers c = Some F" "F bd w = (Ok (bd', err), w')"
  shows "if deleted bd
    then (DeleteCachedBundleKey \<in> set (finalizers_of bd) - set (finalizers_of bd') \<longrightarrow>
            disk_Files (ln_get (ml_disk L) w') (bundlePath (mo_Bundles mo) (bd_Name bd)) = None) \<and>
         set (finalizers_of bd') \<subseteq> set (finalizers_of bd) \<and>
         set (finalizers_of bd) - set (finalizers_of bd') \<subseteq> {DeleteCachedBundleKey, CleanupUnpackCacheKey} \<and>
         (err = None \<longrightarrow> set (finalizers_of bd') \<inter> {DeleteCachedBundleKey, CleanupUnpackCacheKey} = {})
    else err = None \<and> w' = w \<and> set (finalizers_of bd') = set (finalizers_of bd) \<union> {DeleteCachedBundleKey, CleanupUnpackCacheKey}"
proof -
  obtain cfg CAs u where c_fin: "c_finalizers c = Some (ml_Finalizers L
      [(DeleteCachedBundleKey, DeleteCachedBundle_Finalize (new_bundle_storage L cfg (mo_Bundles mo) CAs)),
       (CleanupUnpackCacheKey, CleanupUnpackCache_Finalize u)])" (is "_ = Some (_ ?fs)")
    and u: "default_unpacker L (system_namespace L f) (fl_unpackCacheDir f) = Inr u"
    by (rule started_finalizers [OF started c])
  have "ml_Finalizers L ?fs bd w = (Ok (bd', err), w')" using c_fin F by simp
  then obtain ps es where ps: "mset ps = mset ?fs" and run: "finalize_each ps bd w = (Ok (bd', es), w')" and err: "err = NA es"
    using reg unfolding finalizer_registry_def by (metis collected_Ok)
  have set_ps: "set ps = set ?fs" using ps mset_eq_setD by blast
  have "mset (map fst ps) = mset (map fst ?fs)" using ps by (simp only: mset_map)
  then have dist: "distinct (map fst ps)" by (metis mset_eq_imp_distinct_iff two_keys)
  have keys: "fst ` set ps = {DeleteCachedBundleKey, CleanupUnpackCacheKey}" by (auto simp: set_ps)
  show ?thesis
  proof (cases "deleted bd")
    case False
    then show ?thesis using finalize_each_live [OF False, of ps w] run keys err agg by (auto simp: aggregate_law_def)
  next
    case True
    have "disk_Files (ln_get (ml_disk L) w') (bundlePath (mo_Bundles mo) (bd_Name bd)) = None"
      if "DeleteCachedBundleKey \<in> set (finalizers_of bd)" "DeleteCachedBundleKey \<notin> set (finalizers_of bd')"
    proof (rule finalize_each_post [OF run True dist _ that])
      show "(DeleteCachedBundleKey, DeleteCachedBundle_Finalize (new_bundle_storage L cfg (mo_Bundles mo) CAs)) \<in> set ps"
        by (simp add: set_ps)
      show "disk_Files (ln_get (ml_disk L) w2) (bundlePath (mo_Bundles mo) (bd_Name bd)) = None"
        if "bd_core b = bd_core bd" "DeleteCachedBundle_Finalize (new_bundle_storage L cfg (mo_Bundles mo) CAs) b w1 = (Ok v, w2)" for b w1 v w2
        using DeleteCachedBundle_removes [OF _ that(2)] bd_core_name [OF that(1)] apart by (simp add: disk_apart_def)
      show "disk_Files (ln_get (ml_disk L) w2) (bundlePath (mo_Bundles mo) (bd_Name bd)) = None"
        if "(k, g) \<in> set ps" "k \<noteq> DeleteCachedBundleKey" "disk_Files (ln_get (ml_disk L) w1) (bundlePath (mo_Bundles mo) (bd_Name bd)) = None"
          "g b w1 = (r, w2)" for k g b w1 r w2
      proof -
        have "g = CleanupUnpackCache_Finalize u" using that(1,2) by (auto simp: set_ps)
        then show ?thesis using that(3,4) u apart
          by (auto simp: CleanupUnpackCache_Finalize_def default_unpacker_def Let_def through_iff disk_apart_def)
      qed
    qed
    then show ?thesis using True finalize_each_deleted [OF run True] keys err agg by (auto simp: aggregate_law_def)
  qed
qed

section \<open>What a request writes\<close>

text \<open>
  What is documented of the API server, with \<open>objs\<close> its bundle deployments by name: a write of the status takes nothing but the status from the
  object it is given and a write of the object everything but the status, both answer with the object as it is then; an object that is
  being deleted is there as long as it has finalizers.
\<close>

definition api_server :: "('w \<Rightarrow> string \<rightharpoonup> BundleDeployment) \<Rightarrow> 'w bd_client \<Rightarrow> bool" where
  "api_server objs cl \<longleftrightarrow>
     (\<forall>k w bd w'. bc_Get cl k w = (Ok bd, w') \<longrightarrow> objs w (nn_Name k) = Some bd \<and> bd_Name bd = nn_Name k \<and> objs w' = objs w \<and>
        (deleted bd \<longrightarrow> finalizers_of bd \<noteq> [])) \<and>
     (\<forall>bd w bd' w'. bc_StatusUpdate cl bd w = (Ok bd', w') \<longrightarrow> (\<exists>cur. objs w (bd_Name bd) = Some cur \<and>
        bd_Name bd' = bd_Name bd \<and> finalizers_of bd' = finalizers_of cur \<and> deleted bd' = deleted cur \<and> bd_Status bd' = bd_Status bd \<and>
        objs w' = (objs w)(bd_Name bd \<mapsto> bd'))) \<and>
     (\<forall>bd w bd' w'. bc_Update cl bd w = (Ok bd', w') \<longrightarrow> (\<exists>cur. objs w (bd_Name bd) = Some cur \<and>
        finalizers_of bd' = finalizers_of bd \<and> bd_Status bd' = bd_Status cur \<and>
        objs w' = (objs w)(bd_Name bd := if deleted cur \<and> finalizers_of bd = [] then None else Some bd')))"

lemma api_serverD:
  assumes "api_server objs cl"
  shows "bc_Get cl k w = (Ok bd, w') \<Longrightarrow> objs w (nn_Name k) = Some bd \<and> bd_Name bd = nn_Name k \<and> objs w' = objs w \<and>
      (deleted bd \<longrightarrow> finalizers_of bd \<noteq> [])"
    and "bc_StatusUpdate cl bd w = (Ok bd', w') \<Longrightarrow> \<exists>cur. objs w (bd_Name bd) = Some cur \<and>
      bd_Name bd' = bd_Name bd \<and> finalizers_of bd' = finalizers_of cur \<and> deleted bd' = deleted cur \<and> bd_Status bd' = bd_Status bd \<and>
      objs w' = (objs w)(bd_Name bd \<mapsto> bd')"
    and "bc_Update cl bd w = (Ok bd', w') \<Longrightarrow> \<exists>cur. objs w (bd_Name bd) = Some cur \<and>
      finalizers_of bd' = finalizers_of bd \<and> bd_Status bd' = bd_Status cur \<and>
      objs w' = (objs w)(bd_Name bd := if deleted cur \<and> finalizers_of bd = [] then None else Some bd')"
  using assms unfolding api_server_def by blast+

lemma write_back_Ok:
  assumes "write_back NA None needed Write bd k w = (Ok (), w')" and "aggregate_law NA"
  obtains "\<not> needed" "k bd w = (Ok (), w')" | bd1 w1 where needed "Write bd w = (Ok bd1, w1)" "k bd1 w1 = (Ok (), w')"
proof -
  have "NA [e] \<noteq> None" for e using assms(2) by (simp add: aggregate_law_def)
  then have "update_aggregate NA None e \<noteq> Ok u" for e u
    by (simp add: update_aggregate_def err_option_def split: option.split)
  with assms(1) that show thesis
    by (auto simp: write_back_def split: if_splits prod.splits outcome.splits)
qed

lemma finish_finalizers:
  assumes api: "api_server objs cl" and agg: "aggregate_law NA" and eqF: "\<And>a b. eq_Finalizers E a b \<longleftrightarrow> a = b"
    and run: "finish NA E cl existing reconciled None w = (Ok (), w')"
    and cur: "objs w (bd_Name existing) = Some existing" "bd_core reconciled = bd_core existing" "deleted existing \<longrightarrow> finalizers_of existing \<noteq> []"
  shows "if \<not> eq_Status E (bd_Status existing) (bd_Status reconciled)
     then \<exists>bd'. objs w' (bd_Name existing) = Some bd' \<and> finalizers_of bd' = finalizers_of existing \<and> bd_Status bd' = bd_Status reconciled
     else if deleted existing \<and> finalizers_of reconciled = [] then objs w' (bd_Name existing) = None
     else \<exists>bd'. objs w' (bd_Name existing) = Some bd' \<and> finalizers_of bd' = finalizers_of reconciled \<and> bd_Status bd' = bd_Status existing"
proof -
  have name: "bd_Name reconciled = bd_Name existing" using bd_core_name [OF cur(2)] .
  let ?changed = "\<not> eq_Finalizers E (finalizers_of existing) (finalizers_of reconciled)"
  have last: "objs w' (bd_Name existing) = (if ?changed \<and> deleted b1 \<and> finalizers_of bd = [] then None else objs w' (bd_Name existing)) \<and>
      (\<not> (?changed \<and> deleted b1 \<and> finalizers_of bd = []) \<longrightarrow> (\<exists>bd'. objs w' (bd_Name existing) = Some bd' \<and>
         finalizers_of bd' = (if ?changed then finalizers_of bd else finalizers_of b1) \<and> bd_Status bd' = bd_Status b1))"
    if w: "write_back NA None ?changed (bc_Update cl) bd (\<lambda>_ w. (err_option None, w)) w1 = (Ok (), w')"
      and b1: "objs w1 (bd_Name existing) = Some b1" "bd_Name bd = bd_Name existing" for bd b1 w1
    using w agg
  proof (cases rule: write_back_Ok)
    case 1
    then show ?thesis using b1 by (simp add: err_option_def)
  next
    case (2 bd2 w2)
    then have "w2 = w'" by (simp add: err_option_def)
    with api_serverD(3) [OF api 2(2)] b1 2(1) show ?thesis by auto
  qed
  from run agg show ?thesis
    unfolding finish_def Let_def
  proof (cases rule: write_back_Ok)
    case 1
    then have w: "write_back NA None ?changed (bc_Update cl) reconciled (\<lambda>_ w. (err_option None, w)) w = (Ok (), w')" by (simp split: if_splits)
    from last [OF w cur(1) name] 1(1) cur(3) show ?thesis by (auto simp: eqF)
  next
    case (2 bd1 w1)
    then have w: "write_back NA None ?changed (bc_Update cl) bd1 (\<lambda>_ w. (err_option None, w)) w1 = (Ok (), w')" by (simp split: if_splits)
    have b1: "objs w1 (bd_Name existing) = Some bd1" "bd_Name bd1 = bd_Name existing" "finalizers_of bd1 = finalizers_of existing"
      "deleted bd1 = deleted existing" "bd_Status bd1 = bd_Status reconciled"
      using api_serverD(2) [OF api 2(2)] name cur(1) by auto
    from last [OF w b1(1,2)] 2(1) b1 cur(3) show ?thesis by auto
  qed
qed

text \<open>C11. The finalizers reach the server only in a request that leaves the status as it was. When a request for a bundle deployment ends well and the reconciliation
  changed the status, then the status is written and the finalizers on the server are those from before, whether the reconciliation put them on or took them off:
  the object that is written next is the server's answer to the write of the status. When the status did not change, the finalizers are written; if the bundle deployment
  is being deleted and none is left, it is gone. The assumptions are the documented behaviour of the API server, that the reconciliation itself writes no bundle deployments, and
  that lists of finalizers are compared by their entries.\<close>

theorem finalizers_written_when_status_settled:
  assumes api: "api_server objs cl" and agg: "aggregate_law NA" and eqF: "\<And>a b. eq_Finalizers E a b \<longleftrightarrow> a = b" and fin: "finalizers_law c"
    and get: "bc_Get cl req w = (Ok bd, w1)" and rec: "reconcile K c \<lparr>rs_bd = bd, rs_watched = W, rs_world = w1\<rparr> = (Ok (), s)"
    and quiet: "objs (rs_world s) = objs w1" and run: "Reconcile NA E K cl c req (W, w) = (Ok (), (W', w'))"
  shows "if \<not> eq_Status E (bd_Status bd) (bd_Status (rs_bd s))
     then \<exists>bd'. objs w' (nn_Name req) = Some bd' \<and> finalizers_of bd' = finalizers_of bd \<and> bd_Status bd' = bd_Status (rs_bd s)
     else if deleted bd \<and> finalizers_of (rs_bd s) = [] then objs w' (nn_Name req) = None
     else \<exists>bd'. objs w' (nn_Name req) = Some bd' \<and> finalizers_of bd' = finalizers_of (rs_bd s) \<and> bd_Status bd' = bd_Status bd"
proof -
  let ?s = "\<lparr>rs_bd = bd, rs_watched = W, rs_world = w1\<rparr>"
  have g: "objs w (nn_Name req) = Some bd" "bd_Name bd = nn_Name req" "objs w1 = objs w" "deleted bd \<longrightarrow> finalizers_of bd \<noteq> []"
    using api_serverD(1) [OF api get] by auto
  have f: "finish NA E cl bd (rs_bd s) None (rs_world s) = (Ok (), w')"
    using run get rec by (auto simp: Reconcile_def split: prod.splits)
  have o: "objs (rs_world s) (bd_Name bd) = Some bd"
    using quiet g by simp
  have core: "bd_core (rs_bd s) = bd_core bd"
    using core_kept.reconciles [of c "bd_core bd" ?s K] fin rec by (simp add: finalizers_law_def) metis
  show ?thesis
    using finish_finalizers [OF api agg eqF f o core g(4)] unfolding g(2) .
qed

text \<open>The finalizers on the object after a reconciliation are those that the registry left there.\<close>

interpretation finalizers_kept: stage_invariant "\<lambda>s. finalizers_of (rs_bd s) = fs" for fs
  by unfold_locales simp_all

lemma reconcile_finalizers:
  assumes "reconcile K c s = (Ok (), s')"
  shows "\<exists>F bd0 bd w1. c_finalizers c = Some F \<and> bd_core bd0 = bd_core (rs_bd s) \<and> finalizers_of bd0 = finalizers_of (rs_bd s) \<and>
     F bd0 (rs_world s) = (Ok (bd, None), w1) \<and> finalizers_of (rs_bd s') = finalizers_of bd"
proof -
  let ?s = "set_status (\<lambda>st. st\<lparr>st_ObservedGeneration := om_Generation (bd_Meta (rs_bd s))\<rparr>) s"
  let ?Q = "\<lambda>x. is_ok (fst x) \<longrightarrow> (\<exists>F bd w1. c_finalizers c = Some F \<and> F (rs_bd ?s) (rs_world s) = (Ok (bd, None), w1) \<and>
     finalizers_of (rs_bd (snd x)) = finalizers_of bd)"
  have "?Q (finalize_stage K c (unpack_stage K c (load_stage K c (deploy_stage K c))) ?s)"
  proof (rule finalize_exits [where Q = ?Q])
    fix F bd s1 assume F: "c_finalizers c = Some F" "on_world (F (rs_bd ?s)) ?s = (Ok (bd, None), s1)"
    then have "F (rs_bd ?s) (rs_world s) = (Ok (bd, None), rs_world s1)" by (auto simp: on_world_iff)
    moreover have "finalizers_of (rs_bd (snd (unpack_stage K c (load_stage K c (deploy_stage K c)) (s1\<lparr>rs_bd := bd\<rparr>)))) = finalizers_of bd"
      by (intro finalizers_kept.stages.unpacks finalizers_kept.stages.loads finalizers_kept.stages.deploys) simp_all
    ultimately show "?Q (unpack_stage K c (load_stage K c (deploy_stage K c)) (s1\<lparr>rs_bd := bd\<rparr>))"
      using F(1) by blast
  qed simp_all
  then obtain F bd w1 where "c_finalizers c = Some F" "F (rs_bd ?s) (rs_world s) = (Ok (bd, None), w1)" "finalizers_of (rs_bd s') = finalizers_of bd"
    using assms unfolding reconcile_def by auto
  then show ?thesis by (intro exI [of _ F] exI [of _ "rs_bd ?s"] exI [of _ bd] exI [of _ w1]) simp
qed

lemma managed_reconcile_finalizers:
  assumes started: "core_main L f = Started (mo, cs) \<or> helm_main L f = Started (mo, cs)" and c: "c \<in> set cs"
    and reg: "finalizer_registry NA (ml_Finalizers L)" and agg: "aggregate_law NA" and run: "reconcile K c s = (Ok (), s')"
  shows "if deleted (rs_bd s)
    then set (finalizers_of (rs_bd s')) = set (finalizers_of (rs_bd s)) - {DeleteCachedBundleKey, CleanupUnpackCacheKey}
    else set (finalizers_of (rs_bd s')) = set (finalizers_of (rs_bd s)) \<union> {DeleteCachedBundleKey, CleanupUnpackCacheKey}"
proof -
  obtain x y where c_fin: "c_finalizers c = Some (ml_Finalizers L [(DeleteCachedBundleKey, x), (CleanupUnpackCacheKey, y)])" (is "_ = Some (_ ?fs)")
    using started_finalizers [OF started c] by metis
  obtain bd0 bd w1 where bd0: "bd_core bd0 = bd_core (rs_bd s)" "finalizers_of bd0 = finalizers_of (rs_bd s)"
    and F: "ml_Finalizers L ?fs bd0 (rs_world s) = (Ok (bd, None), w1)" and fs: "finalizers_of (rs_bd s') = finalizers_of bd"
    using reconcile_finalizers [OF run] c_fin by auto
  obtain ps es where ps: "mset ps = mset ?fs" and fz: "finalize_each ps bd0 (rs_world s) = (Ok (bd, es), w1)" and "NA es = None"
    using F reg unfolding finalizer_registry_def by (metis collected_Ok)
  then have "es = []" using agg by (auto simp: aggregate_law_def)
  have "set ps = set ?fs" using ps mset_eq_setD by blast
  then have keys: "fst ` set ps = {DeleteCachedBundleKey, CleanupUnpackCacheKey}" by auto
  have del: "deleted bd0 = deleted (rs_bd s)" using bd_core_deletion [OF bd0(1)] by simp
  show ?thesis
  proof (cases "deleted (rs_bd s)")
    case True
    then have "deleted bd0" using del by simp
    from finalize_each_deleted [OF fz this] \<open>es = []\<close> True show ?thesis unfolding keys fs bd0(2) by auto
  next
    case False
    then have "\<not> deleted bd0" using del by simp
    from finalize_each_live [OF this, of ps "rs_world s"] fz False show ?thesis unfolding keys fs bd0(2) by auto
  qed
qed

text \<open>C13. The stored bundle outlives its bundle deployment: \<open>reconcile\<close> goes on after the finalizers. When a controller of a started manager reconciles a bundle
  deployment that is being deleted, without error and with the bundle unpacked, then the finalizers of the manager are off the
  object, so that the manager does not hold the deletion back, and the archive of the bundle is in the manager's storage all the same.\<close>

theorem deleted_bundle_stored_again:
  assumes started: "core_main L f = Started (mo, cs) \<or> helm_main L f = Started (mo, cs)" and c: "c \<in> set cs"
    and lens: "lens_law (ml_disk L)" and reg: "finalizer_registry NA (ml_Finalizers L)" and agg: "aggregate_law NA"
    and sc: "condition_setter (k_setSC K)" and keep: "deployment_keeps (ln_get (ml_disk L)) K c"
    and del: "deleted (rs_bd s)" and run: "reconcile K c s = (Ok (), s')" "unpacked_status (bd_Status (rs_bd s'))"
  shows "set (finalizers_of (rs_bd s')) \<inter> {DeleteCachedBundleKey, CleanupUnpackCacheKey} = {} \<and>
    (\<exists>es. disk_Files (ln_get (ml_disk L) (rs_world s')) (bundlePath (mo_Bundles mo) (bd_Name (rs_bd s))) = Some (TarGz es))"
proof -
  have fin: "finalizers_law c" by (rule registry_finalizers_law [OF started c reg])
  obtain cfg CAs where sto: "c_storage c = Some (new_bundle_storage L cfg (mo_Bundles mo) CAs)"
    using started_storage [OF started c] .
  obtain b bd d where "bd_core bd = bd_core (rs_bd s)"
    "LocalDirectory_Store (ml_depth L) (mo_Bundles mo) d bd b = (Ok (), ln_get (ml_disk L) (rs_world s'))"
    using reconcile_stored [OF lens sc fin sto keep, of s] run by (auto simp: archive_kept_def)
  then have "\<exists>es. disk_Files (ln_get (ml_disk L) (rs_world s')) (bundlePath (mo_Bundles mo) (bd_Name (rs_bd s))) = Some (TarGz es)"
    using bd_core_name [of bd "rs_bd s"] by (auto simp: Store_Ok)
  then show ?thesis
    using managed_reconcile_finalizers [OF started c reg agg run(1)] del by auto
qed

text \<open>C12. A request that ends well and leaves the status as it was settles the finalizers. The request is handled by a controller of a started manager. If the bundle deployment is being
  deleted and has no finalizers but the two of the manager, then it is gone from the server; if it has others, it keeps exactly those; if it is not being deleted, then both
  finalizers are on it afterwards, beside those it had. So nothing but a changing status keeps the manager from letting a deleted bundle deployment go.\<close>

theorem settled_request_settles_finalizers:
  assumes started: "core_main L f = Started (mo, cs) \<or> helm_main L f = Started (mo, cs)" and c: "c \<in> set cs"
    and reg: "finalizer_registry NA (ml_Finalizers L)" and agg: "aggregate_law NA" and api: "api_server objs cl"
    and eqF: "\<And>a b. eq_Finalizers E a b \<longleftrightarrow> a = b" and get: "bc_Get cl req w = (Ok bd, w1)" and rec: "reconcile K c \<lparr>rs_bd = bd, rs_watched = W, rs_world = w1\<rparr> = (Ok (), s)"
    and quiet: "objs (rs_world s) = objs w1" and settled: "eq_Status E (bd_Status bd) (bd_Status (rs_bd s))"
    and run: "Reconcile NA E K cl c req (W, w) = (Ok (), (W', w'))"
  shows "if deleted bd
    then if set (finalizers_of bd) \<subseteq> {DeleteCachedBundleKey, CleanupUnpackCacheKey} then objs w' (nn_Name req) = None
         else \<exists>bd'. objs w' (nn_Name req) = Some bd' \<and>
           set (finalizers_of bd') = set (finalizers_of bd) - {DeleteCachedBundleKey, CleanupUnpackCacheKey}
    else \<exists>bd'. objs w' (nn_Name req) = Some bd' \<and>
           set (finalizers_of bd') = set (finalizers_of bd) \<union> {DeleteCachedBundleKey, CleanupUnpackCacheKey}"
proof -
  let ?s = "\<lparr>rs_bd = bd, rs_watched = W, rs_world = w1\<rparr>"
  have fin: "finalizers_law c" by (rule registry_finalizers_law [OF started c reg])
  have g: "objs w (nn_Name req) = Some bd" "bd_Name bd = nn_Name req" "objs w1 = objs w" "deleted bd \<longrightarrow> finalizers_of bd \<noteq> []"
    using api_serverD(1) [OF api get] by auto
  have f: "finish NA E cl bd (rs_bd s) None (rs_world s) = (Ok (), w')"
    using run get rec by (auto simp: Reconcile_def split: prod.splits)
  have o: "objs (rs_world s) (bd_Name bd) = Some bd"
    using quiet g by simp
  have core: "bd_core (rs_bd s) = bd_core bd"
    using core_kept.reconciles [of c "bd_core bd" ?s K] fin rec by (simp add: finalizers_law_def) metis
  have written: "if deleted bd \<and> finalizers_of (rs_bd s) = [] then objs w' (nn_Name req) = None
     else \<exists>bd'. objs w' (nn_Name req) = Some bd' \<and> finalizers_of bd' = finalizers_of (rs_bd s)"
    using finish_finalizers [OF api agg eqF f o core g(4)] settled unfolding g(2) by (simp split: if_splits) blast+
  have fs: "if deleted bd
    then set (finalizers_of (rs_bd s)) = set (finalizers_of bd) - {DeleteCachedBundleKey, CleanupUnpackCacheKey}
    else set (finalizers_of (rs_bd s)) = set (finalizers_of bd) \<union> {DeleteCachedBundleKey, CleanupUnpackCacheKey}"
    using managed_reconcile_finalizers [OF started c reg agg rec] by simp
  show ?thesis
  proof (cases "deleted bd")
    case True
    then have set: "set (finalizers_of (rs_bd s)) = set (finalizers_of bd) - {DeleteCachedBundleKey, CleanupUnpackCacheKey}" using fs by simp
    then have none: "finalizers_of (rs_bd s) = [] \<longleftrightarrow> set (finalizers_of bd) \<subseteq> {DeleteCachedBundleKey, CleanupUnpackCacheKey}"
      by (metis Diff_eq_empty_iff set_empty)
    show ?thesis
    proof (cases "finalizers_of (rs_bd s) = []")
      case True
      then show ?thesis using written none \<open>deleted bd\<close> by simp
    next
      case False
      then obtain bd' where "objs w' (nn_Name req) = Some bd'" "finalizers_of bd' = finalizers_of (rs_bd s)" using written by auto
      then show ?thesis using set none False \<open>deleted bd\<close> by simp
    qed
  next
    case False
    then obtain bd' where "objs w' (nn_Name req) = Some bd'" "finalizers_of bd' = finalizers_of (rs_bd s)" using written by auto
    then show ?thesis using fs False by simp
  qed
qed

text \<open>A server and a controller whose bundles never get unpacked.\<close>

definition demo_api :: "(string \<rightharpoonup> BundleDeployment) bd_client" where
  "demo_api = \<lparr>
     bc_Get = (\<lambda>k w. case w (nn_Name k) of
        Some bd \<Rightarrow> if bd_Name bd = nn_Name k \<and> (deleted bd \<longrightarrow> finalizers_of bd \<noteq> []) then (Ok bd, w) else (Err (Msg ''corrupt''), w)
      | None \<Rightarrow> (Err (Msg ''not found''), w)),
     bc_StatusUpdate = (\<lambda>bd w. case w (bd_Name bd) of
        Some cur \<Rightarrow> if bd_Name cur = bd_Name bd then (Ok (cur\<lparr>bd_Status := bd_Status bd\<rparr>), w(bd_Name bd \<mapsto> cur\<lparr>bd_Status := bd_Status bd\<rparr>)) else (Err (Msg ''corrupt''), w)
      | None \<Rightarrow> (Err (Msg ''not found''), w)),
     bc_Update = (\<lambda>bd w. case w (bd_Name bd) of
        Some cur \<Rightarrow> (Ok (bd\<lparr>bd_Status := bd_Status cur\<rparr>),
          w(bd_Name bd := if deleted cur \<and> finalizers_of bd = [] then None else Some (bd\<lparr>bd_Status := bd_Status cur\<rparr>)))
      | None \<Rightarrow> (Err (Msg ''not found''), w))\<rparr>"

lemma demo_api_server: "api_server id demo_api"
  unfolding api_server_def by (auto simp: demo_api_def split: option.splits if_splits)

definition pending_controller :: "(string \<rightharpoonup> BundleDeployment) controller" where
  "pending_controller = empty_controller\<lparr>
     c_finalizers := Some (\<lambda>bd w. collected plain_aggregate (finalize_each [(DeleteCachedBundleKey, \<lambda>_ w. (Ok (), w))] bd w)),
     c_unpacker := Some \<lparr>up_Unpack = (\<lambda>_ w. (Ok \<lparr>res_Bundle = None, res_ResolvedSource = None, res_State = StatePending, res_Message = ''wait''\<rparr>, w)),
       up_Cleanup = (\<lambda>_ w. (Ok (), w))\<rparr>\<rparr>"

lemma pending_quiet: "rs_world (snd (reconcile demo_plain_libs pending_controller s)) = rs_world s"
  by (simp add: reconcile_unfold pending_controller_def empty_controller_def collected_def plain_aggregate_def set_status_def StatePending_def)

lemma pending_run:
  "\<exists>s w'. reconcile demo_plain_libs pending_controller \<lparr>rs_bd = demo_http_bd, rs_watched = {}, rs_world = [''b'' \<mapsto> demo_http_bd]\<rparr> = (Ok (), s) \<and>
     finalizers_of (rs_bd s) = [DeleteCachedBundleKey] \<and> bd_Status demo_http_bd \<noteq> bd_Status (rs_bd s) \<and>
     Reconcile plain_aggregate plain_semantic demo_plain_libs demo_api pending_controller \<lparr>nn_Namespace = [], nn_Name = ''b''\<rparr> ({}, [''b'' \<mapsto> demo_http_bd]) = (Ok (), ({}, w'))"
proof -
  let ?s = "\<lparr>rs_bd = demo_http_bd, rs_watched = {}, rs_world = [''b'' \<mapsto> demo_http_bd]\<rparr>"
  obtain s where s: "reconcile demo_plain_libs pending_controller ?s = (Ok (), s)" "finalizers_of (rs_bd s) = [DeleteCachedBundleKey]"
    "bd_Status (rs_bd s) = updateStatusUnpackPending (upsert_condition 1) empty_status ''wait''" "bd_core (rs_bd s) = bd_core demo_http_bd"
    "rs_watched s = {}" "rs_world s = [''b'' \<mapsto> demo_http_bd]"
    by (simp add: reconcile_unfold pending_controller_def empty_controller_def collected_def plain_aggregate_def set_status_def StatePending_def
        demo_http_bd_def mk_bd_def empty_meta_def demo_plain_libs_def set_finalizers_def empty_status_def bd_core_def)
  have status: "bd_Status demo_http_bd \<noteq> bd_Status (rs_bd s)"
    unfolding s(3) by (simp add: demo_http_bd_def mk_bd_def empty_status_def status_writers set_cond_def)
  have name: "bd_Name (rs_bd s) = ''b''" "bd_Name demo_http_bd = ''b''" "\<not> deleted demo_http_bd" "finalizers_of demo_http_bd = []"
    using bd_core_name [OF s(4)] by (simp_all add: demo_http_bd_def mk_bd_def empty_meta_def)
  have "\<exists>w'. Reconcile plain_aggregate plain_semantic demo_plain_libs demo_api pending_controller \<lparr>nn_Namespace = [], nn_Name = ''b''\<rparr> ({}, [''b'' \<mapsto> demo_http_bd]) = (Ok (), ({}, w'))"
    using s status name
    by (simp add: Reconcile_def demo_api_def finish_def write_back_def plain_semantic_def checkForUnexpectedFieldChange_def err_option_def)
  with s status show ?thesis by blast
qed

theorem finalizers_written_when_status_settled_witness:
  "\<exists>s w'. reconcile demo_plain_libs pending_controller \<lparr>rs_bd = demo_http_bd, rs_watched = {}, rs_world = [''b'' \<mapsto> demo_http_bd]\<rparr> = (Ok (), s) \<and>
     Reconcile plain_aggregate plain_semantic demo_plain_libs demo_api pending_controller \<lparr>nn_Namespace = [], nn_Name = ''b''\<rparr> ({}, [''b'' \<mapsto> demo_http_bd]) = (Ok (), ({}, w')) \<and>
     finalizers_of (rs_bd s) = [DeleteCachedBundleKey] \<and>
     (\<exists>bd'. w' ''b'' = Some bd' \<and> finalizers_of bd' = [] \<and> bd_Status bd' = bd_Status (rs_bd s))"
proof -
  let ?req = "\<lparr>nn_Namespace = [], nn_Name = ''b''\<rparr>" and ?w = "[''b'' \<mapsto> demo_http_bd]"
  obtain s w' where run: "reconcile demo_plain_libs pending_controller \<lparr>rs_bd = demo_http_bd, rs_watched = {}, rs_world = ?w\<rparr> = (Ok (), s)"
      "Reconcile plain_aggregate plain_semantic demo_plain_libs demo_api pending_controller ?req ({}, ?w) = (Ok (), ({}, w'))"
    and s: "finalizers_of (rs_bd s) = [DeleteCachedBundleKey]" "bd_Status demo_http_bd \<noteq> bd_Status (rs_bd s)"
    using pending_run by blast
  have get: "bc_Get demo_api ?req ?w = (Ok demo_http_bd, ?w)"
    by (simp add: demo_api_def demo_http_bd_def mk_bd_def empty_meta_def)
  have "finalizers_law pending_controller"
    by (auto simp: finalizers_law_def pending_controller_def collected_Ok split: if_splits)
  from finalizers_written_when_status_settled [OF demo_api_server plain_aggregate_law _ this get run(1) _ run(2)]
  have "\<exists>bd'. id w' ''b'' = Some bd' \<and> finalizers_of bd' = finalizers_of demo_http_bd \<and> bd_Status bd' = bd_Status (rs_bd s)"
    using s(2) pending_quiet [of "\<lparr>rs_bd = demo_http_bd, rs_watched = {}, rs_world = ?w\<rparr>"] run(1) by (simp add: plain_semantic_def)
  moreover have "finalizers_of demo_http_bd = []" by (simp add: demo_http_bd_def mk_bd_def empty_meta_def)
  ultimately show ?thesis using run s by (intro exI [of _ s] exI [of _ w']) simp
qed

section \<open>A manager with its registry\<close>

definition demo_finalizers :: "demo_world registered \<Rightarrow> demo_world finalizers" where
  "demo_finalizers fs bd w = collected plain_aggregate (finalize_each fs bd w)"

lemma demo_finalizer_registry: "finalizer_registry plain_aggregate demo_finalizers"
  unfolding finalizer_registry_def demo_finalizers_def by blast

definition demo_deleted_bd :: BundleDeployment where
  "demo_deleted_bd = set_finalizers [DeleteCachedBundleKey, CleanupUnpackCacheKey]
     (demo_http_bd\<lparr>bd_Meta := (bd_Meta demo_http_bd)\<lparr>om_DeletionTimestamp := Some 5\<rparr>\<rparr>)"

lemma demo_deleted_fields [simp]:
  "bd_Spec demo_deleted_bd = bd_Spec demo_http_bd" "deleted demo_deleted_bd"
  "finalizers_of demo_deleted_bd = [DeleteCachedBundleKey, CleanupUnpackCacheKey]" "om_Generation (bd_Meta demo_deleted_bd) = 0"
  by (simp_all add: demo_deleted_bd_def) (simp add: set_finalizers_def demo_http_bd_def mk_bd_def empty_meta_def)

lemma demo_cleanup:
  "bd_Spec bd = bd_Spec demo_http_bd \<Longrightarrow> up_Cleanup (projr (default_unpacker demo_manager ns dir)) bd w = (Ok (), w)"
  by (simp add: default_unpacker_def Let_def through_def demo_manager_def NewDefaultUnpacker_def default_sources_def NewUnpacker_def
      unpacker_Cleanup_def demo_http_bd_def mk_bd_def empty_source_def no_cleanup_def)

lemma demo_delete:
  assumes "storage_of demo_manager default_flags mo ident sto"
  shows "bs_Delete sto bd (demo_world_with objs) = (Ok (), demo_world_with objs)"
  using assms by (auto simp: storage_of_def new_bundle_storage_def WithFallbackLoader_def local_store_def Let_def through_def demo_manager_def
      demo_world_with_def LocalDirectory_Delete_def os_Remove_def empty_disk_def ignoreNotExist_def go_simps)

lemma demo_finalized:
  assumes "storage_of demo_manager default_flags mo ident sto" and "deleted bd" and "bd_Spec bd = bd_Spec demo_http_bd"
    and "finalizers_of bd = [DeleteCachedBundleKey, CleanupUnpackCacheKey]"
  shows "demo_finalizers (demo_registered sto) bd (demo_world_with objs)
    = (Ok (set_finalizers [] (set_finalizers [CleanupUnpackCacheKey] bd), None), demo_world_with objs)"
  using assms by (simp add: demo_registered_def demo_finalizers_def DeleteCachedBundle_Finalize_def CleanupUnpackCache_Finalize_def demo_delete demo_cleanup
      collected_def plain_aggregate_def)

lemma demo_registry_manager_started: "\<exists>mo c cs. core_main (with_registry demo_finalizers) default_flags = Started (mo, c # cs)"
  by (simp add: default_flags_def core_main_def mains demo_manager_def or_exit_def check_exit_def outcome_exit_def
      root_CAs_def SetupWithManager_def validateConfig_def config_errors_def options default_unpacker_def plain_aggregate_def provisionerIDs)

lemma demo_manager_namespace: "system_namespace (with_registry reg) f = system_namespace demo_manager f"
  by (simp add: system_namespace_def)

lemma demo_deployment_keeps:
  assumes "core_main (with_registry reg) default_flags = Started (mo, c # cs)"
  shows "deployment_keeps (ln_get (ml_disk (with_registry reg))) demo_plain_libs c"
  using assms
  by (elim core_main_Started)
     (auto simp: deployment_keeps_def managed_def Let_def keeps_def client_keeps_def demo_plain_libs_def crd_check_def demo_manager_def fresh_client_def)

lemma demo_live_finalized:
  assumes "\<not> deleted bd"
  shows "demo_finalizers (demo_registered sto) bd w = (Ok (set_finalizers (List.insert CleanupUnpackCacheKey (List.insert DeleteCachedBundleKey (finalizers_of bd)))
    (set_finalizers (List.insert DeleteCachedBundleKey (finalizers_of bd)) bd), None), w)"
  using assms by (simp add: demo_registered_def demo_finalizers_def collected_def plain_aggregate_def)

lemma demo_reconciled:
  assumes started: "core_main (with_registry demo_finalizers) default_flags = Started (mo, c # cs)" and bd: "bd = demo_http_bd \<or> bd = demo_deleted_bd"
  obtains s' where "reconcile demo_plain_libs c \<lparr>rs_bd = bd, rs_watched = {}, rs_world = demo_http_world\<rparr> = (Ok (), s')"
    "unpacked_status (bd_Status (rs_bd s'))"
proof -
  let ?bd = "bd\<lparr>bd_Status := (bd_Status bd)\<lparr>st_ObservedGeneration := om_Generation (bd_Meta bd)\<rparr>\<rparr>"
  have "\<exists>b'. bd_Spec b' = bd_Spec demo_http_bd \<and> (\<forall>sto. storage_of demo_manager default_flags mo ''core.rukpak.io'' sto \<longrightarrow>
      demo_finalizers (demo_registered sto) ?bd demo_http_world = (Ok (b', None), demo_http_world))"
  proof (cases "bd = demo_deleted_bd")
    case True
    then have "deleted ?bd" "bd_Spec ?bd = bd_Spec demo_http_bd" "finalizers_of ?bd = [DeleteCachedBundleKey, CleanupUnpackCacheKey]" by simp_all
    from demo_finalized [OF _ this] this(2) show ?thesis by (metis set_finalizers_fields(4))
  next
    case False
    with bd have live: "\<not> deleted ?bd" and spec: "bd_Spec ?bd = bd_Spec demo_http_bd"
      by (simp_all add: demo_http_bd_def mk_bd_def empty_meta_def)
    from demo_live_finalized [OF live] spec show ?thesis by (metis set_finalizers_fields(4))
  qed
  then obtain b' where spec: "bd_Spec b' = bd_Spec demo_http_bd"
    and fin: "\<And>sto. storage_of demo_manager default_flags mo ''core.rukpak.io'' sto \<Longrightarrow>
      demo_finalizers (demo_registered sto) ?bd demo_http_world = (Ok (b', None), demo_http_world)" by blast
  from demo_reconciled_with [OF started fin spec] show thesis using that by (fastforce simp: demo_status_unpacked)
qed

theorem content_url_serves_bundle_witness:
  "\<exists>mo c cs s' file. core_main (with_registry demo_finalizers) default_flags = Started (mo, c # cs) \<and>
     reconcile demo_plain_libs c \<lparr>rs_bd = demo_http_bd, rs_watched = {}, rs_world = demo_http_world\<rparr> = (Ok (), s') \<and>
     st_ContentURL (bd_Status (rs_bd s')) = ''http://localhost:8080/bundles/'' @ file \<and>
     LocalDirectory_ServeHTTP (\<lambda>b. case b of Bytes x \<Rightarrow> x | TarGz _ \<Rightarrow> ''gz'') {} (mo_Bundles mo) (fst (rs_world s')) (''/bundles/'' @ file) = Served ''gz''"
proof -
  obtain mo c cs where started: "core_main (with_registry demo_finalizers) default_flags = Started (mo, c # cs)"
    using demo_registry_manager_started by blast
  obtain s' where run: "reconcile demo_plain_libs c \<lparr>rs_bd = demo_http_bd, rs_watched = {}, rs_world = demo_http_world\<rparr> = (Ok (), s')"
    "unpacked_status (bd_Status (rs_bd s'))"
    using demo_reconciled [OF started disjI1 [OF refl]] .
  have mo: "ld_URL (mo_Bundles mo) = \<lparr>url_String = ''http://localhost:8080/bundles/'', url_Path = ''/bundles/''\<rparr>"
    using started by (elim core_main_Started) (auto simp: storage_of_def new_manager_options_def new_local_storage_def demo_manager_def default_flags_def)
  have lens: "lens_law (ml_disk (with_registry demo_finalizers))" by (simp add: lens_law_def demo_manager_def)
  have sc: "condition_setter (k_setSC demo_plain_libs)" by (simp add: demo_plain_libs_def upsert_condition_setter)
  have fin: "finalizers_law c"
    by (rule registry_finalizers_law [OF disjI1 [OF started] list.set_intros(1), where NA = plain_aggregate]) (simp add: demo_finalizer_registry)
  have name: "owner_name (bd_Name (rs_bd \<lparr>rs_bd = demo_http_bd, rs_watched = {}, rs_world = demo_http_world\<rparr>))"
    by (simp add: demo_http_bd_def mk_bd_def empty_meta_def owner_name_def)
  show ?thesis
    using started run(1) mo content_url_serves_bundle [OF disjI1 [OF started] list.set_intros(1) lens sc fin demo_deployment_keeps [OF started] run name,
        of "{}" "\<lambda>b. case b of Bytes x \<Rightarrow> x | TarGz _ \<Rightarrow> ''gz''"]
    by (auto simp: demo_manager_def)
qed

theorem finalizers_guard_archive_witness:
  "\<exists>mo c cs F bd'. core_main (with_registry demo_finalizers) default_flags = Started (mo, c # cs) \<and> c_finalizers c = Some F \<and>
     F demo_deleted_bd demo_http_world = (Ok (bd', None), demo_http_world) \<and>
     disk_Files (fst demo_http_world) (bundlePath (mo_Bundles mo) (bd_Name demo_deleted_bd)) = None \<and>
     set (finalizers_of bd') \<inter> {DeleteCachedBundleKey, CleanupUnpackCacheKey} = {}"
proof -
  obtain mo c cs where started: "core_main (with_registry demo_finalizers) default_flags = Started (mo, c # cs)"
    using demo_registry_manager_started by blast
  then obtain F bd' where F: "c_finalizers c = Some F" "F demo_deleted_bd demo_http_world = (Ok (bd', None), demo_http_world)"
    by (elim core_main_Started) (auto simp: managed_def Let_def with_registry_storage with_registry_unpacker demo_manager_namespace
        demo_finalized [unfolded demo_registered_def])
  have apart: "disk_apart (with_registry demo_finalizers)" by (simp add: disk_apart_def lens_law_def demo_manager_def)
  have reg: "finalizer_registry plain_aggregate (ml_Finalizers (with_registry demo_finalizers))" by (simp add: demo_finalizer_registry)
  show ?thesis
    using started F finalizers_guard_archive [OF disjI1 [OF started] list.set_intros(1) apart reg plain_aggregate_law F]
    by (simp add: demo_manager_def)
qed

theorem deleted_bundle_stored_again_witness:
  "\<exists>mo c cs s' es. core_main (with_registry demo_finalizers) default_flags = Started (mo, c # cs) \<and>
     reconcile demo_plain_libs c \<lparr>rs_bd = demo_deleted_bd, rs_watched = {}, rs_world = demo_http_world\<rparr> = (Ok (), s') \<and>
     set (finalizers_of (rs_bd s')) \<inter> {DeleteCachedBundleKey, CleanupUnpackCacheKey} = {} \<and>
     disk_Files (fst (rs_world s')) (bundlePath (mo_Bundles mo) (bd_Name demo_deleted_bd)) = Some (TarGz es)"
proof -
  obtain mo c cs where started: "core_main (with_registry demo_finalizers) default_flags = Started (mo, c # cs)"
    using demo_registry_manager_started by blast
  obtain s' where run: "reconcile demo_plain_libs c \<lparr>rs_bd = demo_deleted_bd, rs_watched = {}, rs_world = demo_http_world\<rparr> = (Ok (), s')"
    "unpacked_status (bd_Status (rs_bd s'))"
    using demo_reconciled [OF started disjI2 [OF refl]] .
  have lens: "lens_law (ml_disk (with_registry demo_finalizers))" by (simp add: lens_law_def demo_manager_def)
  have reg: "finalizer_registry plain_aggregate (ml_Finalizers (with_registry demo_finalizers))" by (simp add: demo_finalizer_registry)
  have sc: "condition_setter (k_setSC demo_plain_libs)" by (simp add: demo_plain_libs_def upsert_condition_setter)
  have del: "deleted (rs_bd \<lparr>rs_bd = demo_deleted_bd, rs_watched = {}, rs_world = demo_http_world\<rparr>)" by simp
  show ?thesis
    using started run(1) deleted_bundle_stored_again [OF disjI1 [OF started] list.set_intros(1) lens reg plain_aggregate_law sc
        demo_deployment_keeps [OF started] del run]
    by (auto simp: demo_manager_def)
qed

text \<open>The server of the small manager's world, and a bundle deployment that is being deleted, with the status it has after a
  reconciliation.\<close>

definition lifted :: "((string \<rightharpoonup> BundleDeployment), 'a) M \<Rightarrow> (demo_world, 'a) M" where
  "lifted m w = (case m (snd (snd w)) of (r, objs) \<Rightarrow> (r, (fst w, fst (snd w), objs)))"

definition demo_world_api :: "demo_world bd_client" where
  "demo_world_api = \<lparr>bc_Get = (\<lambda>k. lifted (bc_Get demo_api k)), bc_StatusUpdate = (\<lambda>bd. lifted (bc_StatusUpdate demo_api bd)),
     bc_Update = (\<lambda>bd. lifted (bc_Update demo_api bd))\<rparr>"

lemma lifted_Ok: "lifted m w = (Ok x, w') \<longleftrightarrow> (\<exists>objs. m (snd (snd w)) = (Ok x, objs) \<and> w' = (fst w, fst (snd w), objs))"
  by (auto simp: lifted_def split: prod.splits)

lemma demo_world_api_server: "api_server (\<lambda>w. snd (snd w)) demo_world_api"
  unfolding api_server_def
proof (intro conjI allI impI, goal_cases)
  case (5 bd w bd' w')
  then show ?case using api_serverD(2) [OF demo_api_server, of bd "snd (snd w)" bd'] by (fastforce simp: demo_world_api_def lifted_Ok)
next
  case (6 bd w bd' w')
  then show ?case using api_serverD(3) [OF demo_api_server, of bd "snd (snd w)" bd'] by (fastforce simp: demo_world_api_def lifted_Ok)
qed (use api_serverD(1) [OF demo_api_server] in \<open>fastforce simp: demo_world_api_def lifted_Ok\<close>)+

definition demo_leaving_bd :: "LocalDirectory \<Rightarrow> BundleDeployment" where
  "demo_leaving_bd dir = demo_deleted_bd\<lparr>bd_Status := demo_status dir ''b'' empty_status\<rparr>"

lemma demo_leaving_fields [simp]:
  "bd_Name (demo_leaving_bd dir) = ''b''" "bd_Spec (demo_leaving_bd dir) = bd_Spec demo_http_bd" "deleted (demo_leaving_bd dir)"
  "finalizers_of (demo_leaving_bd dir) = [DeleteCachedBundleKey, CleanupUnpackCacheKey]"
  "bd_Status (demo_leaving_bd dir) = demo_status dir ''b'' empty_status" "om_Generation (bd_Meta (demo_leaving_bd dir)) = 0"
  by (simp_all add: demo_leaving_bd_def demo_deleted_bd_def set_finalizers_def demo_http_bd_def mk_bd_def empty_meta_def)

lemma demo_leaving_run:
  assumes started: "core_main (with_registry demo_finalizers) default_flags = Started (mo, c # cs)"
  shows "\<exists>s. reconcile demo_plain_libs c \<lparr>rs_bd = demo_leaving_bd (mo_Bundles mo), rs_watched = W, rs_world = demo_world_with objs\<rparr> = (Ok (), s) \<and>
     bd_Status (rs_bd s) = bd_Status (demo_leaving_bd (mo_Bundles mo)) \<and> snd (snd (rs_world s)) = objs \<and>
     bd_core (rs_bd s) = bd_core (demo_leaving_bd (mo_Bundles mo)) \<and> finalizers_of (rs_bd s) = []"
proof -
  let ?bd = "demo_leaving_bd (mo_Bundles mo)"
  have same: "?bd\<lparr>bd_Status := (bd_Status ?bd)\<lparr>st_ObservedGeneration := om_Generation (bd_Meta ?bd)\<rparr>\<rparr> = ?bd"
    using demo_status_generation [of "mo_Bundles mo" "''b''" empty_status]
    by (cases "demo_status (mo_Bundles mo) ''b'' empty_status") (simp add: demo_leaving_bd_def empty_status_def)
  let ?bd' = "set_finalizers [] (set_finalizers [CleanupUnpackCacheKey] ?bd)"
  have fin: "demo_finalizers (demo_registered sto) (?bd\<lparr>bd_Status := (bd_Status ?bd)\<lparr>st_ObservedGeneration := om_Generation (bd_Meta ?bd)\<rparr>\<rparr>) (demo_world_with objs)
      = (Ok (?bd', None), demo_world_with objs)" if "storage_of demo_manager default_flags mo ''core.rukpak.io'' sto" for sto
    unfolding same by (rule demo_finalized [OF that]) simp_all
  have name: "bd_Name ?bd' = ''b''" and status: "bd_Status ?bd' = demo_status (mo_Bundles mo) ''b'' empty_status"
    by (simp_all add: set_finalizers_def)
  have spec: "bd_Spec ?bd' = bd_Spec demo_http_bd" by simp
  from demo_reconciled_with [OF started fin spec, of W] show ?thesis
    unfolding name status demo_status_settled by (auto simp: demo_world_with_def bd_core_def set_finalizers_def)
qed

theorem settled_request_settles_finalizers_witness:
  "\<exists>mo c cs W' w'. core_main (with_registry demo_finalizers) default_flags = Started (mo, c # cs) \<and>
     Reconcile plain_aggregate plain_semantic demo_plain_libs demo_world_api c \<lparr>nn_Namespace = [], nn_Name = ''b''\<rparr>
       ({}, demo_world_with [''b'' \<mapsto> demo_leaving_bd (mo_Bundles mo)]) = (Ok (), (W', w')) \<and> snd (snd w') ''b'' = None"
proof -
  let ?req = "\<lparr>nn_Namespace = [], nn_Name = ''b''\<rparr>"
  obtain mo c cs where started: "core_main (with_registry demo_finalizers) default_flags = Started (mo, c # cs)"
    using demo_registry_manager_started by blast
  let ?bd = "demo_leaving_bd (mo_Bundles mo)" and ?w = "demo_world_with [''b'' \<mapsto> demo_leaving_bd (mo_Bundles mo)]"
  have get: "bc_Get demo_world_api ?req ?w = (Ok ?bd, ?w)"
    by (simp add: demo_world_api_def lifted_def demo_api_def demo_world_with_def)
  obtain s where rec: "reconcile demo_plain_libs c \<lparr>rs_bd = ?bd, rs_watched = {}, rs_world = ?w\<rparr> = (Ok (), s)"
    and s: "bd_Status (rs_bd s) = bd_Status ?bd" "snd (snd (rs_world s)) = [''b'' \<mapsto> ?bd]" "bd_core (rs_bd s) = bd_core ?bd" "finalizers_of (rs_bd s) = []"
    using demo_leaving_run [OF started] by blast
  have name: "bd_Name (rs_bd s) = ''b''" using bd_core_name [OF s(3)] by simp
  obtain bd' w2 where update: "bc_Update demo_world_api (rs_bd s) (rs_world s) = (Ok bd', w2)"
    using s(2) name by (simp add: demo_world_api_def lifted_def demo_api_def)
  obtain W' w' where run: "Reconcile plain_aggregate plain_semantic demo_plain_libs demo_world_api c ?req ({}, ?w) = (Ok (), (W', w'))"
    using s by (simp add: Reconcile_def get rec update finish_def write_back_def plain_semantic_def checkForUnexpectedFieldChange_def err_option_def)
  have reg: "finalizer_registry plain_aggregate (ml_Finalizers (with_registry demo_finalizers))" by (simp add: demo_finalizer_registry)
  have "snd (snd w') ''b'' = None"
    using settled_request_settles_finalizers [OF disjI1 [OF started] list.set_intros(1) reg plain_aggregate_law demo_world_api_server _ get rec _ _ run] s(1,2)
    by (simp add: plain_semantic_def demo_world_with_def)
  with started run show ?thesis by blast
qed

end
