(* ===== verification/Request_Safety.thy ===== *)
theory Request_Safety
  imports Bundle_Lifecycle
begin

text \<open>
  The requests of a started manager never panic: what the controller relies on (\<open>Controller_Props\<close>) is shown for the manager's own unpacker, storage, finalizers,
  handlers and preflights, and is asked of the libraries and, where the code needs it, of the bundle deployment.
\<close>

section \<open>Outcomes of the parts\<close>

lemma ends_obind: "ends d m \<Longrightarrow> (\<And>x. m = Ok x \<Longrightarrow> ends d (f x)) \<Longrightarrow> ends d (obind m f)"
  by (cases m) simp_all

lemma ends_omap: "(\<And>x. x \<in> set xs \<Longrightarrow> ends d (f x)) \<Longrightarrow> ends d (omap f xs)"
  by (induction xs) (auto intro!: ends_obind)

lemma ends_lift_result [simp]: "ends d (lift_result r)"
  by (cases r) simp_all

lemma ends_prefix_error [simp]: "ends d (prefix_error msg r) \<longleftrightarrow> ends d r"
  by (cases r) (simp_all add: prefix_error_def)

lemma ends_True: "ends True r \<longleftrightarrow> (\<forall>p. r \<noteq> Panic p)"
  by (cases r) simp_all

text \<open>What is documented of the resource builder: the objects it gives are of the unstructured type, which is a client object.\<close>

definition typed :: "gerror option \<times> kobject option list result \<Rightarrow> bool" where
  "typed r \<longleftrightarrow> (case r of (None, Inr infos) \<Rightarrow> list_all (\<lambda>info. info \<noteq> None) infos | _ \<Rightarrow> True)"

lemma ManifestObjects_ends:
  assumes "typed (builder r n)"
  shows "ends d (ManifestObjects builder r n)"
  using assms unfolding ManifestObjects_def infosToObjects_def typed_def
  by (auto simp: list_all_iff split: prod.splits option.splits sum.splits intro!: ends_omap)

lemma plain_ends:
  assumes "\<And>data n. typed (builder data n)"
  shows "ends d (plain_HandleBundleDeployment Marshal sha256 builder fsys bd)"
proof -
  have "ends d (getBundleObjects builder fsys)"
    by (auto simp: getBundleObjects_def getObjects_def Let_def split: sum.split intro!: ends_obind ends_omap ManifestObjects_ends assms)
  then show ?thesis
    by (auto simp: plain_HandleBundleDeployment_def ValidateBundle_def chartFromBundle_def object_template_def split: sum.split intro!: ends_obind ends_omap)
qed

lemma generateName_ends:
  assumes "digest_law sha224"
  shows "ends d (generateName Encode sha224 base obj)"
proof -
  have "length (digits_in 36 (bytes_number (sha224 x))) \<le> 44" for x
    using DeepHashObject_label_safe [OF assms, of Inr x x x x] by (auto simp: DeepHashObject_def)
  then have "length h \<le> 44" if "DeepHashObject Encode sha224 obj = Ok h" for h
    using that by (auto simp: DeepHashObject_def split: sum.splits)
  then show ?thesis
    by (auto simp: generateName_def slice_to_def maxNameLength_def intro!: ends_obind) (auto simp: DeepHashObject_def split: sum.split)
qed

lemma Convert_ends:
  assumes "digest_law sha224"
  shows "ends d (Convert iter IsSupported Encode sha224 reg ins targets)"
  unfolding Convert_def Let_def
  by (auto simp: role_and_binding_def cluster_role_and_binding_def convert_other_def Let_def
      split: option.split prod.split intro!: ends_obind ends_omap generateName_ends [OF assms])

lemma classify_all_ends: "ends d (classify_all L objs reg)"
  by (induction objs arbitrary: reg) (auto simp: classify_def split: sum.split intro!: ends_obind)

lemma registry_ends:
  assumes "digest_law (vl_sha224 L)" and "\<And>data n. typed (builder data n)"
  shows "ends d (registry_HandleBundleDeployment L Marshal sha256 builder fsys bd)"
proof -
  have "ends d (read_registry_v1 L fsys)"
    by (auto simp: read_registry_v1_def manifest_documents_def split: sum.split prod.split option.split intro!: ends_obind ends_omap classify_all_ends)
  then show ?thesis
    unfolding registry_HandleBundleDeployment_def RegistryV1ToPlain_def
    by (auto intro!: ends_obind ends_omap Convert_ends [OF assms(1)] plain_ends assms(2))
qed

lemma FSToTarGZ_calm: "ends True (FSToTarGZ depth w fsys)"
  by (auto simp: FSToTarGZ_def split: option.split)

lemma helm_calm: "ends True (helm_HandleBundleDeployment depth LoadArchive validate Marshal ReadValues fsys bd)"
proof -
  have "ends True (getChart depth LoadArchive validate chartfs)" for chartfs
    using FSToTarGZ_calm [of depth "\<lambda>_. None" chartfs]
    by (auto simp: getChart_def load_written_def split: outcome.split prod.split sum.split option.split)
  moreover have "ends True (EnsureBaseDirFS fsys ''chart'')"
    by (auto simp: EnsureBaseDirFS_def Let_def split: sum.split list.split)
  moreover have "ends True (loadValues Marshal ReadValues bd)"
    by (auto simp: loadValues_def Let_def split: sum.split option.split)
  ultimately show ?thesis
    unfolding helm_HandleBundleDeployment_def by (intro ends_obind) simp_all
qed

section \<open>The parts of a manager\<close>

lemma through_returns: "returns d m \<Longrightarrow> returns d (through l m)"
  by (auto simp: returns_def through_def split: prod.split) (metis fst_conv)

lemma new_bundle_storage_returns:
  shows "returns True (bs_Store (new_bundle_storage L cfg s CAs) bd (Some x))" and "returns True (bs_URLFor (new_bundle_storage L cfg s CAs) bd)"
    and "returns True (bs_Load (new_bundle_storage L cfg s CAs) bd)" and "returns True (bs_Delete (new_bundle_storage L cfg s CAs) bd)"
proof -
  have "ends True (fst (LocalDirectory_Store (ml_depth L) s dk bd x))" for dk
    using FSToTarGZ_calm [of "ml_depth L" "\<lambda>_. None" x] by (auto simp: LocalDirectory_Store_def split: outcome.split prod.split option.split)
  then show "returns True (bs_Store (new_bundle_storage L cfg s CAs) bd (Some x))"
    by (simp add: new_bundle_storage_def WithFallbackLoader_def local_store_def Let_def) (rule through_returns, simp add: returns_def)
  show "returns True (bs_URLFor (new_bundle_storage L cfg s CAs) bd)"
    by (simp add: new_bundle_storage_def WithFallbackLoader_def local_store_def Let_def returns_def LocalDirectory_URLFor_def)
  have "ends True (LocalDirectory_Load (ml_tarfs L) s dk bd)" for dk
    by (auto simp: LocalDirectory_Load_def split: sum.split)
  moreover have "ends True (HTTP_Load tarfs_New url_error Do h bd)" for tarfs_New url_error Do h
    by (auto simp: HTTP_Load_def Let_def split: sum.split)
  ultimately show "returns True (bs_Load (new_bundle_storage L cfg s CAs) bd)"
    by (auto simp: new_bundle_storage_def WithFallbackLoader_def local_store_def Let_def returns_def through_def split: outcome.split)
       (metis ends_simps(3))
  have "ends True (fst (LocalDirectory_Delete s dk bd))" for dk
    by (auto simp: LocalDirectory_Delete_def split: prod.split option.split)
  then show "returns True (bs_Delete (new_bundle_storage L cfg s CAs) bd)"
    by (simp add: new_bundle_storage_def WithFallbackLoader_def local_store_def Let_def) (rule through_returns, simp add: returns_def)
qed

text \<open>What the code needs of the source of a bundle deployment: the section of an HTTP source, and a git directory that can be compared with \<open>../\<close>.\<close>

definition sound_source :: "BundleDeployment \<Rightarrow> bool" where
  "sound_source bd \<longleftrightarrow>
     (src_Type (bd_Source bd) = SourceTypeHTTP \<longrightarrow> src_HTTP (bd_Source bd) \<noteq> None) \<and>
     (\<forall>g. src_Type (bd_Source bd) = SourceTypeGit \<longrightarrow> src_Git (bd_Source bd) = Some g \<longrightarrow>
        git_Directory g = [] \<or> 3 \<le> length (Clean (git_Directory g)))"

lemma sound_source_core: "bd_core bd = bd_core bd' \<Longrightarrow> sound_source bd \<longleftrightarrow> sound_source bd'"
  by (simp add: sound_source_def bd_core_iff)

lemma default_unpacker_returns:
  assumes "default_unpacker L ns dir = Inr u" and "aggregate_law (sl_NewAggregate (ml_sources L))"
  shows "sound_source bd \<Longrightarrow> returns True (up_Unpack u bd)" and "returns True (up_Cleanup u bd)"
proof -
  have u: "u = \<lparr>up_Unpack = (\<lambda>bd. through (ml_source_world L) (up_Unpack (NewDefaultUnpacker (ml_sources L) ns dir) bd)),
      up_Cleanup = (\<lambda>bd. through (ml_source_world L) (up_Cleanup (NewDefaultUnpacker (ml_sources L) ns dir) bd))\<rparr>"
    using assms(1) by (simp add: default_unpacker_def Let_def)
  show "returns True (up_Unpack u bd)" if "sound_source bd"
    unfolding u Unpacker.simps
    by (rule through_returns) (use that default_unpacker_no_panic [OF assms(2), of bd] in \<open>auto simp: returns_def ends_True sound_source_def\<close>)
  have "ends True (fst (ImageRegistry_Cleanup i bd ch))" for i ch
    by (auto simp: ImageRegistry_Cleanup_def simp del: Join.simps split: prod.split option.split)
  then have "returns True (up_Cleanup (NewDefaultUnpacker (ml_sources L) ns dir) bd)"
    by (auto simp: returns_def NewDefaultUnpacker_def NewUnpacker_def unpacker_Cleanup_def default_sources_def on_cache_def no_cleanup_def Let_def
        split: option.split prod.split if_splits) (metis fst_conv)+
  then show "returns True (up_Cleanup u bd)"
    unfolding u Unpacker.simps by (rule through_returns)
qed

lemma finalize_each_returns:
  fixes fs :: "'a registered"
  assumes "\<And>k F bd. (k, F) \<in> set fs \<Longrightarrow> returns d (F bd)"
  shows "ends d (fst (finalize_each fs bd w))"
  using assms
proof (induction fs arbitrary: bd w)
  case (Cons p fs)
  obtain k F where p: "p = (k, F)" by force
  have F: "returns d (F bd)" using Cons.prems p by auto
  have IH: "ends d (fst (finalize_each fs bd' w'))" for bd' w'
    by (rule Cons.IH) (use Cons.prems in auto)
  have add: "ends d (fst (case x of (Ok (bd', es), w2) \<Rightarrow> (Ok (bd', e # es), w2) | r \<Rightarrow> r))" if "ends d (fst x)"
    for x :: "(BundleDeployment \<times> gerror list) outcome \<times> 'a" and e
    using that by (cases x; cases "fst x") auto
  show ?case
    using IH add [OF IH] returns_not(1,2) [OF F] by (auto simp: p split: prod.split outcome.split)
qed simp

lemma registry_returns:
  assumes reg: "finalizer_registry NA reg" and "\<And>k F bd. (k, F) \<in> set fs \<Longrightarrow> returns d (F bd)"
  shows "returns d (reg fs bd)"
  unfolding returns_def
proof
  fix w
  obtain ps where ps: "mset ps = mset fs" "reg fs bd w = collected NA (finalize_each ps bd w)"
    using reg unfolding finalizer_registry_def by blast
  have "ends d (fst (finalize_each ps bd w))"
    by (rule finalize_each_returns) (use assms(2) mset_eq_setD [OF ps(1)] in auto)
  then show "ends d (fst (reg fs bd w))"
    by (cases "finalize_each ps bd w"; cases "fst (finalize_each ps bd w)") (auto simp: ps(2) collected_def)
qed

lemma crd_check_returns:
  assumes "\<And>w r n. typed (pl_builder (P w) r n)"
  shows "returns d (rc_Install (crd_check P p) rel)" and "returns d (rc_Upgrade (crd_check P p) rel)"
proof -
  show "returns d (rc_Install (crd_check P p) rel)"
    by (simp add: returns_def crd_check_def Preflight_Install_def)
  have "ends d (preflight_object (P w) p obj)" for w obj
    by (auto simp: preflight_object_def split: sum.split option.split)
  then have "ends d (Preflight_Upgrade (P w) p rel)" for w
    using ManifestObjects_ends [of "pl_builder (P w)" _ _ d, OF assms]
    by (auto simp: Preflight_Upgrade_def split: option.split outcome.split intro!: ends_obind ends_omap) (metis ends_simps)+
  then show "returns d (rc_Upgrade (crd_check P p) rel)"
    by (simp add: returns_def crd_check_def)
qed

section \<open>No panic\<close>

text \<open>
  What is asked of the libraries. Errors are collected and finalizers run as documented, SHA-224 has 28 bytes, the builders give client objects, and
  Helm and the watches do not panic.
\<close>

definition calm_helm :: "('w, 'g, 'c, 's, 'k, 'r, 'a, 'l) manager_libs \<Rightarrow> bool" where
  "calm_helm L \<longleftrightarrow>
     (\<forall>g acg bd. ml_NewActionClientGetter L g = Inr acg \<longrightarrow>
        returns True (acg bd) \<and> (\<forall>w cl w'. acg bd w = (Ok cl, w') \<longrightarrow> client_returns True cl))"

definition calm_libraries :: "new_aggregate \<Rightarrow> 'w ctrl_libs \<Rightarrow> ('w, 'g, 'c, 's, 'k, 'r, 'a, 'l) manager_libs \<Rightarrow> bool" where
  "calm_libraries NA K L \<longleftrightarrow>
     aggregate_law NA \<and> aggregate_law (sl_NewAggregate (ml_sources L)) \<and> finalizer_registry NA (ml_Finalizers L) \<and>
     digest_law (vl_sha224 (hl_convert (ml_handlers L))) \<and>
     (\<forall>data n. typed (hl_builder (ml_handlers L) data n)) \<and> (\<forall>r n. typed (k_builder K r n)) \<and>
     (\<forall>P w r n. ml_NewCRDClient L = Inr P \<longrightarrow> typed (pl_builder (P w) r n)) \<and>
     calm_helm L \<and> (\<forall>x. returns True (k_Watch K x))"

lemma handlers_calm:
  assumes "calm_libraries NA K L" and "h \<in> {plain_handler_of L, registry_handler_of L, helm_handler_of L}"
  shows "ends True (h fsys bd)"
  using assms by (auto simp: calm_libraries_def plain_handler_of_def registry_handler_of_def helm_handler_of_def Let_def
      intro: plain_ends registry_ends helm_calm)

lemma managed_components:
  assumes calm: "calm_libraries NA K L" and made: "made_of L f mo sto acg checks i h c" and src: "sound_source bd"
    and health: "k_gate K \<Longrightarrow> \<forall>w u. fst (hl_Compute (k_health K w) u) \<noteq> None"
  shows "components_return True K c (bd_core bd)"
proof -
  have c: "c = managed L f sto acg checks i h" and h: "h \<in> {plain_handler_of L, registry_handler_of L, helm_handler_of L}"
    using made by (simp_all add: made_of_def)
  obtain g where acg: "ml_NewActionClientGetter L g = Inr acg" using made by (auto simp: made_of_def)
  obtain u where u: "default_unpacker L (system_namespace L f) (fl_unpackCacheDir f) = Inr u" by (simp add: default_unpacker_def Let_def)
  obtain cfg s CAs where s: "sto = new_bundle_storage L cfg s CAs" using made by (auto simp: made_of_def storage_of_def)
  have agg: "aggregate_law (sl_NewAggregate (ml_sources L))" using calm by (simp add: calm_libraries_def)
  have "returns True (ml_Finalizers L [(DeleteCachedBundleKey, DeleteCachedBundle_Finalize sto), (CleanupUnpackCacheKey, CleanupUnpackCache_Finalize u)] bd')" for bd'
    by (rule registry_returns [of NA])
       (use calm default_unpacker_returns(2) [OF u agg] new_bundle_storage_returns(4) in
        \<open>auto simp: calm_libraries_def s DeleteCachedBundle_Finalize_def CleanupUnpackCache_Finalize_def\<close>)
  moreover have "returns True (up_Unpack u bd')" if "bd_core bd' = bd_core bd" for bd'
    using default_unpacker_returns(1) [OF u agg] src sound_source_core [OF that] by simp
  moreover have "res_Bundle r \<noteq> None" if run: "up_Unpack u bd' w = (Ok r, w')" and st: "res_State r = StateUnpacked" for bd' w r w'
  proof -
    obtain x where "up_Unpack (NewDefaultUnpacker (ml_sources L) (system_namespace L f) (fl_unpackCacheDir f)) bd' (ln_get (ml_source_world L) w) = (Ok r, x)"
      using run u by (auto simp: default_unpacker_def Let_def through_iff)
    from default_unpacker_result_ok [OF this] st show ?thesis by (auto simp: result_ok_def split: option.splits)
  qed
  moreover have "returns True (rc_Install p rel) \<and> returns True (rc_Upgrade p rel)" if p: "p \<in> set checks" for p rel
  proof -
    obtain ae q where ae: "ml_NewCRDClient L = Inr ae" and q: "p = crd_check ae q" using made p by (auto simp: made_of_def)
    have "typed (pl_builder (ae w) r n)" for w r n using calm ae by (simp add: calm_libraries_def)
    from crd_check_returns [of ae, OF this] show ?thesis by (simp add: q)
  qed
  moreover have "ends True (ManifestObjects (k_builder K) r n)" for r n
    using calm by (intro ManifestObjects_ends) (simp add: calm_libraries_def)
  moreover have "returns True (acg bd')" "acg bd' w = (Ok cl, w') \<Longrightarrow> client_returns True cl" for bd' w cl w'
    using calm acg unfolding calm_libraries_def calm_helm_def by blast+
  ultimately show ?thesis
    using handlers_calm [OF calm h] new_bundle_storage_returns(1-3) calm health
    unfolding components_return_def c by (auto simp: managed_def Let_def u s calm_libraries_def)
qed


lemma demo_calm: "calm_libraries plain_aggregate demo_plain_libs (with_registry demo_finalizers)"
proof -
  have "calm_helm (with_registry demo_finalizers)"
    by (simp add: calm_helm_def demo_manager_def returns_def client_returns_def fresh_client_def)
  then show ?thesis
    using demo_finalizer_registry plain_aggregate_law demo_sha_law
    by (auto simp: calm_libraries_def demo_manager_def demo_libs_def demo_handlers_def typed_def demo_builder_def demo_plain_libs_def
        demo_preflight_libs_def returns_def demo_health_libs_def split: sum.split)
qed

lemma demo_world_api_returns: "bd_client_returns True demo_world_api"
  by (auto simp: bd_client_returns_def returns_def demo_world_api_def lifted_def demo_api_def split: prod.split option.split if_splits)


end
