(* ===== verification/Deep_Copy.thy ===== *)
theory Deep_Copy
  imports API_Types "HOL-Library.Monad_Syntax"
begin

text \<open>
  The deep copies of the custom resource (api/v1alpha2/zz_generated.deepcopy.go). The other
  theories treat a bundle deployment as a value, so a copy is the value itself; here its
  pointers and slices are addresses of an explicit memory, the copies allocate, and what the
  value view rests on is proved: a copy reads as the same value, and no later write through
  the copy is seen through the original, nor the other way round.

  The copies of the embedded library structs (\<open>ObjectMeta\<close>, \<open>ListMeta\<close>, \<open>RawExtension\<close>,
  \<open>Condition\<close>) are parameters: their structs in memory are the type variable \<open>'x\<close>, and what is
  assumed of them is the law of the locale \<open>deep_copy\<close>, the contract every \<open>DeepCopyInto\<close> has.
\<close>

section \<open>Structs in memory\<close>

type_synonym addr = nat

text \<open>A slice is a window of an array: its address, the offset and the length.\<close>

datatype slice = Slice (sl_array: addr) (sl_off: nat) (sl_len: nat)

record mBundleSource =
  ms_Type :: SourceType
  ms_Image :: "addr option"
  ms_Git :: "addr option"
  ms_ConfigMaps :: "slice option"
  ms_HTTP :: "addr option"

record mPreflightConfig =
  mp_CRDUpgradeSafety :: "addr option"

record 'x mBundleDeploymentSpec =
  mspec_InstallNamespace :: string
  mspec_ProvisionerClassName :: string
  mspec_Source :: mBundleSource
  mspec_Config :: 'x
  mspec_Preflight :: "addr option"

record mBundleDeploymentStatus =
  mst_Conditions :: "slice option"
  mst_ResolvedSource :: "addr option"
  mst_ContentURL :: string
  mst_ObservedGeneration :: int

record 'x mBundleDeployment =
  mbd_APIVersion :: string
  mbd_Kind :: string
  mbd_Meta :: 'x
  mbd_Spec :: "'x mBundleDeploymentSpec"
  mbd_Status :: mBundleDeploymentStatus

record 'x mBundleDeploymentList =
  mbl_APIVersion :: string
  mbl_Kind :: string
  mbl_Meta :: 'x
  mbl_Items :: "slice option"

text \<open>A cell holds a struct a pointer leads to, the array of a slice, or what the library allocates.\<close>

datatype 'x cell =
    AuthorizationCell Authorization
  | BundleDeploymentCell "'x mBundleDeployment"
  | BundleDeploymentListCell "'x mBundleDeploymentList"
  | SpecCell "'x mBundleDeploymentSpec"
  | StatusCell mBundleDeploymentStatus
  | BundleSourceCell mBundleSource
  | CRDUpgradeSafetyCell CRDUpgradeSafetyPreflightConfig
  | ConfigMapSourceCell ConfigMapSource
  | GitRefCell GitRef
  | GitSourceCell GitSource
  | HTTPSourceCell HTTPSource
  | ImageSourceCell ImageSource
  | PreflightConfigCell mPreflightConfig
  | ConfigMapSourceArray "ConfigMapSource list"
  | ConditionArray "'x list"
  | BundleDeploymentArray "'x mBundleDeployment list"
  | LibraryCell 'x

fun un_Authorization where "un_Authorization (AuthorizationCell x) = Some x" | "un_Authorization _ = None"
fun un_BundleDeployment where "un_BundleDeployment (BundleDeploymentCell x) = Some x" | "un_BundleDeployment _ = None"
fun un_BundleDeploymentList where
  "un_BundleDeploymentList (BundleDeploymentListCell x) = Some x" | "un_BundleDeploymentList _ = None"
fun un_Spec where "un_Spec (SpecCell x) = Some x" | "un_Spec _ = None"
fun un_Status where "un_Status (StatusCell x) = Some x" | "un_Status _ = None"
fun un_BundleSource where "un_BundleSource (BundleSourceCell x) = Some x" | "un_BundleSource _ = None"
fun un_CRDUpgradeSafety where
  "un_CRDUpgradeSafety (CRDUpgradeSafetyCell x) = Some x" | "un_CRDUpgradeSafety _ = None"
fun un_ConfigMapSource where "un_ConfigMapSource (ConfigMapSourceCell x) = Some x" | "un_ConfigMapSource _ = None"
fun un_GitRef where "un_GitRef (GitRefCell x) = Some x" | "un_GitRef _ = None"
fun un_GitSource where "un_GitSource (GitSourceCell x) = Some x" | "un_GitSource _ = None"
fun un_HTTPSource where "un_HTTPSource (HTTPSourceCell x) = Some x" | "un_HTTPSource _ = None"
fun un_ImageSource where "un_ImageSource (ImageSourceCell x) = Some x" | "un_ImageSource _ = None"
fun un_PreflightConfig where "un_PreflightConfig (PreflightConfigCell x) = Some x" | "un_PreflightConfig _ = None"
fun un_ConfigMapSources where
  "un_ConfigMapSources (ConfigMapSourceArray xs) = Some xs" | "un_ConfigMapSources _ = None"
fun un_Conditions where "un_Conditions (ConditionArray xs) = Some xs" | "un_Conditions _ = None"
fun un_BundleDeployments where
  "un_BundleDeployments (BundleDeploymentArray xs) = Some xs" | "un_BundleDeployments _ = None"
fun un_Library where "un_Library (LibraryCell x) = Some x" | "un_Library _ = None"

record 'x memory =
  cells :: "addr \<rightharpoonup> 'x cell"
  lim :: addr

type_synonym ('x, 'a) copier = "'a \<Rightarrow> 'x memory \<Rightarrow> ('a \<times> 'x memory) option"

definition alloc :: "'x cell \<Rightarrow> 'x memory \<Rightarrow> addr \<times> 'x memory" where
  "alloc c h = (lim h, h\<lparr>cells := (cells h)(lim h \<mapsto> c), lim := Suc (lim h)\<rparr>)"

definition put :: "addr \<Rightarrow> 'x cell \<Rightarrow> 'x memory \<Rightarrow> 'x memory" where
  "put a c h = h\<lparr>cells := (cells h)(a \<mapsto> c)\<rparr>"

definition load :: "('x cell \<Rightarrow> 'a option) \<Rightarrow> 'x memory \<Rightarrow> addr \<Rightarrow> 'a option" where
  "load un h a = Option.bind (cells h a) un"

definition elems :: "('x cell \<Rightarrow> 'a list option) \<Rightarrow> 'x memory \<Rightarrow> slice \<Rightarrow> 'a list option" where
  "elems un h s = do {
     xs \<leftarrow> load un h (sl_array s);
     if sl_off s + sl_len s \<le> length xs then Some (take (sl_len s) (drop (sl_off s) xs)) else None }"

section \<open>The shapes of the generated code\<close>

text \<open>\<open>*out = *in\<close>, for a struct without pointers.\<close>

definition shallow :: "('x, 'a) copier" where
  "shallow x h = Some (x, h)"

text \<open>\<open>out := new(T); in.DeepCopyInto(out)\<close> for a pointer that may be nil.\<close>

definition copy_ptr :: "('a \<Rightarrow> 'x cell) \<Rightarrow> ('x cell \<Rightarrow> 'a option) \<Rightarrow> 'a \<Rightarrow> ('x, 'a) copier \<Rightarrow> ('x, addr option) copier" where
  "copy_ptr mk un zero into p h = (case p of
     None \<Rightarrow> Some (None, h)
   | Some a \<Rightarrow> do {
       let (b, h1) = alloc (mk zero) h;
       x \<leftarrow> load un h1 a;
       (y, h2) \<leftarrow> into x h1;
       Some (Some b, put b (mk y) h2) })"

text \<open>\<open>for i := range *in { (*in)[i].DeepCopyInto(&(*out)[i]) }\<close>: the element copies in order,
  each written to its place of the new array.\<close>

fun copy_loop :: "('a list \<Rightarrow> 'x cell) \<Rightarrow> ('x cell \<Rightarrow> 'a list option) \<Rightarrow> ('x, 'a) copier
    \<Rightarrow> addr \<Rightarrow> nat \<Rightarrow> 'a list \<Rightarrow> 'x memory \<Rightarrow> 'x memory option" where
  "copy_loop mk un into b i [] h = Some h"
| "copy_loop mk un into b i (x # xs) h = do {
     (y, h1) \<leftarrow> into x h;
     ys \<leftarrow> load un h1 b;
     copy_loop mk un into b (Suc i) xs (put b (mk (ys[i := y])) h1) }"

definition copy_slice :: "('a list \<Rightarrow> 'x cell) \<Rightarrow> ('x cell \<Rightarrow> 'a list option) \<Rightarrow> 'a \<Rightarrow> ('x, 'a) copier
    \<Rightarrow> ('x, slice option) copier" where
  "copy_slice mk un zero into s h = (case s of
     None \<Rightarrow> Some (None, h)
   | Some sl \<Rightarrow> do {
       let (b, h1) = alloc (mk (replicate (sl_len sl) zero)) h;
       xs \<leftarrow> elems un h1 sl;
       h2 \<leftarrow> copy_loop mk un into b 0 xs h1;
       Some (Some (Slice b 0 (sl_len sl)), h2) })"

section \<open>What memory reads as\<close>

text \<open>The value a struct in memory stands for, with the cells it is read from; \<open>None\<close> when a pointer
  dangles or leads to a cell of another type, which Go's types exclude.\<close>

type_synonym ('x, 'a, 'v) reader = "'x memory \<Rightarrow> 'a \<Rightarrow> ('v \<times> addr set) option"

definition reads_flat :: "('x, 'a, 'a) reader" where
  "reads_flat h x = Some (x, {})"

definition reads_ptr :: "('x cell \<Rightarrow> 'a option) \<Rightarrow> ('x, 'a, 'v) reader \<Rightarrow> ('x, addr option, 'v option) reader" where
  "reads_ptr un reads h p = (case p of
     None \<Rightarrow> Some (None, {})
   | Some a \<Rightarrow> do { x \<leftarrow> load un h a; (v, S) \<leftarrow> reads h x; Some (Some v, insert a S) })"

fun reads_all :: "('x, 'a, 'v) reader \<Rightarrow> ('x, 'a list, 'v list) reader" where
  "reads_all reads h [] = Some ([], {})"
| "reads_all reads h (x # xs) = do {
     (v, S) \<leftarrow> reads h x; (vs, T) \<leftarrow> reads_all reads h xs; Some (v # vs, S \<union> T) }"

definition reads_slice :: "('x cell \<Rightarrow> 'a list option) \<Rightarrow> ('x, 'a, 'v) reader \<Rightarrow> ('x, slice option, 'v list option) reader" where
  "reads_slice un reads h s = (case s of
     None \<Rightarrow> Some (None, {})
   | Some sl \<Rightarrow> do { xs \<leftarrow> elems un h sl; (vs, S) \<leftarrow> reads_all reads h xs; Some (Some vs, insert (sl_array sl) S) })"

text \<open>The allocator's invariant, agreement on some cells, and growth.\<close>

definition memory_ok :: "'x memory \<Rightarrow> bool" where
  "memory_ok h \<longleftrightarrow> (\<forall>p \<ge> lim h. cells h p = None)"

definition agree :: "addr set \<Rightarrow> 'x memory \<Rightarrow> 'x memory \<Rightarrow> bool" where
  "agree S h h' \<longleftrightarrow> (\<forall>p \<in> S. cells h' p = cells h p)"

definition grows :: "'x memory \<Rightarrow> 'x memory \<Rightarrow> bool" where
  "grows h h' \<longleftrightarrow> memory_ok h' \<and> agree (dom (cells h)) h h'"

lemma agree_Un [simp]: "agree (S \<union> T) h h' \<longleftrightarrow> agree S h h' \<and> agree T h h'"
  by (auto simp: agree_def)

lemma agree_insert [simp]: "agree (insert a S) h h' \<longleftrightarrow> cells h' a = cells h a \<and> agree S h h'"
  by (auto simp: agree_def)

lemma agree_empty [simp]: "agree {} h h'"
  by (simp add: agree_def)

lemma agree_mono: "agree S h h' \<Longrightarrow> T \<subseteq> S \<Longrightarrow> agree T h h'"
  by (auto simp: agree_def)

lemma agree_trans: "agree S h h1 \<Longrightarrow> agree S h1 h2 \<Longrightarrow> agree S h h2"
  by (simp add: agree_def)

lemma grows_refl [simp]: "memory_ok h \<Longrightarrow> grows h h"
  by (simp add: grows_def agree_def)

lemma grows_dom: "grows h h' \<Longrightarrow> dom (cells h) \<subseteq> dom (cells h')"
  by (auto simp: grows_def agree_def) (metis domI domD)

lemma grows_cell: "grows h h' \<Longrightarrow> a \<in> dom (cells h) \<Longrightarrow> cells h' a = cells h a"
  by (simp add: grows_def agree_def)

lemma grows_trans: "grows h h1 \<Longrightarrow> grows h1 h2 \<Longrightarrow> grows h h2"
  using grows_dom [of h h1] grows_cell [of h h1] grows_cell [of h1 h2]
  by (simp add: grows_def agree_def subset_iff)

lemma grows_ok: "grows h h' \<Longrightarrow> memory_ok h'"
  by (simp add: grows_def)

lemma grows_alloc:
  assumes "memory_ok h" and "alloc c h = (b, h')"
  shows "grows h h'" and "b \<notin> dom (cells h)" and "cells h' b = Some c" and "b \<in> dom (cells h')"
  using assms by (auto simp: alloc_def memory_ok_def grows_def agree_def)

lemma put_ok: "memory_ok h \<Longrightarrow> a \<in> dom (cells h) \<Longrightarrow> memory_ok (put a c h)"
  by (auto simp: memory_ok_def put_def)

lemma put_cells [simp]: "cells (put a c h) = (cells h)(a \<mapsto> c)"
  by (simp add: put_def)

lemma agree_put: "a \<notin> S \<Longrightarrow> agree S h (put a c h)"
  by (auto simp: agree_def)

lemma grows_put:
  assumes "grows h h'" and "a \<notin> dom (cells h)" and "a \<in> dom (cells h')"
  shows "grows h (put a c h')"
  using assms by (auto simp: grows_def agree_def put_ok)

lemma load_agree: "cells h' a = cells h a \<Longrightarrow> load un h' a = load un h a"
  by (simp add: load_def)

lemma elems_agree: "cells h' (sl_array s) = cells h (sl_array s) \<Longrightarrow> elems un h' s = elems un h s"
  by (simp add: elems_def load_def)

lemma load_dom: "load un h a = Some x \<Longrightarrow> a \<in> dom (cells h)"
  by (auto simp: load_def bind_eq_Some_conv)

lemma elems_dom: "elems un h s = Some xs \<Longrightarrow> sl_array s \<in> dom (cells h)"
  by (auto simp: elems_def bind_eq_Some_conv dest: load_dom)

section \<open>The contract of a deep copy\<close>

locale deep_copy =
  fixes into :: "('x, 'a) copier"
    and reads :: "('x, 'a, 'v) reader"
  assumes reads_local: "reads h x = Some (v, S) \<Longrightarrow> agree S h h' \<Longrightarrow> reads h' x = Some (v, S)"
    and reads_dom: "reads h x = Some (v, S) \<Longrightarrow> S \<subseteq> dom (cells h)"
    and copies: "memory_ok h \<Longrightarrow> reads h x = Some (v, S) \<Longrightarrow>
      \<exists>y h' T. into x h = Some (y, h') \<and> grows h h' \<and> reads h' y = Some (v, T) \<and> T \<inter> dom (cells h) = {}"
begin

lemma copiesE:
  assumes "memory_ok h" and "reads h x = Some (v, S)"
  obtains y h' T where "into x h = Some (y, h')" "grows h h'" "reads h' y = Some (v, T)"
    "T \<inter> dom (cells h) = {}" "T \<subseteq> dom (cells h')"
  using copies [OF assms] reads_dom by blast

lemma reads_grown:
  assumes "reads h x = Some (v, S)" and "grows h h'"
  shows "reads h' x = Some (v, S)"
  using assms reads_dom [OF assms(1)] by (auto simp: grows_def intro: reads_local agree_mono)

text \<open>The copy reads as the original; what is written afterwards to cells the original did not have
  leaves the original as it was, and what is written to the cells there were leaves the copy.\<close>

lemma independent:
  assumes "memory_ok h" and "reads h x = Some (v, S)"
  obtains y h' T where "into x h = Some (y, h')" "reads h' y = Some (v, T)" "S \<inter> T = {}"
    "\<forall>h''. agree S h' h'' \<longrightarrow> reads h'' x = Some (v, S)"
    "\<forall>h''. agree T h' h'' \<longrightarrow> reads h'' y = Some (v, T)"
proof -
  from copiesE [OF assms] obtain y h' T where c: "into x h = Some (y, h')" "grows h h'"
    "reads h' y = Some (v, T)" "T \<inter> dom (cells h) = {}" .
  from reads_dom [OF assms(2)] c(4) have "S \<inter> T = {}" by blast
  with c show thesis using reads_grown [OF assms(2) c(2)] reads_local by (intro that) blast+
qed

lemma reads_all_local: "reads_all reads h xs = Some (vs, S) \<Longrightarrow> agree S h h' \<Longrightarrow> reads_all reads h' xs = Some (vs, S)"
proof (induction xs arbitrary: vs S)
  case (Cons x xs)
  then obtain v S1 ws S2 where p: "reads h x = Some (v, S1)" "reads_all reads h xs = Some (ws, S2)"
    "vs = v # ws" "S = S1 \<union> S2" by (auto simp: bind_eq_Some_conv)
  then show ?case using Cons.IH [of ws S2] Cons.prems(2) reads_local [of h x v S1 h'] by simp
qed simp

lemma reads_all_dom: "reads_all reads h xs = Some (vs, S) \<Longrightarrow> S \<subseteq> dom (cells h)"
proof (induction xs arbitrary: vs S)
  case (Cons x xs)
  then show ?case using reads_dom by (fastforce simp: bind_eq_Some_conv)
qed simp

end

text \<open>A struct with cells of its own, alone (\<open>mk\<close>, \<open>un\<close>) or in arrays (\<open>mks\<close>, \<open>uns\<close>).\<close>

locale pointed = deep_copy into reads
  for into :: "('x, 'a) copier" and reads :: "('x, 'a, 'v) reader" +
  fixes mk :: "'a \<Rightarrow> 'x cell" and un :: "'x cell \<Rightarrow> 'a option" and zero :: 'a
  assumes un_mk [simp]: "un (mk x) = Some x"

locale arrayed = deep_copy into reads
  for into :: "('x, 'a) copier" and reads :: "('x, 'a, 'v) reader" +
  fixes mks :: "'a list \<Rightarrow> 'x cell" and uns :: "'x cell \<Rightarrow> 'a list option" and zero :: 'a
  assumes uns_mks [simp]: "uns (mks xs) = Some xs"
begin

lemma copy_loop_copies:
  assumes "memory_ok h" and "load uns h b = Some ys" and "i + length xs = length ys"
    and "reads_all reads h xs = Some (vs, S)" and "b \<notin> S"
  shows "\<exists>h' zs T. copy_loop mks uns into b i xs h = Some h' \<and> memory_ok h'
    \<and> agree (dom (cells h) - {b}) h h' \<and> load uns h' b = Some (take i ys @ zs)
    \<and> length zs = length xs \<and> reads_all reads h' zs = Some (vs, T) \<and> T \<inter> dom (cells h) = {}"
  using assms
proof (induction xs arbitrary: h ys i vs S)
  case Nil
  then show ?case by (auto simp: agree_def)
next
  case (Cons x xs)
  from Cons.prems(4) obtain v S1 ws S2 where p: "reads h x = Some (v, S1)"
    "reads_all reads h xs = Some (ws, S2)" "vs = v # ws" "S = S1 \<union> S2"
    by (auto simp: bind_eq_Some_conv)
  from copiesE [OF Cons.prems(1) p(1)] obtain y h1 T1 where c: "into x h = Some (y, h1)" "grows h h1"
    "reads h1 y = Some (v, T1)" "T1 \<inter> dom (cells h) = {}" "T1 \<subseteq> dom (cells h1)" .
  have b: "b \<in> dom (cells h)" using Cons.prems(2) by (rule load_dom)
  have b1: "cells h1 b = cells h b" using c(2) b by (auto simp: grows_def agree_def)
  let ?ys = "ys[i := y]" let ?h2 = "put b (mks ?ys) h1"
  have l1: "load uns h1 b = Some ys" using Cons.prems(2) load_agree [OF b1, of uns] by simp
  have d: "dom (cells h) \<subseteq> dom (cells ?h2)" "dom (cells ?h2) = dom (cells h1)"
    using grows_dom [OF c(2)] b by auto
  have ok: "memory_ok ?h2" using grows_ok [OF c(2)] b grows_dom [OF c(2)] by (intro put_ok) auto
  have keep: "agree (dom (cells h) - {b}) h ?h2" using c(2) by (auto simp: grows_def agree_def)
  have "S2 \<subseteq> dom (cells h) - {b}" using p(4) Cons.prems(5) reads_all_dom [OF p(2)] by blast
  then have ra: "reads_all reads ?h2 xs = Some (ws, S2)"
    by (rule reads_all_local [OF p(2) agree_mono [OF keep]])
  have l2: "load uns ?h2 b = Some ?ys" by (simp add: load_def)
  have "Suc i + length xs = length ?ys" and "b \<notin> S2" using Cons.prems(3,5) p(4) by simp_all
  from Cons.IH [OF ok l2 this(1) ra this(2)]
  obtain h' zs T where r: "copy_loop mks uns into b (Suc i) xs ?h2 = Some h'" "memory_ok h'"
    "agree (dom (cells ?h2) - {b}) ?h2 h'" "load uns h' b = Some (take (Suc i) ?ys @ zs)"
    "length zs = length xs" "reads_all reads h' zs = Some (ws, T)" "T \<inter> dom (cells ?h2) = {}"
    by blast
  have "take (Suc i) ?ys = take i ys @ [y]"
    using Cons.prems(3) by (simp add: take_Suc_conv_app_nth)
  moreover have "reads h' y = Some (v, T1)"
  proof (rule reads_local [OF c(3)])
    show "agree T1 h1 h'" using r(3) c(4,5) b by (fastforce simp: agree_def)
  qed
  moreover have "agree (dom (cells h) - {b}) h h'" 
    using d(1) by (intro agree_trans [OF keep agree_mono [OF r(3)]]) blast
  moreover have "(T1 \<union> T) \<inter> dom (cells h) = {}" using c(4) r(7) d(1) by blast
  moreover have "copy_loop mks uns into b i (x # xs) h = Some h'" using c(1) l1 r(1) by simp
  ultimately show ?case using r(2,4,5,6) p(3)
    by (intro exI [of _ h'] exI [of _ "y # zs"] exI [of _ "T1 \<union> T"]) simp
qed

end

lemma reads_ptr_local:
  assumes "deep_copy into reads" and "reads_ptr un reads h p = Some (v, S)" and "agree S h h'"
  shows "reads_ptr un reads h' p = Some (v, S)"
proof (cases p)
  case None
  then show ?thesis using assms(2) by (simp add: reads_ptr_def)
next
  case (Some a)
  then obtain x w T where "load un h a = Some x" "reads h x = Some (w, T)" "v = Some w" "S = insert a T"
    using assms(2) by (auto simp: reads_ptr_def bind_eq_Some_conv)
  then show ?thesis using Some assms(3) deep_copy.reads_local [OF assms(1), of h x w T h']
    by (simp add: reads_ptr_def load_agree [of h' a h])
qed

sublocale pointed \<subseteq> ptr: deep_copy "copy_ptr mk un zero into" "reads_ptr un reads"
proof (unfold_locales, goal_cases)
  case (1 h p v S h')
  then show ?case using reads_ptr_local deep_copy_axioms by blast
next
  case (2 h p v S)
  then show ?case using reads_dom by (fastforce simp: reads_ptr_def bind_eq_Some_conv dest: load_dom split: option.splits)
next
  case (3 h p v S)
  show ?case
  proof (cases p)
    case None
    then show ?thesis using 3 by (auto simp: copy_ptr_def reads_ptr_def)
  next
    case (Some a)
    then obtain x w T where r: "load un h a = Some x" "reads h x = Some (w, T)" "v = Some w"
      using 3(2) by (auto simp: reads_ptr_def bind_eq_Some_conv)
    obtain b h1 where al: "alloc (mk zero) h = (b, h1)" by fastforce
    note g = grows_alloc [OF 3(1) al]
    have l1: "load un h1 a = Some x"
      using r(1) load_dom [OF r(1)] g(1) load_agree [of h1 a h un] by (auto simp: grows_def agree_def)
    from copiesE [OF grows_ok [OF g(1)] reads_grown [OF r(2) g(1)]] obtain y h2 U where
      c: "into x h1 = Some (y, h2)" "grows h1 h2" "reads h2 y = Some (w, U)" "U \<inter> dom (cells h1) = {}" .
    have "grows h (put b (mk y) h2)"
      using grows_trans [OF g(1) c(2)] g(2) grows_dom [OF c(2)] g(4) by (auto intro: grows_put)
    moreover have "reads (put b (mk y) h2) y = Some (w, U)"
      using c(4) g(4) by (auto intro: reads_local [OF c(3)] agree_put)
    moreover have "insert b U \<inter> dom (cells h) = {}" using c(4) g(2) grows_dom [OF g(1)] by blast
    moreover have "copy_ptr mk un zero into p h = Some (Some b, put b (mk y) h2)"
      using Some al l1 c(1) by (simp add: copy_ptr_def)
    moreover have "reads_ptr un reads (put b (mk y) h2) (Some b) = Some (Some w, insert b U)"
      using calculation(2) by (simp add: reads_ptr_def load_def)
    ultimately show ?thesis using r(3) by blast
  qed
qed

sublocale arrayed \<subseteq> slice: deep_copy "copy_slice mks uns zero into" "reads_slice uns reads"
proof (unfold_locales, goal_cases)
  case (1 h s v S h')
  show ?case
  proof (cases s)
    case None
    then show ?thesis using 1 by (simp add: reads_slice_def)
  next
    case (Some sl)
    then obtain xs vs T where "elems uns h sl = Some xs" "reads_all reads h xs = Some (vs, T)"
      "v = Some vs" "S = insert (sl_array sl) T"
      using 1(1) by (auto simp: reads_slice_def bind_eq_Some_conv)
    then show ?thesis using Some 1(2) reads_all_local [of h xs vs T h']
      by (simp add: reads_slice_def elems_agree [of h' sl h])
  qed
next
  case (2 h s v S)
  then show ?case using reads_all_dom
    by (fastforce simp: reads_slice_def bind_eq_Some_conv dest: elems_dom split: option.splits)
next
  case (3 h s v S)
  show ?case
  proof (cases s)
    case None
    then show ?thesis using 3 by (auto simp: copy_slice_def reads_slice_def)
  next
    case (Some sl)
    then obtain xs vs T where r: "elems uns h sl = Some xs" "reads_all reads h xs = Some (vs, T)" "v = Some vs"
      using 3(2) by (auto simp: reads_slice_def bind_eq_Some_conv)
    let ?n = "sl_len sl"
    have n: "length xs = ?n" using r(1) by (auto simp: elems_def bind_eq_Some_conv split: if_splits)
    obtain b h1 where al: "alloc (mks (replicate ?n zero)) h = (b, h1)" by fastforce
    note g = grows_alloc [OF 3(1) al]
    have e1: "elems uns h1 sl = Some xs"
      using r(1) elems_dom [OF r(1)] g(1) elems_agree [of h1 sl h uns] by (auto simp: grows_def agree_def)
    have ra: "reads_all reads h1 xs = Some (vs, T)"
      using reads_all_local [OF r(2)] reads_all_dom [OF r(2)] g(1) by (auto simp: grows_def intro: agree_mono)
    have "b \<notin> T" using reads_all_dom [OF r(2)] g(2) by blast
    from copy_loop_copies [OF grows_ok [OF g(1)] _ _ ra this, of "replicate ?n zero" 0] n g(3)
    obtain h2 zs U where c: "copy_loop mks uns into b 0 xs h1 = Some h2" "memory_ok h2"
      "agree (dom (cells h1) - {b}) h1 h2" "load uns h2 b = Some zs" "length zs = ?n"
      "reads_all reads h2 zs = Some (vs, U)" "U \<inter> dom (cells h1) = {}"
      by (auto simp: load_def)
    have "agree (dom (cells h)) h1 h2"
      using grows_dom [OF g(1)] g(2) by (intro agree_mono [OF c(3)]) blast
    then have "grows h h2" using g(1) c(2) by (simp add: grows_def agree_def)
    moreover have "insert b U \<inter> dom (cells h) = {}" using c(7) g(2) grows_dom [OF g(1)] by blast
    moreover have "reads_slice uns reads h2 (Some (Slice b 0 ?n)) = Some (Some vs, insert b U)"
      using c by (simp add: reads_slice_def elems_def)
    moreover have "copy_slice mks uns zero into s h = Some (Some (Slice b 0 ?n), h2)"
      using Some al e1 c(1) by (simp add: copy_slice_def)
    ultimately show ?thesis using r(3) by blast
  qed
qed

context pointed
begin

lemma ptr_copy: "deep_copy (copy_ptr mk un zero into) (reads_ptr un reads)"
  by (rule ptr.deep_copy_axioms)

end

context arrayed
begin

lemma slice_copy: "deep_copy (copy_slice mks uns zero into) (reads_slice uns reads)"
  by (rule slice.deep_copy_axioms)

end

section \<open>The library's structs\<close>

record ListMeta =
  lm_ResourceVersion :: string
  lm_Continue :: string
  lm_RemainingItemCount :: "int option"

text \<open>The copies of \<open>ObjectMeta\<close>, \<open>ListMeta\<close>, \<open>RawExtension\<close> and \<open>Condition\<close>, and their zero values.\<close>

record 'x library =
  lib_ObjectMeta :: "('x, 'x) copier"
  lib_ListMeta :: "('x, 'x) copier"
  lib_RawExtension :: "('x, 'x) copier"
  lib_Condition :: "('x, 'x) copier"
  zero_ObjectMeta :: 'x
  zero_ListMeta :: 'x
  zero_RawExtension :: 'x
  zero_Condition :: 'x

text \<open>What the library's structs read as.\<close>

record 'x library_view =
  view_ObjectMeta :: "('x, 'x, ObjectMeta) reader"
  view_ListMeta :: "('x, 'x, ListMeta) reader"
  view_RawExtension :: "('x, 'x, json) reader"
  view_Condition :: "('x, 'x, Condition) reader"

definition library_ok :: "'x library \<Rightarrow> 'x library_view \<Rightarrow> bool" where
  "library_ok L V \<longleftrightarrow> deep_copy (lib_ObjectMeta L) (view_ObjectMeta V) \<and> deep_copy (lib_ListMeta L) (view_ListMeta V)
     \<and> deep_copy (lib_RawExtension L) (view_RawExtension V) \<and> deep_copy (lib_Condition L) (view_Condition V)"

section \<open>The generated copies\<close>

subsection \<open>Structs without pointers\<close>

definition Authorization_DeepCopyInto :: "('x, Authorization) copier" where
  "Authorization_DeepCopyInto i h = (let out = i in Some (out\<lparr>auth_Secret := auth_Secret i\<rparr>, h))"

definition ConfigMapSource_DeepCopyInto :: "('x, ConfigMapSource) copier" where
  "ConfigMapSource_DeepCopyInto i h = (let out = i in Some (out\<lparr>cms_ConfigMap := cms_ConfigMap i\<rparr>, h))"

definition GitRef_DeepCopyInto :: "('x, GitRef) copier" where
  "GitRef_DeepCopyInto i h = Some (i, h)"

definition GitSource_DeepCopyInto :: "('x, GitSource) copier" where
  "GitSource_DeepCopyInto i h = (let out = i in Some (out\<lparr>git_Ref := git_Ref i, git_Auth := git_Auth i\<rparr>, h))"

definition HTTPSource_DeepCopyInto :: "('x, HTTPSource) copier" where
  "HTTPSource_DeepCopyInto i h = (let out = i in Some (out\<lparr>http_Auth := http_Auth i\<rparr>, h))"

definition ImageSource_DeepCopyInto :: "('x, ImageSource) copier" where
  "ImageSource_DeepCopyInto i h = Some (i, h)"

definition CRDUpgradeSafetyPreflightConfig_DeepCopyInto :: "('x, CRDUpgradeSafetyPreflightConfig) copier" where
  "CRDUpgradeSafetyPreflightConfig_DeepCopyInto i h = Some (i, h)"

definition zero_Authorization :: Authorization where
  "zero_Authorization = \<lparr>auth_Secret = [], auth_InsecureSkipVerify = False\<rparr>"

definition zero_ConfigMapSource :: ConfigMapSource where
  "zero_ConfigMapSource = \<lparr>cms_ConfigMap = [], cms_Path = []\<rparr>"

definition zero_GitRef :: GitRef where
  "zero_GitRef = \<lparr>ref_Branch = [], ref_Tag = [], ref_Commit = []\<rparr>"

definition zero_GitSource :: GitSource where
  "zero_GitSource = \<lparr>git_Repository = [], git_Directory = [], git_Ref = zero_GitRef, git_Auth = zero_Authorization\<rparr>"

definition zero_HTTPSource :: HTTPSource where
  "zero_HTTPSource = \<lparr>http_URL = [], http_Auth = zero_Authorization\<rparr>"

definition zero_ImageSource :: ImageSource where
  "zero_ImageSource = \<lparr>img_Ref = [], img_ImagePullSecretName = [], img_InsecureSkipTLSVerify = False,
     img_CertificateData = []\<rparr>"

definition zero_CRDUpgradeSafety :: CRDUpgradeSafetyPreflightConfig where
  "zero_CRDUpgradeSafety = \<lparr>crd_Disabled = False\<rparr>"

definition Authorization_DeepCopy :: "('x, addr option) copier" where
  "Authorization_DeepCopy = copy_ptr AuthorizationCell un_Authorization zero_Authorization Authorization_DeepCopyInto"

definition ConfigMapSource_DeepCopy :: "('x, addr option) copier" where
  "ConfigMapSource_DeepCopy =
     copy_ptr ConfigMapSourceCell un_ConfigMapSource zero_ConfigMapSource ConfigMapSource_DeepCopyInto"

definition GitRef_DeepCopy :: "('x, addr option) copier" where
  "GitRef_DeepCopy = copy_ptr GitRefCell un_GitRef zero_GitRef GitRef_DeepCopyInto"

definition GitSource_DeepCopy :: "('x, addr option) copier" where
  "GitSource_DeepCopy = copy_ptr GitSourceCell un_GitSource zero_GitSource GitSource_DeepCopyInto"

definition HTTPSource_DeepCopy :: "('x, addr option) copier" where
  "HTTPSource_DeepCopy = copy_ptr HTTPSourceCell un_HTTPSource zero_HTTPSource HTTPSource_DeepCopyInto"

definition ImageSource_DeepCopy :: "('x, addr option) copier" where
  "ImageSource_DeepCopy = copy_ptr ImageSourceCell un_ImageSource zero_ImageSource ImageSource_DeepCopyInto"

definition CRDUpgradeSafetyPreflightConfig_DeepCopy :: "('x, addr option) copier" where
  "CRDUpgradeSafetyPreflightConfig_DeepCopy = copy_ptr CRDUpgradeSafetyCell un_CRDUpgradeSafety
     zero_CRDUpgradeSafety CRDUpgradeSafetyPreflightConfig_DeepCopyInto"

subsection \<open>Structs with pointers\<close>

definition BundleSource_DeepCopyInto :: "('x, mBundleSource) copier" where
  "BundleSource_DeepCopyInto i h = do {
     let out = i;
     (im, h) \<leftarrow> copy_ptr ImageSourceCell un_ImageSource zero_ImageSource shallow (ms_Image i) h;
     let out = out\<lparr>ms_Image := im\<rparr>;
     (g, h) \<leftarrow> copy_ptr GitSourceCell un_GitSource zero_GitSource shallow (ms_Git i) h;
     let out = out\<lparr>ms_Git := g\<rparr>;
     (c, h) \<leftarrow> copy_slice ConfigMapSourceArray un_ConfigMapSources zero_ConfigMapSource shallow (ms_ConfigMaps i) h;
     let out = out\<lparr>ms_ConfigMaps := c\<rparr>;
     (u, h) \<leftarrow> copy_ptr HTTPSourceCell un_HTTPSource zero_HTTPSource shallow (ms_HTTP i) h;
     let out = out\<lparr>ms_HTTP := u\<rparr>;
     Some (out, h) }"

definition zero_BundleSource :: mBundleSource where
  "zero_BundleSource = \<lparr>ms_Type = [], ms_Image = None, ms_Git = None, ms_ConfigMaps = None, ms_HTTP = None\<rparr>"

definition BundleSource_DeepCopy :: "('x, addr option) copier" where
  "BundleSource_DeepCopy = copy_ptr BundleSourceCell un_BundleSource zero_BundleSource BundleSource_DeepCopyInto"

definition PreflightConfig_DeepCopyInto :: "('x, mPreflightConfig) copier" where
  "PreflightConfig_DeepCopyInto i h = do {
     let out = i;
     (c, h) \<leftarrow> copy_ptr CRDUpgradeSafetyCell un_CRDUpgradeSafety zero_CRDUpgradeSafety shallow (mp_CRDUpgradeSafety i) h;
     Some (out\<lparr>mp_CRDUpgradeSafety := c\<rparr>, h) }"

definition zero_PreflightConfig :: mPreflightConfig where
  "zero_PreflightConfig = \<lparr>mp_CRDUpgradeSafety = None\<rparr>"

definition PreflightConfig_DeepCopy :: "('x, addr option) copier" where
  "PreflightConfig_DeepCopy =
     copy_ptr PreflightConfigCell un_PreflightConfig zero_PreflightConfig PreflightConfig_DeepCopyInto"

definition BundleDeploymentSpec_DeepCopyInto :: "'x library \<Rightarrow> ('x, 'x mBundleDeploymentSpec) copier" where
  "BundleDeploymentSpec_DeepCopyInto L i h = do {
     let out = i;
     (s, h) \<leftarrow> BundleSource_DeepCopyInto (mspec_Source i) h;
     let out = out\<lparr>mspec_Source := s\<rparr>;
     (c, h) \<leftarrow> lib_RawExtension L (mspec_Config i) h;
     let out = out\<lparr>mspec_Config := c\<rparr>;
     (p, h) \<leftarrow> copy_ptr PreflightConfigCell un_PreflightConfig zero_PreflightConfig
                 PreflightConfig_DeepCopyInto (mspec_Preflight i) h;
     let out = out\<lparr>mspec_Preflight := p\<rparr>;
     Some (out, h) }"

definition zero_Spec :: "'x library \<Rightarrow> 'x mBundleDeploymentSpec" where
  "zero_Spec L = \<lparr>mspec_InstallNamespace = [], mspec_ProvisionerClassName = [], mspec_Source = zero_BundleSource,
     mspec_Config = zero_RawExtension L, mspec_Preflight = None\<rparr>"

definition BundleDeploymentSpec_DeepCopy :: "'x library \<Rightarrow> ('x, addr option) copier" where
  "BundleDeploymentSpec_DeepCopy L = copy_ptr SpecCell un_Spec (zero_Spec L) (BundleDeploymentSpec_DeepCopyInto L)"

definition BundleDeploymentStatus_DeepCopyInto :: "'x library \<Rightarrow> ('x, mBundleDeploymentStatus) copier" where
  "BundleDeploymentStatus_DeepCopyInto L i h = do {
     let out = i;
     (cs, h) \<leftarrow> copy_slice ConditionArray un_Conditions (zero_Condition L) (lib_Condition L) (mst_Conditions i) h;
     let out = out\<lparr>mst_Conditions := cs\<rparr>;
     (r, h) \<leftarrow> copy_ptr BundleSourceCell un_BundleSource zero_BundleSource
                 BundleSource_DeepCopyInto (mst_ResolvedSource i) h;
     let out = out\<lparr>mst_ResolvedSource := r\<rparr>;
     Some (out, h) }"

definition zero_Status :: mBundleDeploymentStatus where
  "zero_Status = \<lparr>mst_Conditions = None, mst_ResolvedSource = None, mst_ContentURL = [], mst_ObservedGeneration = 0\<rparr>"

definition BundleDeploymentStatus_DeepCopy :: "'x library \<Rightarrow> ('x, addr option) copier" where
  "BundleDeploymentStatus_DeepCopy L =
     copy_ptr StatusCell un_Status zero_Status (BundleDeploymentStatus_DeepCopyInto L)"

definition BundleDeployment_DeepCopyInto :: "'x library \<Rightarrow> ('x, 'x mBundleDeployment) copier" where
  "BundleDeployment_DeepCopyInto L i h = do {
     let out = i;
     let out = out\<lparr>mbd_APIVersion := mbd_APIVersion i, mbd_Kind := mbd_Kind i\<rparr>;
     (m, h) \<leftarrow> lib_ObjectMeta L (mbd_Meta i) h;
     let out = out\<lparr>mbd_Meta := m\<rparr>;
     (s, h) \<leftarrow> BundleDeploymentSpec_DeepCopyInto L (mbd_Spec i) h;
     let out = out\<lparr>mbd_Spec := s\<rparr>;
     (t, h) \<leftarrow> BundleDeploymentStatus_DeepCopyInto L (mbd_Status i) h;
     let out = out\<lparr>mbd_Status := t\<rparr>;
     Some (out, h) }"

definition zero_BundleDeployment :: "'x library \<Rightarrow> 'x mBundleDeployment" where
  "zero_BundleDeployment L = \<lparr>mbd_APIVersion = [], mbd_Kind = [], mbd_Meta = zero_ObjectMeta L,
     mbd_Spec = zero_Spec L, mbd_Status = zero_Status\<rparr>"

definition BundleDeployment_DeepCopy :: "'x library \<Rightarrow> ('x, addr option) copier" where
  "BundleDeployment_DeepCopy L =
     copy_ptr BundleDeploymentCell un_BundleDeployment (zero_BundleDeployment L) (BundleDeployment_DeepCopyInto L)"

definition BundleDeploymentList_DeepCopyInto :: "'x library \<Rightarrow> ('x, 'x mBundleDeploymentList) copier" where
  "BundleDeploymentList_DeepCopyInto L i h = do {
     let out = i;
     let out = out\<lparr>mbl_APIVersion := mbl_APIVersion i, mbl_Kind := mbl_Kind i\<rparr>;
     (m, h) \<leftarrow> lib_ListMeta L (mbl_Meta i) h;
     let out = out\<lparr>mbl_Meta := m\<rparr>;
     (xs, h) \<leftarrow> copy_slice BundleDeploymentArray un_BundleDeployments (zero_BundleDeployment L)
                 (BundleDeployment_DeepCopyInto L) (mbl_Items i) h;
     let out = out\<lparr>mbl_Items := xs\<rparr>;
     Some (out, h) }"

definition zero_BundleDeploymentList :: "'x library \<Rightarrow> 'x mBundleDeploymentList" where
  "zero_BundleDeploymentList L = \<lparr>mbl_APIVersion = [], mbl_Kind = [], mbl_Meta = zero_ListMeta L, mbl_Items = None\<rparr>"

definition BundleDeploymentList_DeepCopy :: "'x library \<Rightarrow> ('x, addr option) copier" where
  "BundleDeploymentList_DeepCopy L = copy_ptr BundleDeploymentListCell un_BundleDeploymentList
     (zero_BundleDeploymentList L) (BundleDeploymentList_DeepCopyInto L)"

text \<open>The interface value \<open>runtime.Object\<close>: nil, or a pointer with its type.\<close>

datatype runtime_Object = BundleDeploymentObject addr | BundleDeploymentListObject addr

definition BundleDeployment_DeepCopyObject ::
    "'x library \<Rightarrow> addr option \<Rightarrow> 'x memory \<Rightarrow> (runtime_Object option \<times> 'x memory) option" where
  "BundleDeployment_DeepCopyObject L i h = do {
     (c, h) \<leftarrow> BundleDeployment_DeepCopy L i h;
     Some (case c of Some a \<Rightarrow> Some (BundleDeploymentObject a) | None \<Rightarrow> None, h) }"

definition BundleDeploymentList_DeepCopyObject ::
    "'x library \<Rightarrow> addr option \<Rightarrow> 'x memory \<Rightarrow> (runtime_Object option \<times> 'x memory) option" where
  "BundleDeploymentList_DeepCopyObject L i h = do {
     (c, h) \<leftarrow> BundleDeploymentList_DeepCopy L i h;
     Some (case c of Some a \<Rightarrow> Some (BundleDeploymentListObject a) | None \<Rightarrow> None, h) }"

section \<open>What the structs read as\<close>

definition reads_BundleSource :: "('x, mBundleSource, BundleSource) reader" where
  "reads_BundleSource h s = do {
     (im, S1) \<leftarrow> reads_ptr un_ImageSource reads_flat h (ms_Image s);
     (g, S2) \<leftarrow> reads_ptr un_GitSource reads_flat h (ms_Git s);
     (c, S3) \<leftarrow> reads_slice un_ConfigMapSources reads_flat h (ms_ConfigMaps s);
     (u, S4) \<leftarrow> reads_ptr un_HTTPSource reads_flat h (ms_HTTP s);
     Some (\<lparr>src_Type = ms_Type s, src_Image = im, src_Git = g, src_ConfigMaps = c, src_HTTP = u\<rparr>,
       S1 \<union> (S2 \<union> (S3 \<union> S4))) }"

definition reads_PreflightConfig :: "('x, mPreflightConfig, PreflightConfig) reader" where
  "reads_PreflightConfig h p = do {
     (c, S) \<leftarrow> reads_ptr un_CRDUpgradeSafety reads_flat h (mp_CRDUpgradeSafety p);
     Some (\<lparr>pf_CRDUpgradeSafety = c\<rparr>, S) }"

definition reads_Spec :: "'x library_view \<Rightarrow> ('x, 'x mBundleDeploymentSpec, BundleDeploymentSpec) reader" where
  "reads_Spec V h s = do {
     (src, S1) \<leftarrow> reads_BundleSource h (mspec_Source s);
     (c, S2) \<leftarrow> view_RawExtension V h (mspec_Config s);
     (p, S3) \<leftarrow> reads_ptr un_PreflightConfig reads_PreflightConfig h (mspec_Preflight s);
     Some (\<lparr>spec_InstallNamespace = mspec_InstallNamespace s,
             spec_ProvisionerClassName = mspec_ProvisionerClassName s,
             spec_Source = src, spec_Config = c, spec_Preflight = p\<rparr>, S1 \<union> (S2 \<union> S3)) }"

definition reads_Status :: "'x library_view \<Rightarrow> ('x, mBundleDeploymentStatus, BundleDeploymentStatus) reader" where
  "reads_Status V h s = do {
     (cs, S1) \<leftarrow> reads_slice un_Conditions (view_Condition V) h (mst_Conditions s);
     (r, S2) \<leftarrow> reads_ptr un_BundleSource reads_BundleSource h (mst_ResolvedSource s);
     Some (\<lparr>st_Conditions = (case cs of None \<Rightarrow> [] | Some cs \<Rightarrow> cs), st_ResolvedSource = r,
             st_ContentURL = mst_ContentURL s, st_ObservedGeneration = mst_ObservedGeneration s\<rparr>, S1 \<union> S2) }"

definition reads_BundleDeployment :: "'x library_view \<Rightarrow> ('x, 'x mBundleDeployment, BundleDeployment) reader" where
  "reads_BundleDeployment V h b = do {
     (m, S1) \<leftarrow> view_ObjectMeta V h (mbd_Meta b);
     (s, S2) \<leftarrow> reads_Spec V h (mbd_Spec b);
     (t, S3) \<leftarrow> reads_Status V h (mbd_Status b);
     Some (\<lparr>bd_APIVersion = mbd_APIVersion b, bd_Kind = mbd_Kind b, bd_Meta = m, bd_Spec = s, bd_Status = t\<rparr>,
       S1 \<union> (S2 \<union> S3)) }"

record BundleDeploymentList =
  bl_APIVersion :: string
  bl_Kind :: string
  bl_Meta :: ListMeta
  bl_Items :: "BundleDeployment list option"

definition reads_BundleDeploymentList ::
    "'x library_view \<Rightarrow> ('x, 'x mBundleDeploymentList, BundleDeploymentList) reader" where
  "reads_BundleDeploymentList V h b = do {
     (m, S1) \<leftarrow> view_ListMeta V h (mbl_Meta b);
     (xs, S2) \<leftarrow> reads_slice un_BundleDeployments (reads_BundleDeployment V) h (mbl_Items b);
     Some (\<lparr>bl_APIVersion = mbl_APIVersion b, bl_Kind = mbl_Kind b, bl_Meta = m, bl_Items = xs\<rparr>, S1 \<union> S2) }"

section \<open>The generated copies keep the contract\<close>

text \<open>Copies of two parts in turn, and of a struct by the copies of its parts.\<close>

definition copy_pair :: "('x, 'a) copier \<Rightarrow> ('x, 'b) copier \<Rightarrow> ('x, 'a \<times> 'b) copier" where
  "copy_pair f g p h = do { (x, h) \<leftarrow> f (fst p) h; (y, h) \<leftarrow> g (snd p) h; Some ((x, y), h) }"

definition reads_pair :: "('x, 'a, 'v) reader \<Rightarrow> ('x, 'b, 'w) reader \<Rightarrow> ('x, 'a \<times> 'b, 'v \<times> 'w) reader" where
  "reads_pair r q h p = do { (v, S) \<leftarrow> r h (fst p); (w, T) \<leftarrow> q h (snd p); Some ((v, w), S \<union> T) }"

lemma deep_copy_pair:
  assumes "deep_copy f r" and "deep_copy g q"
  shows "deep_copy (copy_pair f g) (reads_pair r q)"
proof (unfold_locales, goal_cases)
  case (1 h p v S h')
  then obtain v1 S1 v2 S2 where p: "r h (fst p) = Some (v1, S1)" "q h (snd p) = Some (v2, S2)"
    "v = (v1, v2)" "S = S1 \<union> S2" by (auto simp: reads_pair_def bind_eq_Some_conv)
  then have "agree S1 h h'" "agree S2 h h'" using 1(2) by simp_all
  then show ?case
    using p deep_copy.reads_local [OF assms(1) p(1)] deep_copy.reads_local [OF assms(2) p(2)]
    by (simp add: reads_pair_def)
next
  case (2 h p v S)
  then obtain v1 S1 v2 S2 where "r h (fst p) = Some (v1, S1)" "q h (snd p) = Some (v2, S2)"
    "S = S1 \<union> S2" by (auto simp: reads_pair_def bind_eq_Some_conv)
  then show ?case using deep_copy.reads_dom [OF assms(1)] deep_copy.reads_dom [OF assms(2)] by simp
next
  case (3 h p v S)
  then obtain v1 S1 v2 S2 where r: "r h (fst p) = Some (v1, S1)" "q h (snd p) = Some (v2, S2)"
    "v = (v1, v2)" by (auto simp: reads_pair_def bind_eq_Some_conv)
  from deep_copy.copiesE [OF assms(1) 3(1) r(1)] obtain x h1 T1 where c1: "f (fst p) h = Some (x, h1)"
    "grows h h1" "r h1 x = Some (v1, T1)" "T1 \<inter> dom (cells h) = {}" .
  from deep_copy.copiesE [OF assms(2) grows_ok [OF c1(2)] deep_copy.reads_grown [OF assms(2) r(2) c1(2)]]
  obtain y h2 T2 where c2: "g (snd p) h1 = Some (y, h2)" "grows h1 h2" "q h2 y = Some (v2, T2)"
    "T2 \<inter> dom (cells h1) = {}" .
  have "copy_pair f g p h = Some ((x, y), h2)" using c1(1) c2(1) by (simp add: copy_pair_def)
  moreover have "reads_pair r q h2 (x, y) = Some (v, T1 \<union> T2)"
    using deep_copy.reads_grown [OF assms(1) c1(3) c2(2)] c2(3) r(3) by (simp add: reads_pair_def)
  moreover have "(T1 \<union> T2) \<inter> dom (cells h) = {}" using c1(4) c2(4) grows_dom [OF c1(2)] by blast
  ultimately show ?case using grows_trans [OF c1(2) c2(2)] by blast
qed

lemma deep_copy_struct:
  assumes "deep_copy f r"
    and "\<And>s h. into s h = do { (p, h) \<leftarrow> f (get s) h; Some (upd p s, h) }"
    and "\<And>s h. reads h s = do { (v, S) \<leftarrow> r h (get s); Some (val s v, S) }"
    and "\<And>p s. get (upd p s) = p" and "\<And>p s. val (upd p s) = val s"
  shows "deep_copy into reads"
proof (unfold_locales, goal_cases)
  case (1 h s v S h')
  then obtain w where w: "r h (get s) = Some (w, S)" "v = val s w" by (auto simp: assms(3) bind_eq_Some_conv)
  from deep_copy.reads_local [OF assms(1) w(1) 1(2)] w(2) show ?case by (simp add: assms(3))
next
  case (2 h s v S)
  then obtain w where "r h (get s) = Some (w, S)" by (auto simp: assms(3) bind_eq_Some_conv)
  then show ?case by (rule deep_copy.reads_dom [OF assms(1)])
next
  case (3 h s v S)
  then obtain w where w: "r h (get s) = Some (w, S)" "v = val s w" by (auto simp: assms(3) bind_eq_Some_conv)
  from deep_copy.copies [OF assms(1) 3(1) w(1)] obtain y h' T where "f (get s) h = Some (y, h')" "grows h h'"
    "r h' y = Some (w, T)" "T \<inter> dom (cells h) = {}" by blast
  then show ?case using w(2) by (intro exI [of _ "upd y s"] exI [of _ h'] exI [of _ T]) (simp add: assms)
qed

lemma deep_copy_value: "deep_copy f (\<lambda>h x. Some (g x, {}))" if "\<And>x h. f x h = Some (x, h)"
  by unfold_locales (auto simp: that)

lemma deep_copy_flat: "deep_copy f reads_flat" if "\<And>x h. f x h = Some (x, h)"
  using deep_copy_value [OF that, where g = id] by (simp add: reads_flat_def [abs_def])

lemmas flat_copies = shallow_def Authorization_DeepCopyInto_def ConfigMapSource_DeepCopyInto_def GitRef_DeepCopyInto_def
  GitSource_DeepCopyInto_def HTTPSource_DeepCopyInto_def ImageSource_DeepCopyInto_def
  CRDUpgradeSafetyPreflightConfig_DeepCopyInto_def

interpretation authorization: pointed Authorization_DeepCopyInto reads_flat AuthorizationCell un_Authorization zero_Authorization
  by (intro pointed.intro deep_copy_flat pointed_axioms.intro) (simp_all add: flat_copies)

interpretation configMapSource: pointed ConfigMapSource_DeepCopyInto reads_flat ConfigMapSourceCell un_ConfigMapSource zero_ConfigMapSource
  by (intro pointed.intro deep_copy_flat pointed_axioms.intro) (simp_all add: flat_copies)

interpretation gitRef: pointed GitRef_DeepCopyInto reads_flat GitRefCell un_GitRef zero_GitRef
  by (intro pointed.intro deep_copy_flat pointed_axioms.intro) (simp_all add: flat_copies)

interpretation gitSource: pointed GitSource_DeepCopyInto reads_flat GitSourceCell un_GitSource zero_GitSource
  by (intro pointed.intro deep_copy_flat pointed_axioms.intro) (simp_all add: flat_copies)

interpretation httpSource: pointed HTTPSource_DeepCopyInto reads_flat HTTPSourceCell un_HTTPSource zero_HTTPSource
  by (intro pointed.intro deep_copy_flat pointed_axioms.intro) (simp_all add: flat_copies)

interpretation imageSource: pointed ImageSource_DeepCopyInto reads_flat ImageSourceCell un_ImageSource zero_ImageSource
  by (intro pointed.intro deep_copy_flat pointed_axioms.intro) (simp_all add: flat_copies)

interpretation crdUpgradeSafety: pointed CRDUpgradeSafetyPreflightConfig_DeepCopyInto reads_flat CRDUpgradeSafetyCell
  un_CRDUpgradeSafety zero_CRDUpgradeSafety
  by (intro pointed.intro deep_copy_flat pointed_axioms.intro) (simp_all add: flat_copies)

interpretation image: pointed shallow reads_flat ImageSourceCell un_ImageSource zero_ImageSource
  by (intro pointed.intro deep_copy_flat pointed_axioms.intro) (simp_all add: flat_copies)

interpretation git: pointed shallow reads_flat GitSourceCell un_GitSource zero_GitSource
  by (intro pointed.intro deep_copy_flat pointed_axioms.intro) (simp_all add: flat_copies)

interpretation http: pointed shallow reads_flat HTTPSourceCell un_HTTPSource zero_HTTPSource
  by (intro pointed.intro deep_copy_flat pointed_axioms.intro) (simp_all add: flat_copies)

interpretation crd: pointed shallow reads_flat CRDUpgradeSafetyCell un_CRDUpgradeSafety zero_CRDUpgradeSafety
  by (intro pointed.intro deep_copy_flat pointed_axioms.intro) (simp_all add: flat_copies)

interpretation configMaps: arrayed shallow reads_flat ConfigMapSourceArray un_ConfigMapSources zero_ConfigMapSource
  by (intro arrayed.intro deep_copy_flat arrayed_axioms.intro) (simp_all add: flat_copies)

lemmas struct_defs = copy_pair_def reads_pair_def Option.bind_assoc case_prod_unfold

interpretation bundleSource: pointed BundleSource_DeepCopyInto reads_BundleSource BundleSourceCell un_BundleSource zero_BundleSource
proof (intro pointed.intro pointed_axioms.intro)
  show "deep_copy BundleSource_DeepCopyInto reads_BundleSource"
    by (rule deep_copy_struct [OF deep_copy_pair [OF image.ptr.deep_copy_axioms deep_copy_pair [OF
          git.ptr.deep_copy_axioms deep_copy_pair [OF configMaps.slice.deep_copy_axioms http.ptr.deep_copy_axioms]]],
        where get = "\<lambda>s. (ms_Image s, ms_Git s, ms_ConfigMaps s, ms_HTTP s)"
          and upd = "\<lambda>(i, g, c, u) s. s\<lparr>ms_Image := i, ms_Git := g, ms_ConfigMaps := c, ms_HTTP := u\<rparr>"
          and val = "\<lambda>s (i, g, c, u). \<lparr>src_Type = ms_Type s, src_Image = i, src_Git = g, src_ConfigMaps = c, src_HTTP = u\<rparr>"])
      (auto simp: BundleSource_DeepCopyInto_def reads_BundleSource_def struct_defs)
qed simp

interpretation preflight: pointed PreflightConfig_DeepCopyInto reads_PreflightConfig PreflightConfigCell
  un_PreflightConfig zero_PreflightConfig
proof (intro pointed.intro pointed_axioms.intro)
  show "deep_copy PreflightConfig_DeepCopyInto reads_PreflightConfig"
    by (rule deep_copy_struct [OF crd.ptr.deep_copy_axioms, where get = mp_CRDUpgradeSafety
          and upd = "\<lambda>c s. s\<lparr>mp_CRDUpgradeSafety := c\<rparr>" and val = "\<lambda>_ c. \<lparr>pf_CRDUpgradeSafety = c\<rparr>"])
      (simp_all add: PreflightConfig_DeepCopyInto_def reads_PreflightConfig_def)
qed simp

text \<open>The structs with library parts keep the contract when the library does.\<close>

lemma library_okD:
  assumes "library_ok L V"
  shows "deep_copy (lib_ObjectMeta L) (view_ObjectMeta V)" and "deep_copy (lib_ListMeta L) (view_ListMeta V)"
    and "deep_copy (lib_RawExtension L) (view_RawExtension V)" and "deep_copy (lib_Condition L) (view_Condition V)"
  using assms by (simp_all add: library_ok_def)

lemma spec_deep_copy:
  assumes "library_ok L V"
  shows "deep_copy (BundleDeploymentSpec_DeepCopyInto L) (reads_Spec V)"
  by (rule deep_copy_struct [OF deep_copy_pair [OF bundleSource.deep_copy_axioms
          deep_copy_pair [OF library_okD(3) [OF assms] preflight.ptr.deep_copy_axioms]],
        where get = "\<lambda>s. (mspec_Source s, mspec_Config s, mspec_Preflight s)"
          and upd = "\<lambda>(r, c, p) s. s\<lparr>mspec_Source := r, mspec_Config := c, mspec_Preflight := p\<rparr>"
          and val = "\<lambda>s (r, c, p). \<lparr>spec_InstallNamespace = mspec_InstallNamespace s,
             spec_ProvisionerClassName = mspec_ProvisionerClassName s,
             spec_Source = r, spec_Config = c, spec_Preflight = p\<rparr>"])
    (auto simp: BundleDeploymentSpec_DeepCopyInto_def reads_Spec_def struct_defs)

lemma conditions_arrayed:
  assumes "library_ok L V"
  shows "arrayed (lib_Condition L) (view_Condition V) ConditionArray un_Conditions"
  using library_okD(4) [OF assms] by (simp add: arrayed_def arrayed_axioms_def)

lemma status_deep_copy:
  assumes "library_ok L V"
  shows "deep_copy (BundleDeploymentStatus_DeepCopyInto L) (reads_Status V)"
  by (rule deep_copy_struct [OF deep_copy_pair [OF arrayed.slice_copy [OF conditions_arrayed [OF assms]]
          bundleSource.ptr.deep_copy_axioms],
        where get = "\<lambda>s. (mst_Conditions s, mst_ResolvedSource s)"
          and upd = "\<lambda>(c, r) s. s\<lparr>mst_Conditions := c, mst_ResolvedSource := r\<rparr>"
          and val = "\<lambda>s (c, r). \<lparr>st_Conditions = (case c of None \<Rightarrow> [] | Some cs \<Rightarrow> cs), st_ResolvedSource = r,
             st_ContentURL = mst_ContentURL s, st_ObservedGeneration = mst_ObservedGeneration s\<rparr>"])
    (auto simp: BundleDeploymentStatus_DeepCopyInto_def reads_Status_def struct_defs)

lemma bundle_deployment_deep_copy:
  assumes "library_ok L V"
  shows "deep_copy (BundleDeployment_DeepCopyInto L) (reads_BundleDeployment V)"
  by (rule deep_copy_struct [OF deep_copy_pair [OF library_okD(1) [OF assms]
          deep_copy_pair [OF spec_deep_copy [OF assms] status_deep_copy [OF assms]]],
        where get = "\<lambda>b. (mbd_Meta b, mbd_Spec b, mbd_Status b)"
          and upd = "\<lambda>(m, s, t) b. b\<lparr>mbd_Meta := m, mbd_Spec := s, mbd_Status := t\<rparr>"
          and val = "\<lambda>b (m, s, t). \<lparr>bd_APIVersion = mbd_APIVersion b, bd_Kind = mbd_Kind b, bd_Meta = m,
             bd_Spec = s, bd_Status = t\<rparr>"])
    (auto simp: BundleDeployment_DeepCopyInto_def reads_BundleDeployment_def struct_defs)

lemma bundle_deployments_arrayed:
  assumes "library_ok L V"
  shows "arrayed (BundleDeployment_DeepCopyInto L) (reads_BundleDeployment V) BundleDeploymentArray un_BundleDeployments"
  using bundle_deployment_deep_copy [OF assms] by (simp add: arrayed_def arrayed_axioms_def)

lemma bundle_deployment_list_deep_copy:
  assumes "library_ok L V"
  shows "deep_copy (BundleDeploymentList_DeepCopyInto L) (reads_BundleDeploymentList V)"
  by (rule deep_copy_struct [OF deep_copy_pair [OF library_okD(2) [OF assms]
          arrayed.slice_copy [OF bundle_deployments_arrayed [OF assms]]],
        where get = "\<lambda>b. (mbl_Meta b, mbl_Items b)"
          and upd = "\<lambda>(m, s) b. b\<lparr>mbl_Meta := m, mbl_Items := s\<rparr>"
          and val = "\<lambda>b (m, s). \<lparr>bl_APIVersion = mbl_APIVersion b, bl_Kind = mbl_Kind b, bl_Meta = m, bl_Items = s\<rparr>"])
    (auto simp: BundleDeploymentList_DeepCopyInto_def reads_BundleDeploymentList_def struct_defs)

text \<open>The pointers: what \<open>DeepCopy\<close> returns for a pointer that may be nil.\<close>

abbreviation reads_BundleDeployment_ptr :: "'x library_view \<Rightarrow> ('x, addr option, BundleDeployment option) reader" where
  "reads_BundleDeployment_ptr V \<equiv> reads_ptr un_BundleDeployment (reads_BundleDeployment V)"

abbreviation reads_BundleDeploymentList_ptr :: "'x library_view \<Rightarrow> ('x, addr option, BundleDeploymentList option) reader" where
  "reads_BundleDeploymentList_ptr V \<equiv> reads_ptr un_BundleDeploymentList (reads_BundleDeploymentList V)"

lemma BundleDeployment_DeepCopy_copies:
  "deep_copy (BundleDeployment_DeepCopy L) (reads_BundleDeployment_ptr V)" if "library_ok L V"
  unfolding BundleDeployment_DeepCopy_def using bundle_deployment_deep_copy [OF that]
  by (intro pointed.ptr_copy pointed.intro pointed_axioms.intro) simp_all

lemma BundleDeploymentList_DeepCopy_copies:
  "deep_copy (BundleDeploymentList_DeepCopy L) (reads_BundleDeploymentList_ptr V)" if "library_ok L V"
  unfolding BundleDeploymentList_DeepCopy_def using bundle_deployment_list_deep_copy [OF that]
  by (intro pointed.ptr_copy pointed.intro pointed_axioms.intro) simp_all

section \<open>Writes after a copy\<close>

definition puts :: "(addr \<times> 'x cell) list \<Rightarrow> 'x memory \<Rightarrow> 'x memory" where
  "puts ws h = fold (\<lambda>(p, c). put p c) ws h"

lemma agree_puts: "fst ` set ws \<inter> S = {} \<Longrightarrow> agree S h (puts ws h)"
proof (induction ws arbitrary: h)
  case (Cons w ws)
  obtain p c where w: "w = (p, c)" by fastforce
  have "agree S h (put p c h)" using Cons.prems w by (intro agree_put) auto
  moreover have "agree S (put p c h) (puts ws (put p c h))" using Cons by simp
  ultimately show ?case using w by (auto simp: puts_def intro: agree_trans)
qed (simp add: puts_def agree_def)

context deep_copy
begin

lemma untouched:
  assumes "memory_ok h" and "reads h x = Some (v, S)"
  shows "\<exists>y h' T. into x h = Some (y, h') \<and> reads h' y = Some (v, T) \<and> S \<inter> T = {}
    \<and> (\<forall>ws. fst ` set ws \<inter> S = {} \<longrightarrow> reads (puts ws h') x = Some (v, S))
    \<and> (\<forall>ws. fst ` set ws \<inter> T = {} \<longrightarrow> reads (puts ws h') y = Some (v, T))"
proof -
  from independent [OF assms] obtain y h' T where "into x h = Some (y, h')" "reads h' y = Some (v, T)"
    "S \<inter> T = {}" "\<forall>h''. agree S h' h'' \<longrightarrow> reads h'' x = Some (v, S)"
    "\<forall>h''. agree T h' h'' \<longrightarrow> reads h'' y = Some (v, T)" .
  then show ?thesis using agree_puts by blast
qed

end

text \<open>C20. The deep copy of a bundle deployment, which \<open>Reconcile\<close> works on to compare it with the original
  afterwards, succeeds and reads as the same bundle deployment; it shares
  no cell with the original, so whatever is later written elsewhere than to the cells of the original
  (through the copy, for one) leaves the original as it was, and the other way round. The assumption on
  the library is that its own copies keep the same contract.\<close>

theorem bundle_deployment_copy_independent:
  assumes "library_ok L V" and "memory_ok h"
    and "reads_BundleDeployment_ptr V h (Some a) = Some (Some bd, S)"
  shows "\<exists>b h' T. BundleDeployment_DeepCopy L (Some a) h = Some (Some b, h')
    \<and> reads_BundleDeployment_ptr V h' (Some b) = Some (Some bd, T) \<and> S \<inter> T = {}
    \<and> (\<forall>ws. fst ` set ws \<inter> S = {} \<longrightarrow>
         reads_BundleDeployment_ptr V (puts ws h') (Some a) = Some (Some bd, S))
    \<and> (\<forall>ws. fst ` set ws \<inter> T = {} \<longrightarrow>
         reads_BundleDeployment_ptr V (puts ws h') (Some b) = Some (Some bd, T))"
proof -
  from deep_copy.untouched [OF BundleDeployment_DeepCopy_copies [OF assms(1)] assms(2,3)]
  obtain y h' T where c: "BundleDeployment_DeepCopy L (Some a) h = Some (y, h')"
    "reads_BundleDeployment_ptr V h' y = Some (Some bd, T)" and r: "S \<inter> T = {}
    \<and> (\<forall>ws. fst ` set ws \<inter> S = {} \<longrightarrow> reads_BundleDeployment_ptr V (puts ws h') (Some a) = Some (Some bd, S))
    \<and> (\<forall>ws. fst ` set ws \<inter> T = {} \<longrightarrow> reads_BundleDeployment_ptr V (puts ws h') y = Some (Some bd, T))"
    by blast
  from c(2) obtain b where "y = Some b" by (cases y) (simp_all add: reads_ptr_def)
  with c r show ?thesis by blast
qed

text \<open>Copying a list of bundle deployments as a \<open>runtime.Object\<close> gives the nil interface for a nil list,
  never an interface that holds a nil pointer, and for a list an object of the same items in the same
  order (a nil slice stays nil, an empty one empty), none of which shares a cell with the original.\<close>

theorem bundle_deployment_list_copy_independent:
  assumes "library_ok L V" and "memory_ok h" and "reads_BundleDeploymentList_ptr V h i = Some (l, S)"
  shows "case i of
      None \<Rightarrow> BundleDeploymentList_DeepCopyObject L i h = Some (None, h)
    | Some a \<Rightarrow> \<exists>b h' T. BundleDeploymentList_DeepCopyObject L i h = Some (Some (BundleDeploymentListObject b), h')
        \<and> reads_BundleDeploymentList_ptr V h' (Some b) = Some (l, T) \<and> S \<inter> T = {}
        \<and> (\<forall>ws. fst ` set ws \<inter> S = {} \<longrightarrow> reads_BundleDeploymentList_ptr V (puts ws h') i = Some (l, S))
        \<and> (\<forall>ws. fst ` set ws \<inter> T = {} \<longrightarrow> reads_BundleDeploymentList_ptr V (puts ws h') (Some b) = Some (l, T))"
proof (cases i)
  case None
  then show ?thesis by (simp add: BundleDeploymentList_DeepCopyObject_def BundleDeploymentList_DeepCopy_def copy_ptr_def)
next
  case (Some a)
  from deep_copy.untouched [OF BundleDeploymentList_DeepCopy_copies [OF assms(1)] assms(2,3)]
  obtain y h' T where c: "BundleDeploymentList_DeepCopy L i h = Some (y, h')"
    "reads_BundleDeploymentList_ptr V h' y = Some (l, T)" and r: "S \<inter> T = {}
    \<and> (\<forall>ws. fst ` set ws \<inter> S = {} \<longrightarrow> reads_BundleDeploymentList_ptr V (puts ws h') i = Some (l, S))
    \<and> (\<forall>ws. fst ` set ws \<inter> T = {} \<longrightarrow> reads_BundleDeploymentList_ptr V (puts ws h') y = Some (l, T))"
    by blast
  have "l \<noteq> None" using assms(3) Some by (auto simp: reads_ptr_def bind_eq_Some_conv)
  with c(2) obtain b where "y = Some b" by (cases y) (simp_all add: reads_ptr_def)
  with c r Some show ?thesis by (auto simp: BundleDeploymentList_DeepCopyObject_def)
qed

section \<open>A concrete library and memory\<close>

text \<open>Library structs with a name, a pointer to a further library cell (the labels of an object, the raw
  bytes of an extension) and plain fields; the copies copy what the pointer leads to.\<close>

record demo_struct =
  d_name :: string
  d_ptr :: "addr option"
  d_json :: json
  d_cond :: Condition
  d_list :: ListMeta

definition demo_cond :: Condition where
  "demo_cond = \<lparr>cond_Type = TypeUnpacked, cond_Status = ConditionTrue, cond_ObservedGeneration = 2,
     cond_LastTransitionTime = 5, cond_Reason = ReasonUnpackSuccessful, cond_Message = ''ok''\<rparr>"

definition demo_list_meta :: ListMeta where
  "demo_list_meta = \<lparr>lm_ResourceVersion = ''7'', lm_Continue = [], lm_RemainingItemCount = None\<rparr>"

definition demo_struct :: "string \<Rightarrow> addr option \<Rightarrow> demo_struct" where
  "demo_struct n p = \<lparr>d_name = n, d_ptr = p, d_json = JStr n, d_cond = demo_cond, d_list = demo_list_meta\<rparr>"

definition demo_copy :: "(demo_struct, demo_struct) copier" where
  "demo_copy i h = do {
     (p, h) \<leftarrow> copy_ptr LibraryCell un_Library (demo_struct [] None) shallow (d_ptr i) h;
     Some (i\<lparr>d_ptr := p\<rparr>, h) }"

definition demo_library :: "demo_struct library" where
  "demo_library = \<lparr>lib_ObjectMeta = demo_copy, lib_ListMeta = shallow, lib_RawExtension = demo_copy,
     lib_Condition = shallow, zero_ObjectMeta = demo_struct [] None, zero_ListMeta = demo_struct [] None,
     zero_RawExtension = demo_struct [] None, zero_Condition = demo_struct [] None\<rparr>"

definition demo_meta :: "demo_struct \<Rightarrow> demo_struct option \<Rightarrow> ObjectMeta" where
  "demo_meta i p = (empty_meta [] (d_name i))\<lparr>om_Labels :=
     (case p of None \<Rightarrow> Map.empty | Some l \<Rightarrow> [''app'' \<mapsto> d_name l])\<rparr>"

definition demo_raw :: "demo_struct \<Rightarrow> demo_struct option \<Rightarrow> json" where
  "demo_raw i p = (case p of None \<Rightarrow> JNull | Some l \<Rightarrow> d_json l)"

definition demo_view :: "demo_struct library_view" where
  "demo_view = \<lparr>
     view_ObjectMeta = (\<lambda>h i. do { (p, S) \<leftarrow> reads_ptr un_Library reads_flat h (d_ptr i); Some (demo_meta i p, S) }),
     view_ListMeta = (\<lambda>h i. Some (d_list i, {})),
     view_RawExtension = (\<lambda>h i. do { (p, S) \<leftarrow> reads_ptr un_Library reads_flat h (d_ptr i); Some (demo_raw i p, S) }),
     view_Condition = (\<lambda>h i. Some (d_cond i, {}))\<rparr>"

interpretation demo: pointed shallow reads_flat LibraryCell un_Library "demo_struct [] None"
  by (intro pointed.intro deep_copy_flat pointed_axioms.intro) (simp_all add: flat_copies)

lemma demo_library_ok: "library_ok demo_library demo_view"
proof -
  have "deep_copy demo_copy (\<lambda>h i. do { (p, S) \<leftarrow> reads_ptr un_Library reads_flat h (d_ptr i); Some (g i p, S) })"
    if "\<And>i p. g (i\<lparr>d_ptr := p\<rparr>) = g i" for g :: "demo_struct \<Rightarrow> demo_struct option \<Rightarrow> 'v"
    by (rule deep_copy_struct [OF demo.ptr.deep_copy_axioms, where get = d_ptr
          and upd = "\<lambda>p i. i\<lparr>d_ptr := p\<rparr>" and val = g]) (simp_all add: demo_copy_def that)
  from this [of demo_meta] this [of demo_raw] deep_copy_value [of shallow d_list] deep_copy_value [of shallow d_cond]
  show ?thesis by (simp add: library_ok_def demo_library_def demo_view_def demo_meta_def demo_raw_def fun_eq_iff shallow_def)
qed

text \<open>A bundle deployment whose resolved source shares the image of its source.\<close>

definition demo_image :: ImageSource where
  "demo_image = \<lparr>img_Ref = ''quay.io/x:v2'', img_ImagePullSecretName = [], img_InsecureSkipTLSVerify = False,
     img_CertificateData = []\<rparr>"

definition demo_msource :: mBundleSource where
  "demo_msource = zero_BundleSource\<lparr>ms_Type := SourceTypeImage, ms_Image := Some 12\<rparr>"

definition demo_mbd :: "demo_struct mBundleDeployment" where
  "demo_mbd = \<lparr>mbd_APIVersion = ''core.rukpak.io/v1alpha2'', mbd_Kind = ''BundleDeployment'',
     mbd_Meta = demo_struct ''bd'' (Some 11),
     mbd_Spec = \<lparr>mspec_InstallNamespace = ''ns'', mspec_ProvisionerClassName = ''plain'', mspec_Source = demo_msource,
       mspec_Config = demo_struct [] None, mspec_Preflight = Some 13\<rparr>,
     mbd_Status = \<lparr>mst_Conditions = Some (Slice 15 0 2), mst_ResolvedSource = Some 16, mst_ContentURL = ''url'',
       mst_ObservedGeneration = 2\<rparr>\<rparr>"

definition demo_memory :: "demo_struct memory" where
  "demo_memory = \<lparr>cells = [10 \<mapsto> BundleDeploymentCell demo_mbd, 11 \<mapsto> LibraryCell (demo_struct ''web'' None),
     12 \<mapsto> ImageSourceCell demo_image, 13 \<mapsto> PreflightConfigCell \<lparr>mp_CRDUpgradeSafety = Some 14\<rparr>,
     14 \<mapsto> CRDUpgradeSafetyCell \<lparr>crd_Disabled = True\<rparr>,
     15 \<mapsto> ConditionArray (replicate 3 (demo_struct [] None)), 16 \<mapsto> BundleSourceCell demo_msource,
     17 \<mapsto> BundleDeploymentArray [demo_mbd],
     18 \<mapsto> BundleDeploymentListCell \<lparr>mbl_APIVersion = ''core.rukpak.io/v1alpha2'', mbl_Kind = ''BundleDeploymentList'',
       mbl_Meta = demo_struct [] None, mbl_Items = Some (Slice 17 0 (Suc 0))\<rparr>], lim = 19\<rparr>"

definition demo_read :: BundleDeployment where
  "demo_read = (mk_bd ''bd'' ''plain'' ((empty_source SourceTypeImage)\<lparr>src_Image := Some demo_image\<rparr>))\<lparr>
     bd_Meta := (empty_meta [] ''bd'')\<lparr>om_Labels := [''app'' \<mapsto> ''web'']\<rparr>,
     bd_Spec := \<lparr>spec_InstallNamespace = ''ns'', spec_ProvisionerClassName = ''plain'',
       spec_Source = (empty_source SourceTypeImage)\<lparr>src_Image := Some demo_image\<rparr>, spec_Config = JNull,
       spec_Preflight = Some \<lparr>pf_CRDUpgradeSafety = Some \<lparr>crd_Disabled = True\<rparr>\<rparr>\<rparr>,
     bd_Status := \<lparr>st_Conditions = [demo_cond, demo_cond],
       st_ResolvedSource = Some ((empty_source SourceTypeImage)\<lparr>src_Image := Some demo_image\<rparr>),
       st_ContentURL = ''url'', st_ObservedGeneration = 2\<rparr>\<rparr>"

lemmas demo_memory_simps = demo_memory_def demo_mbd_def demo_msource_def demo_struct_def demo_view_def
  demo_meta_def demo_raw_def demo_read_def mk_bd_def empty_source_def zero_BundleSource_def
  reads_ptr_def reads_slice_def reads_BundleDeployment_def reads_Spec_def reads_Status_def reads_BundleSource_def
  reads_PreflightConfig_def reads_flat_def load_def elems_def

lemma demo_memory_ok: "memory_ok demo_memory"
  by (simp add: memory_ok_def demo_memory_def)

lemma demo_bd_reads: "reads_BundleDeployment demo_view demo_memory demo_mbd = Some (demo_read, {11, 12, 13, 14, 15, 16})"
  by (simp add: demo_memory_simps numeral_2_eq_2 numeral_3_eq_3) blast

definition demo_cells :: "addr set" where
  "demo_cells = {10, 11, 12, 13, 14, 15, 16}"

definition demo_list_cells :: "addr set" where
  "demo_list_cells = {18, 17, 11, 12, 13, 14, 15, 16}"

lemma demo_ptr_reads:
  "reads_BundleDeployment_ptr demo_view demo_memory (Some 10) = Some (Some demo_read, demo_cells)"
proof -
  have "load un_BundleDeployment demo_memory 10 = Some demo_mbd" by (simp add: load_def demo_memory_def)
  then show ?thesis by (simp add: reads_ptr_def demo_bd_reads demo_cells_def)
qed

theorem bundle_deployment_copy_independent_witness:
  "\<exists>b h' T. BundleDeployment_DeepCopy demo_library (Some 10) demo_memory = Some (Some b, h')
    \<and> reads_BundleDeployment_ptr demo_view h' (Some b) = Some (Some demo_read, T)
    \<and> demo_cells \<inter> T = {}
    \<and> reads_BundleDeployment_ptr demo_view (puts [(b, LibraryCell (demo_struct [] None))] h') (Some 10)
        = Some (Some demo_read, demo_cells)
    \<and> reads_BundleDeployment_ptr demo_view (puts [(12, ImageSourceCell zero_ImageSource)] h') (Some b)
        = Some (Some demo_read, T)"
proof -
    from bundle_deployment_copy_independent [OF demo_library_ok demo_memory_ok demo_ptr_reads]
  obtain b h' T where c: "BundleDeployment_DeepCopy demo_library (Some 10) demo_memory = Some (Some b, h')"
    "reads_BundleDeployment_ptr demo_view h' (Some b) = Some (Some demo_read, T)" "demo_cells \<inter> T = {}"
    and w: "\<forall>ws. fst ` set ws \<inter> demo_cells = {} \<longrightarrow>
      reads_BundleDeployment_ptr demo_view (puts ws h') (Some 10) = Some (Some demo_read, demo_cells)"
      "\<forall>ws. fst ` set ws \<inter> T = {} \<longrightarrow>
      reads_BundleDeployment_ptr demo_view (puts ws h') (Some b) = Some (Some demo_read, T)"
    by blast
  have "b \<in> T" using c(2) by (auto simp: reads_ptr_def bind_eq_Some_conv)
  with c(3) have "b \<notin> demo_cells" by blast
  then have "fst ` set [(b, LibraryCell (demo_struct [] None))] \<inter> demo_cells = {}" by simp
  moreover have "fst ` set [(12, ImageSourceCell zero_ImageSource)] \<inter> T = {}" using c(3) by (auto simp: demo_cells_def)
  ultimately show ?thesis using c w by blast
qed

definition demo_read_list :: BundleDeploymentList where
  "demo_read_list = \<lparr>bl_APIVersion = ''core.rukpak.io/v1alpha2'', bl_Kind = ''BundleDeploymentList'',
     bl_Meta = demo_list_meta, bl_Items = Some [demo_read]\<rparr>"

lemma demo_list_reads: "reads_BundleDeploymentList_ptr demo_view demo_memory (Some 18)
    = Some (Some demo_read_list, demo_list_cells)"
proof -
  have "load un_BundleDeploymentList demo_memory 18 = Some \<lparr>mbl_APIVersion = ''core.rukpak.io/v1alpha2'',
      mbl_Kind = ''BundleDeploymentList'', mbl_Meta = demo_struct [] None, mbl_Items = Some (Slice 17 0 (Suc 0))\<rparr>"
    and "elems un_BundleDeployments demo_memory (Slice 17 0 (Suc 0)) = Some [demo_mbd]"
    by (simp_all add: load_def elems_def demo_memory_def)
  then show ?thesis
    by (simp add: reads_ptr_def reads_slice_def reads_BundleDeploymentList_def demo_bd_reads demo_read_list_def demo_list_cells_def)
      (simp add: demo_view_def demo_struct_def)
qed

theorem bundle_deployment_list_copy_independent_witness:
  "\<exists>b h' T. BundleDeploymentList_DeepCopyObject demo_library (Some 18) demo_memory
      = Some (Some (BundleDeploymentListObject b), h')
    \<and> reads_BundleDeploymentList_ptr demo_view h' (Some b) = Some (Some demo_read_list, T)
    \<and> demo_list_cells \<inter> T = {}"
  using bundle_deployment_list_copy_independent [OF demo_library_ok demo_memory_ok demo_list_reads]
  unfolding option.case by blast

end
