(* ===== verification/Spec2Isabelle.thy ===== *)
theory Spec2Isabelle
  imports Processes Unpack_Pods Request_Safety Deep_Copy
begin

text \<open>
  RukPak deploys bundles of Kubernetes manifests. A user creates a bundle deployment: a custom resource
  that names a source (an image, a git repository, an HTTP server, config maps) and a provisioner
  class. A controller unpacks the source, stores the files, turns them into a Helm chart, runs the
  preflight checks, installs or upgrades the release, watches the installed objects and reports all of it in
  the status. Admission webhooks guard the bundle deployments, the config maps they use, and updates of
  custom resource definitions.

  \<^bold>\<open>The parts and how they interact.\<close>
  \<^item> The managers (cmd/core, cmd/helm) make one storage, one unpacker, one registry of finalizers and one getter of Helm
    clients, and run a controller per provisioner on them. The managers of the webhooks (cmd/webhooks,
    cmd/crdvalidator) serve the validators.
  \<^item> The controller (internal/controllers/bundledeployment) calls, in this order, the finalizers, the unpacker, the
    storage (store, URL, load), the handler of the provisioner, the Helm client (state of the release by a dry run),
    the preflights, the Helm client again (install, upgrade or reconcile), the watches and the health checks.
  \<^item> The unpacker (pkg/source) picks a source by type; the storage (pkg/storage) keeps gzipped archives and serves them; the
    handlers (pkg/provisioner) read the files of a bundle, the one for registry bundles through pkg/convert.
  \<^item> pkg/util holds what they share: file-system adapters, archives, names, hashes, event handlers.

  \<^bold>\<open>The theories.\<close> Each opens with what it holds; definitions keep the names of the source, with the receiver's type
  in front where two would clash.
  \<^item> \<open>Go_Prelude\<close>, \<open>Go_Path\<close>, \<open>Go_FS\<close>: what the sources use of Go: errors and their wrapping, the ways a call
    ends (value, error, panic, no end), \<open>fmt\<close>, \<open>path/filepath\<close>, \<open>io/fs\<close>, \<open>fstest.MapFS\<close>, tar archives.
  \<^item> \<open>API_Types\<close>: api/v1alpha2 and the Kubernetes objects in use.
  \<^item> \<open>Webhooks\<close>: internal/webhook, and the cluster it guards as a step relation (\<open>admission_step\<close>).
  \<^item> \<open>Util\<close>, \<open>Util_FS\<close>: pkg/util and the archive of cmd/unpack.
  \<^item> \<open>Storage\<close>: pkg/storage. \<open>Sources\<close>, \<open>Image_Sources\<close>: pkg/source.
  \<^item> \<open>Convert\<close>: pkg/convert. \<open>Provisioners\<close>: pkg/provisioner and pkg/handler.
  \<^item> \<open>CRD_Validation\<close>: internal/crd, cmd/crdvalidator/handlers, pkg/preflights/crdupgradesafety.
  \<^item> \<open>Healthchecks\<close>: internal/healthchecks and pkg/helm-operator-plugins/predicate.
  \<^item> \<open>BD_Status\<close>, \<open>Release\<close>, \<open>Controller\<close>: internal/controllers/bundledeployment (status writers; post-renderer and state of the
    release; options, \<open>reconcile\<close> as a composition of stages, \<open>Reconcile\<close>) and pkg/finalizer.
  \<^item> \<open>Controller_Props\<close>: the properties of the controller that go through all its stages.
  \<^item> \<open>Managers\<close>: cmd/core, cmd/helm, internal/version, pkg/features. \<open>Webhook_Managers\<close>: cmd/webhooks, cmd/crdvalidator.
  \<^item> \<open>Bundle_Lifecycle\<close>: the properties of the controllers of a manager together with its storage and finalizers, from the first
    request for a bundle deployment to its deletion.
  \<^item> \<open>Event_Flow\<close>: the events of a cluster and the requests they cause, through the set-up of the controllers and the watches they start.
  \<^item> \<open>Processes\<close>: the registration of the types (api/v1alpha2/groupversion_info.go) and the four commands, from \<open>init\<close> to the exit code.
  \<^item> \<open>Unpack_Pods\<close>: the unpack command as a process, and the pod of the image source that runs it.
  \<^item> \<open>Request_Safety\<close>: a request to a controller of a manager, with the manager's own unpacker, storage, finalizers, handlers and preflights.
  \<^item> \<open>Deep_Copy\<close>: the generated copies of api/v1alpha2 on an explicit memory of cells, which justify that the other theories treat a
    bundle deployment as a value.

  \<^bold>\<open>State and effects.\<close> A Go call is a value of \<open>outcome\<close>, or a function of a state to an outcome and a state (\<open>M\<close>). The
  controller's state is the record \<open>rstate\<close>: the bundle deployment, the kinds it watches, and the world \<open>'w\<close>, which the parts
  change through their calls; a manager's disk and what its sources read are parts of that world (\<open>lens\<close>). A stage takes the rest of the function as its
  continuation, so that an early return is one branch. Interfaces are locales, interpreted on the model: \<open>bundle_storage\<close>
  (the local directory, and the same with a fallback), \<open>bundle_source\<close> (the five sources), \<open>bundle_handler\<close> (the three handlers),
  \<open>guarded_machine\<close> (the guarded cluster), \<open>call_invariant\<close> (what the calls of one controller keep, every stage keeps) with its sublocale \<open>stage_invariant\<close> (what every controller keeps), \<open>view_invariant\<close> (what every stage that succeeds keeps), and
  \<open>deep_copy\<close> with \<open>pointed\<close> and \<open>arrayed\<close> (the generated copies).

  \<^bold>\<open>What is shown.\<close>
  \<^item> Across parts: what a manager deploys is the bundle that its unpacker gave (here); a bundle of config maps does not change
    while it is in use (here); every bundle deployment has one controller (\<open>Managers\<close>).
  \<^item> The life of a bundle (\<open>Bundle_Lifecycle\<close>): the content URL in the status serves the archive of the unpacked bundle; the finalizers go off a deleted
    bundle deployment only after the archive is removed; but the reconciliation goes on and stores it again, and a change of the finalizers reaches the server only
    in a request that leaves the status as it was, and is settled by the first such request that ends well.
  \<^item> Events (\<open>Event_Flow\<close>): a request follows exactly when an object of a release is deleted, or updated beyond status and resource version; but the watches also enqueue bundle
    deployments of other provisioners, which are then reconciled; the first watches enqueue only the bundle deployments of the controller's class.
  \<^item> Processes (\<open>Processes\<close>): every command that comes up knows the types its client and its watches use.
  \<^item> Requests (\<open>Request_Safety\<close>): a request to a controller of a manager panics, for admitted sources and libraries that do not, only where the health checks read
    the result of a status computation that failed.
  \<^item> Copies (\<open>Deep_Copy\<close>): a copy reads as the original and shares no cell with it.
  \<^item> Controller: the status always says how the reconciliation ended; releases change only when they must and after the
    preflights; reconciling again changes nothing, for charts that render the same at every revision; a request always ends, without panic, when the parts it calls do.
  \<^item> Webhooks: referenced config maps are immutable and keep their content along every run of admitted requests; the exact
    condition on admitted config-map sources.
  \<^item> Storage and archives: what is stored is loaded and served back, also after other operations and with the
    fallback; archiving a finite tree gives its archive or an error, and agrees with the unpack command.
  \<^item> Sources: what each source unpacks; the pod of an image prints the image's own files and the source reads them back (\<open>Unpack_Pods\<close>); the cache of images; the contract of the default unpacker and when it
    cannot panic.
  \<^item> Conversion and handlers: the generated objects refer to each other correctly, grant no more than the
    bundle asks for, have short enough names, and become the chart, each once.
  \<^item> CRD checks, health checks, event filters and handlers: exact conditions.

  \<^bold>\<open>Bounds.\<close> \<open>fs.WalkDir\<close> recurses with a bound \<open>depth\<close> on the depth of the tree; \<open>walk_bounded\<close> says that the tree
  is no deeper, and then the walk ends; every tree in which no path goes on for ever has such a bound (\<open>FSToTarGZ_total\<close>); a walk beyond the bound is \<open>Diverge\<close>, never a result. The loop of
  \<open>LoadCertPool\<close> has the length of the data as its bound, which is enough because each block takes some of it
  (\<open>LoadCertPool_ends\<close>). The poll of \<open>CreateOrRecreate\<close> is a parameter with the law that it repeats its condition.

  \<^bold>\<open>Parameters.\<close> Code outside the repository is an argument: the Kubernetes API, Helm, go-git, the registry client, YAML and JSON,
  kapp, kstatus, the archive reader, hashes. Where a property relies on them, their documented behaviour is a named
  hypothesis (\<open>aggregate_law\<close>, \<open>tarfs_law\<close>, \<open>condition_setter\<close>, \<open>release_client\<close>, \<open>helm_law\<close>, \<open>finalizers_law\<close>, \<open>finalizer_registry\<close>, \<open>api_server\<close>, \<open>library_ok\<close>, \<open>watch_law\<close>, \<open>world_law\<close>,
  \<open>owner_handler_law\<close>, \<open>puts_in_place\<close>, \<open>scheme_law\<close>, \<open>cobra_law\<close>, \<open>json_law\<close>, \<open>kapp_law\<close>, \<open>registry_law\<close>, \<open>calm_libraries\<close> and others), and a
  witness gives functions that satisfy it. Where Go leaves the order of a map open, the order is a parameter.

  \<^bold>\<open>Not modelled.\<close> The parsing of flags and logging; the bodies of what \<open>init\<close> registers from other modules; the work queue, cache and leader election of controller-runtime, so two reconciliations of one
  controller never interleave here, as it runs one worker; the helpers of tests; times and durations, other than as the order of events.
\<close>

section \<open>From the source to the release\<close>

lemma started_controller:
  assumes "core_main L f = Started (mo, cs) \<or> helm_main L f = Started (mo, cs)" and "c \<in> set cs"
  obtains ident sto acg checks i h where "storage_of L f mo ident sto" "c = managed L f sto acg checks i h"
    "h \<in> {plain_handler_of L, registry_handler_of L, helm_handler_of L}"
  using started_parts [OF assms] unfolding made_of_def by metis

text \<open>C1. The whole way of a bundle through a manager. A controller of a started manager reconciles a bundle deployment without error, and
  the status says that the bundle is unpacked. Then the default unpacker gave a bundle for the bundle deployment's source; its regular
  files, when the paths are valid and distinct, have the same content in the files the manager's storage loaded; the
  controller's handler, which is one of the three, made a chart of those files; and the Helm client for the bundle
  deployment has a release of that chart under its name, installed or upgraded with it, or left when a dry run gave the same manifest. Every kind in the release's manifest is
  watched, and so is every kind that was watched before. The assumptions are that the archive library reads back what was written, that the disk is a part of
  the world, that \<open>SetStatusCondition\<close> sets conditions, and that the registry of finalizers changes no more than
  the finalizers of the object.\<close>

theorem manager_deploys_unpacked_bundle:
  assumes started: "core_main L f = Started (mo, cs) \<or> helm_main L f = Started (mo, cs)" and c: "c \<in> set cs"
    and disk: "lens_law (ml_disk L)" and tar: "tarfs_law (ml_tarfs L)" and sc: "condition_setter (k_setSC K)" and fin: "finalizers_law c"
    and run: "reconcile K c s = (Ok (), s')" and unp: "unpacked_status (bd_Status (rs_bd s'))"
  shows "\<exists>bd w w' res b fsys h cv cl rel.
     bd_core bd = bd_core (rs_bd s) \<and>
     up_Unpack (NewDefaultUnpacker (ml_sources L) (system_namespace L f) (fl_unpackCacheDir f)) bd (ln_get (ml_source_world L) w) = (Ok res, w') \<and>
     res_State res = StateUnpacked \<and> res_Bundle res = Some b \<and> same_files (ml_depth L) (Some b) fsys \<and>
     c_handler c = Some h \<and> h \<in> {plain_handler_of L, registry_handler_of L, helm_handler_of L} \<and> handled c (bd_core (rs_bd s)) fsys cv \<and>
     client_for c (bd_core (rs_bd s)) cl \<and> release_of cl (bd_core (rs_bd s)) cv rel \<and> manifest_watched K rel s' \<and> rs_watched s \<subseteq> rs_watched s'"
proof -
  let ?b = "bd_core (rs_bd s)"
  obtain ident sto acg checks i h where sto: "storage_of L f mo ident sto" and c_def: "c = managed L f sto acg checks i h"
    and h: "h \<in> {plain_handler_of L, registry_handler_of L, helm_handler_of L}"
    by (rule started_controller [OF started c])
  have law: "stores_as sto' (same_files (ml_depth L))" if "c_storage c = Some sto'" for sto'
    using that sto new_bundle_storage_stores [OF disk tar] by (auto simp: c_def managed_def Let_def storage_of_def)
  obtain cv where "charted c (same_files (ml_depth L)) ?b cv" and "deployed (\<lambda>_ _. True) K c ?b cv (Ok (), s')"
    using reconcile_deployed [OF sc fin law puts_any run unp] by blast
  then obtain fsys res cl rel where res: "unpacked_as c ?b res" "same_files (ml_depth L) (res_Bundle res) fsys" and handled: "handled c ?b fsys cv"
    and rel: "client_for c ?b cl" "release_of cl ?b cv rel" "manifest_watched K rel s'"
    unfolding charted_def of_unpacked_def deployed_def by (metis is_ok.simps(1) fst_conv snd_conv)
  obtain bd w w' b where "bd_core bd = ?b" "res_State res = StateUnpacked" "res_Bundle res = Some b"
    "up_Unpack (NewDefaultUnpacker (ml_sources L) (system_namespace L f) (fl_unpackCacheDir f)) bd (ln_get (ml_source_world L) w) = (Ok res, w')"
    using managed_unpacks [OF res(1) [unfolded c_def]] by blast
  moreover have "c_handler c = Some h" by (simp add: c_def managed_def Let_def)
  ultimately show ?thesis
    using h handled rel res(2) reconcile_watches_grow [OF run] by metis
qed

lemma demo_manager_laws:
  "lens_law (ml_disk demo_manager)" "tarfs_law (ml_tarfs demo_manager)" "condition_setter (k_setSC demo_plain_libs)"
  "core_main demo_manager default_flags = Started (mo, cs) \<Longrightarrow> c \<in> set cs \<Longrightarrow> finalizers_law c"
  using tar_MapFS_law upsert_condition_setter
  by (auto simp: demo_manager_def lens_law_def demo_plain_libs_def finalizers_law_def managed_def Let_def elim!: core_main_Started)

theorem manager_deploys_unpacked_bundle_witness:
  "\<exists>mo c cs s'. core_main demo_manager default_flags = Started (mo, c # cs) \<and> reconcile demo_plain_libs c demo_http_start = (Ok (), s') \<and>
     (\<exists>cl cv rel. client_for c (bd_core demo_http_bd) cl \<and> release_of cl (bd_core demo_http_bd) cv rel \<and> manifest_watched demo_plain_libs rel s')"
proof -
  obtain mo c cs where started: "core_main demo_manager default_flags = Started (mo, c # cs)"
    using demo_started(1) by blast
  obtain s' where run: "reconcile demo_plain_libs c demo_http_start = (Ok (), s')" "unpacked_status (bd_Status (rs_bd s'))"
    using demo_http_reconciled [OF started] by blast
  have c: "c \<in> set (c # cs)" by simp
  have "rs_bd demo_http_start = demo_http_bd" by (simp add: demo_http_start_def)
  then show ?thesis
    using started run manager_deploys_unpacked_bundle
      [OF disjI1 [OF started] c demo_manager_laws(1,2,3) demo_manager_laws(4) [OF started c] run] by metis
qed

section \<open>Bundles in config maps do not change\<close>

text \<open>Reading config maps with the same content gives the same files.\<close>

lemma cm_loop_same_content:
  assumes "\<And>r. r \<in> set refs \<Longrightarrow> \<exists>cm cm'. Get ns (cms_ConfigMap r) = Inr cm \<and> Get' ns (cms_ConfigMap r) = Inr cm' \<and>
      cm_Data cm' = cm_Data cm \<and> cm_BinaryData cm' = cm_BinaryData cm"
  shows "cm_loop iter Get' ns refs st = cm_loop iter Get ns refs st"
  using assms
proof (induction refs arbitrary: st)
  case (Cons r refs)
  obtain cm cm' where "Get ns (cms_ConfigMap r) = Inr cm" "Get' ns (cms_ConfigMap r) = Inr cm'" "cm_entries iter cm' = cm_entries iter cm"
    using Cons.prems [of r] by (auto simp: cm_entries_def)
  with Cons show ?case by (simp add: Let_def)
qed simp

definition cms_content :: "cluster \<Rightarrow> string \<Rightarrow> string \<Rightarrow> (string \<times> string) list \<times> (string \<times> string) list" where
  "cms_content c ns name = (case cl_cms c (ns, name) of None \<Rightarrow> ([], []) | Some cm \<Rightarrow> (cm_Data cm, cm_BinaryData cm))"

lemma referenced_contents_stable:
  assumes law: "aggregate_law NA" and inv: "referenced_immutable ns c"
    and run: "(\<lambda>x y. admission_step NA ns x y \<and> (\<exists>b \<in> set (cl_bds x). bd_Source b = src))\<^sup>*\<^sup>* c c'"
    and src: "src_Type src = SourceTypeConfigMaps" "src_ConfigMaps src = Some refs"
    and found: "\<forall>r \<in> set refs. \<exists>cm. cl_cms c (ns, cms_ConfigMap r) = Some cm"
  shows "\<forall>r \<in> set refs. has_content ns (cms_ConfigMap r) (fst (cms_content c ns (cms_ConfigMap r))) (snd (cms_content c ns (cms_ConfigMap r))) c'"
proof (rule admission.run_stable [where NewAggregate = NA and ns = ns and P = "\<lambda>x. \<exists>b \<in> set (cl_bds x). bd_Source b = src" and s = c])
  show "(\<lambda>x y. (aggregate_law NA \<and> admission_step NA ns x y) \<and> (\<exists>b\<in>set (cl_bds x). bd_Source b = src))\<^sup>*\<^sup>* c c'"
    using run law by simp
  show "\<forall>r \<in> set refs. has_content ns (cms_ConfigMap r) (fst (cms_content c ns (cms_ConfigMap r))) (snd (cms_content c ns (cms_ConfigMap r))) c"
    using found by (fastforce simp: has_content_def cms_content_def)
next
  fix x y
  assume "referenced_immutable ns x" "aggregate_law NA \<and> admission_step NA ns x y" "\<exists>b\<in>set (cl_bds x). bd_Source b = src"
    and Q: "\<forall>r \<in> set refs. has_content ns (cms_ConfigMap r) (fst (cms_content c ns (cms_ConfigMap r))) (snd (cms_content c ns (cms_ConfigMap r))) x"
  moreover have "referenced (cms_ConfigMap r) x" if "r \<in> set refs" for r
    using calculation(3) that src unfolding referenced_def references_def config_map_refs_def by force
  ultimately show "\<forall>r \<in> set refs. has_content ns (cms_ConfigMap r) (fst (cms_content c ns (cms_ConfigMap r))) (snd (cms_content c ns (cms_ConfigMap r))) y"
    using admission_step_content by blast
qed (use inv in simp)

text \<open>C8. A bundle made of config maps does not change under its bundle deployment. The webhook manager and the core manager run in one system namespace; the cluster has
  been changed by requests that the webhooks admit only, since there were no bundle deployments. Whatever admitted requests follow,
  as long as some bundle deployment has the source: when the config maps of the source exist, then unpacking the source with the core
  manager's unpacker gives the same outcome at the end as at the beginning.\<close>

theorem admitted_configmap_bundle_stable:
  assumes hooks: "webhooks_main W g = Started (wo, hs)"
      "map_of hs ''/validate-core-rukpak-io-v1alpha2-bundledeployment'' = Some (BundleDeploymentValidator ns recover)"
    and core: "core_main L f = Started (mo, cs)"
    and same: "wf_systemNamespace g = fl_systemNamespace f" "wl_ReadFile W = ml_ReadFile L"
    and law: "aggregate_law NA" and start: "cl_bds c0 = []" "(admission_step NA ns)\<^sup>*\<^sup>* c0 c"
    and run: "(\<lambda>x y. admission_step NA ns x y \<and> (\<exists>b \<in> set (cl_bds x). bd_Source b = bd_Source bd))\<^sup>*\<^sup>* c c'"
    and src: "src_Type (bd_Source bd) = SourceTypeConfigMaps" "src_ConfigMaps (bd_Source bd) = Some refs"
    and found: "\<forall>r \<in> set refs. \<exists>cm. cl_cms c (ns, cms_ConfigMap r) = Some cm"
    and reads: "sw_ConfigMap w = cluster_get c" "sw_ConfigMap w' = cluster_get c'"
  shows "fst (up_Unpack (NewDefaultUnpacker (ml_sources L) (mo_SystemNamespace mo) dir) bd w') =
         fst (up_Unpack (NewDefaultUnpacker (ml_sources L) (mo_SystemNamespace mo) dir) bd w)"
proof -
  have ns: "mo_SystemNamespace mo = ns"
    using core hooks webhooks_main_Started(1) [OF hooks(1)] same_namespace [OF same]
    by (elim core_main_Started) (auto simp: storage_of_def new_manager_options_def)
  have "referenced_immutable ns c"
    using admission.reachable_invar [of c0 NA ns c] law start by simp
  then have "\<forall>r \<in> set refs. has_content ns (cms_ConfigMap r) (fst (cms_content c ns (cms_ConfigMap r))) (snd (cms_content c ns (cms_ConfigMap r))) c'"
    using referenced_contents_stable [OF law _ run src found] by simp
  then have "cm_loop iter (cluster_get c') ns refs st = cm_loop iter (cluster_get c) ns refs st" for iter st
    using found by (intro cm_loop_same_content) (fastforce simp: has_content_def cms_content_def cluster_get_def)
  then show ?thesis
    using src by (simp add: NewDefaultUnpacker_def default_sources_def NewUnpacker_def unpacker_Unpack_def reading_def ns reads ConfigMaps_Unpack_def)
qed

definition demo_webhook_libs :: webhook_libs where
  "demo_webhook_libs = \<lparr>wl_BuildInfo = None, wl_GetConfig = Inr [], wl_ReadFile = (\<lambda>_. Inl (Msg [])), wl_NewManager = (\<lambda>_. None),
     wl_AddHealthzCheck = (\<lambda>_. None), wl_AddReadyzCheck = (\<lambda>_. None)\<rparr>"

theorem admitted_configmap_bundle_stable_witness:
  "\<exists>mo cs. core_main demo_manager (default_flags\<lparr>fl_systemNamespace := ''sys''\<rparr>) = Started (mo, cs) \<and>
     (\<forall>w w' :: (unit, unit, string, unit, string) source_world.
        sw_ConfigMap w = cluster_get (demo_cluster [demo_bd ''manifests'']) \<longrightarrow> sw_ConfigMap w' = sw_ConfigMap w \<longrightarrow>
        fst (up_Unpack (NewDefaultUnpacker (ml_sources demo_manager) (mo_SystemNamespace mo) ''/c'') (demo_bd ''manifests'') w') =
        fst (up_Unpack (NewDefaultUnpacker (ml_sources demo_manager) (mo_SystemNamespace mo) ''/c'') (demo_bd ''manifests'') w))"
proof -
  let ?f = "default_flags\<lparr>fl_systemNamespace := ''sys''\<rparr>" and ?g = "default_webhook_flags\<lparr>wf_systemNamespace := ''sys''\<rparr>"
  let ?c = "demo_cluster [demo_bd ''manifests'']" and ?bd = "demo_bd ''manifests''"
  obtain mo cs where core: "core_main demo_manager ?f = Started (mo, cs)"
    using demo_started_with(1) [of ?f] by (auto simp: default_flags_def)
  obtain wo hs where hooks: "webhooks_main demo_webhook_libs ?g = Started (wo, hs)"
    by (auto simp: webhooks_main_def demo_webhook_libs_def default_webhook_flags_def or_exit_def check_exit_def with_hooks_def
        BundleDeployment_SetupWebhookWithManager_def ConfigMap_SetupWebhookWithManager_def Let_def)
  have ns: "map_of hs ''/validate-core-rukpak-io-v1alpha2-bundledeployment'' = Some (BundleDeploymentValidator ''sys'' True)"
    using webhooks_main_Started(1) [OF hooks] by (simp add: webhook_namespace_def)
  have same: "wf_systemNamespace ?g = fl_systemNamespace ?f" "wl_ReadFile demo_webhook_libs = ml_ReadFile demo_manager"
    by (simp_all add: demo_webhook_libs_def demo_manager_def)
  have run: "(\<lambda>x y. admission_step plain_aggregate ''sys'' x y \<and> (\<exists>b \<in> set (cl_bds x). bd_Source b = bd_Source ?bd))\<^sup>*\<^sup>* ?c ?c"
    by (rule r_into_rtranclp) (use demo_update_step in \<open>simp add: demo_cluster_def\<close>)
  have start: "cl_bds (demo_cluster []) = []" "(admission_step plain_aggregate ''sys'')\<^sup>*\<^sup>* (demo_cluster []) ?c"
    using demo_create_step by (auto simp: demo_cluster_def)
  have src: "src_Type (bd_Source ?bd) = SourceTypeConfigMaps" "src_ConfigMaps (bd_Source ?bd) = Some [\<lparr>cms_ConfigMap = ''cm'', cms_Path = ''manifests''\<rparr>]"
    by (simp_all add: demo_bd_def mk_bd_def empty_source_def)
  have found: "\<forall>r \<in> set [\<lparr>cms_ConfigMap = ''cm'', cms_Path = ''manifests''\<rparr>]. \<exists>cm. cl_cms ?c (''sys'', cms_ConfigMap r) = Some cm"
    by (simp add: demo_cluster_def)
  show ?thesis
    using core admitted_configmap_bundle_stable [OF hooks ns core same plain_aggregate_law start run src found] by metis
qed

end
